theory Spec2Isabelle
  imports Complex_Main "HOL-Library.Word" "HOL-Library.Signed_Division"
begin

section \<open>Machine integers and failures\<close>

text \<open>
  The kernels of \<^verbatim>\<open>slice_sendrecv_ops.cc\<close> compute with \<^verbatim>\<open>int64\<close> (signed) and
  \<^verbatim>\<open>size_t\<close> (unsigned) values. Both are 64-bit words here; a signed operation reads
  its operands with \<open>sint\<close>, an unsigned one with \<open>unat\<close>. The attribute
  \<^verbatim>\<open>slice_size_\<close> is a signed integer member; it is kept as the 64-bit word it is
  converted to in every expression that uses it (sign extension).
\<close>

type_synonym int64 = "64 word"
type_synonym size_t = "64 word"
type_synonym byte = "8 word"

text \<open>
  Everything that stops a kernel: a non-OK \<^verbatim>\<open>Status\<close> (the first four), a failed
  \<^verbatim>\<open>CHECK\<close>, a trapping integer division, an out-of-range \<^verbatim>\<open>substr\<close> or
  \<^verbatim>\<open>memcpy\<close>.
\<close>

datatype error =
    Internal
  | Aborted
  | DeadlineExceeded
  | InvalidArgument
  | CheckFailed
  | ArithmeticTrap
  | OutOfRange

text \<open>\<^verbatim>\<open>a / b\<close> on \<^verbatim>\<open>int64\<close>: truncates towards zero, traps on a zero divisor and on
  \<^verbatim>\<open>INT64_MIN / -1\<close>.\<close>

definition int64_div :: "int64 \<Rightarrow> int64 \<Rightarrow> error + int64" where
  "int64_div a b =
     (if b = 0 \<or> (sint a = - (2 ^ 63) \<and> sint b = - 1) then Inl ArithmeticTrap
      else Inr (word_of_int (sint a sdiv sint b)))"

text \<open>\<^verbatim>\<open>a / b\<close> on \<^verbatim>\<open>size_t\<close>: traps on a zero divisor.\<close>

definition size_t_div :: "size_t \<Rightarrow> size_t \<Rightarrow> error + size_t" where
  "size_t_div a b = (if b = 0 then Inl ArithmeticTrap else Inr (a div b))"

section \<open>Slice geometry\<close>

text \<open>
  \<^verbatim>\<open>SliceSendOp::SendBasicType\<close>, lines 255-256:
  \<^verbatim>\<open>int64 slice_num = (bytes_num + slice_size_ - 1) / slice_size_;\<close>
\<close>

definition SendBasicType_slice_num :: "int64 \<Rightarrow> int64 \<Rightarrow> error + int64" where
  "SendBasicType_slice_num bytes_num slice_size =
     int64_div (bytes_num + slice_size - 1) slice_size"

text \<open>
  The body of its loop, lines 259-263, for the loop index \<open>i\<close>
  (\<open>0 \<le> i < slice_num\<close>, so \<open>i\<close> is a natural number below \<open>2 ^ 63\<close>):
  \<^verbatim>\<open>start = i * slice_size_; copy_size = slice_size_;
  if (start > bytes_num - slice_size_) copy_size = bytes_num - start;\<close>
\<close>

definition SendBasicType_slice :: "int64 \<Rightarrow> int64 \<Rightarrow> nat \<Rightarrow> int64 \<times> int64" where
  "SendBasicType_slice bytes_num slice_size i =
     (let start = of_nat i * slice_size;
          copy_size = slice_size
      in if sint (bytes_num - slice_size) < sint start then (start, bytes_num - start)
         else (start, copy_size))"

text \<open>\<^verbatim>\<open>SliceRecvOp::RecvBasicType\<close>, line 532 and lines 536-540: the same computation
  from the \<^verbatim>\<open>total_bytes\<close> that was received.\<close>

definition RecvBasicType_slice_num :: "int64 \<Rightarrow> int64 \<Rightarrow> error + int64" where
  "RecvBasicType_slice_num total_bytes slice_size =
     int64_div (total_bytes + slice_size - 1) slice_size"

definition RecvBasicType_slice :: "int64 \<Rightarrow> int64 \<Rightarrow> nat \<Rightarrow> int64 \<times> int64" where
  "RecvBasicType_slice total_bytes slice_size i =
     (let start = of_nat i * slice_size;
          copy_size = slice_size
      in if sint (total_bytes - slice_size) < sint start then (start, total_bytes - start)
         else (start, copy_size))"

text \<open>
  \<^verbatim>\<open>SliceSendOp::SendStringSlice\<close>, line 221: the sum and the division are done in
  \<^verbatim>\<open>size_t\<close> (the type of \<^verbatim>\<open>elem.size()\<close>), the quotient is stored in an
  \<^verbatim>\<open>int64\<close>.
\<close>

definition SendStringSlice_slice_num :: "size_t \<Rightarrow> int64 \<Rightarrow> error + int64" where
  "SendStringSlice_slice_num elem_size slice_size =
     size_t_div (elem_size + slice_size - 1) slice_size"

text \<open>
  Lines 225-229: \<^verbatim>\<open>size_t start = i * slice_size_; size_t copy_size = slice_size_;
  if (start > elem.size() - slice_size_) copy_size = elem.size() - start;\<close>
  The comparison and the subtractions are unsigned.
\<close>

definition SendStringSlice_slice :: "size_t \<Rightarrow> int64 \<Rightarrow> nat \<Rightarrow> size_t \<times> size_t" where
  "SendStringSlice_slice elem_size slice_size i =
     (let start = of_nat i * slice_size;
          copy_size = slice_size
      in if elem_size - slice_size < start then (start, elem_size - start)
         else (start, copy_size))"

text \<open>\<^verbatim>\<open>SliceRecvOp::RecvStringSlice\<close>, line 494, in \<^verbatim>\<open>int64\<close>.\<close>

definition RecvStringSlice_slice_num :: "int64 \<Rightarrow> int64 \<Rightarrow> error + int64" where
  "RecvStringSlice_slice_num element_size slice_size =
     int64_div (element_size + slice_size - 1) slice_size"

text \<open>The slices a loop \<^verbatim>\<open>for (int64 i = 0; i < slice_num; i++)\<close> goes through.\<close>

definition loop_indices :: "int64 \<Rightarrow> nat list" where
  "loop_indices slice_num = [0 ..< nat (sint slice_num)]"


section \<open>Rendering numbers in keys\<close>

text \<open>
  \<^verbatim>\<open>std::to_string\<close> on an \<^verbatim>\<open>int64\<close> and \<^verbatim>\<open>strings::StrAppend\<close> on the
  \<^verbatim>\<open>uint64\<close> frame id and the \<^verbatim>\<open>int64\<close> iteration id write the number in
  decimal, with a leading minus sign for a negative value.
\<close>

definition digit_char :: "nat \<Rightarrow> char" where
  "digit_char d = ''0123456789'' ! d"

function decimal :: "nat \<Rightarrow> string" where
  "decimal n = (if n < 10 then [digit_char n] else decimal (n div 10) @ [digit_char (n mod 10)])"
  by pat_completeness auto
termination
  by (relation "measure (\<lambda>n. n)") auto

declare decimal.simps [simp del]

definition uint64_to_string :: "64 word \<Rightarrow> string" where
  "uint64_to_string w = decimal (unat w)"

definition int64_to_string :: "int64 \<Rightarrow> string" where
  "int64_to_string w =
     (if sint w < 0 then CHR ''-'' # decimal (nat (- sint w)) else decimal (nat (sint w)))"

text \<open>
  Modelled from the spec: \<^verbatim>\<open>strings::FpToString\<close> (tensorflow/core/lib/strings, not
  among the sources). Section 6 of the specification gives the key's second field as
  \<^verbatim>\<open><source_incarnation_decimal>\<close>.
\<close>

definition FpToString :: "64 word \<Rightarrow> string" where
  "FpToString fp = uint64_to_string fp"

section \<open>Rendezvous keys\<close>

text \<open>\<^verbatim>\<open>FrameAndIter\<close>: \<^verbatim>\<open>uint64 frame_id; int64 iter_id\<close>.\<close>

record FrameAndIter =
  frame_id :: "64 word"
  iter_id :: int64

definition GetSliceRendezvousKeyPrefix :: "string \<Rightarrow> string \<Rightarrow> 64 word \<Rightarrow> string \<Rightarrow> string" where
  "GetSliceRendezvousKeyPrefix send_device recv_device send_device_incarnation tensor_name =
     send_device @ '';'' @ FpToString send_device_incarnation @ '';'' @
     recv_device @ '';'' @ tensor_name"

definition GetSliceRendezvousKey :: "string \<Rightarrow> string \<Rightarrow> FrameAndIter \<Rightarrow> string" where
  "GetSliceRendezvousKey key_prefix tensor_name_suffix frame_iter =
     key_prefix @ tensor_name_suffix @ '';'' @
     uint64_to_string (frame_id frame_iter) @ '':'' @ int64_to_string (iter_id frame_iter)"

text \<open>
  The phases of one transfer and the suffix each one appends to the tensor name, as the
  kernels write them: the two data phases carry the element (or slice) index and, for a
  string element that is itself sliced, the index of the sub-slice.
\<close>

datatype phase =
    TransferData
  | TotalBytesPhase
  | ShapePhase
  | ElementsSizePhase
  | DataPhase int64
  | DataSlicePhase int64 int64

fun phase_suffix :: "phase \<Rightarrow> string" where
  "phase_suffix TransferData = ''_transfer_data''"
| "phase_suffix TotalBytesPhase = ''_slice_transfer_totalbytes''"
| "phase_suffix ShapePhase = ''_slice_transfer_shape''"
| "phase_suffix ElementsSizePhase = ''_slice_transfer_elements_size''"
| "phase_suffix (DataPhase i) = ''_slice_transfer_data_'' @ int64_to_string i"
| "phase_suffix (DataSlicePhase index i) =
     ''_slice_transfer_data_'' @ int64_to_string index @ ''_'' @ int64_to_string i"

section \<open>Tensors\<close>

text \<open>
  A tensor is its element type, its shape and its buffer. The buffer of a string tensor
  is the list of its elements (\<^verbatim>\<open>flat<tstring>()\<close>); every other buffer is the
  bytes that \<^verbatim>\<open>data()\<close> points to. An \<^verbatim>\<open>int64\<close> element occupies eight bytes,
  least significant first.
\<close>

datatype DataType =
    DT_FLOAT | DT_DOUBLE | DT_INT32 | DT_UINT8 | DT_INT8 | DT_INT64 | DT_BOOL | DT_STRING

datatype buffer = Bytes "byte list" | Strings "string list"

record tensor =
  dtype :: DataType
  shape :: "nat list"
  buf :: buffer

fun DataTypeSize :: "DataType \<Rightarrow> nat" where
  "DataTypeSize DT_FLOAT = 4"
| "DataTypeSize DT_DOUBLE = 8"
| "DataTypeSize DT_INT32 = 4"
| "DataTypeSize DT_UINT8 = 1"
| "DataTypeSize DT_INT8 = 1"
| "DataTypeSize DT_INT64 = 8"
| "DataTypeSize DT_BOOL = 1"
| "DataTypeSize DT_STRING = 0"

definition NumElements :: "tensor \<Rightarrow> nat" where
  "NumElements t = prod_list (shape t)"

fun nat_bytes :: "nat \<Rightarrow> nat \<Rightarrow> byte list" where
  "nat_bytes 0 x = []"
| "nat_bytes (Suc n) x = of_nat (x mod 256) # nat_bytes n (x div 256)"

fun bytes_nat :: "byte list \<Rightarrow> nat" where
  "bytes_nat [] = 0"
| "bytes_nat (b # bs) = unat b + 256 * bytes_nat bs"

definition int64_bytes :: "int64 \<Rightarrow> byte list" where
  "int64_bytes w = nat_bytes 8 (unat w)"

definition bytes_int64 :: "byte list \<Rightarrow> int64" where
  "bytes_int64 bs = of_nat (bytes_nat bs)"

fun int64_elements :: "byte list \<Rightarrow> int64 list" where
  "int64_elements (b0 # b1 # b2 # b3 # b4 # b5 # b6 # b7 # bs) =
     bytes_int64 [b0, b1, b2, b3, b4, b5, b6, b7] # int64_elements bs"
| "int64_elements bs = []"


text \<open>
  \<^verbatim>\<open>Tensor::TotalBytes\<close> (tensor.cc, not among the sources): the size of the buffer;
  for a string tensor the element objects plus the characters of every element. The size
  of one element object, \<^verbatim>\<open>sizeof(tstring)\<close>, is a parameter.
\<close>

definition TotalBytes :: "nat \<Rightarrow> tensor \<Rightarrow> size_t" where
  "TotalBytes sizeof_tstring t =
     (case buf t of
        Bytes bs \<Rightarrow> of_nat (length bs)
      | Strings xs \<Rightarrow>
          if NumElements t = 0 then 0
          else of_nat (sizeof_tstring * length xs + sum_list (map length xs)))"

text \<open>
  The typed accessors. Each one \<^verbatim>\<open>CHECK\<close>s the element type, and
  \<^verbatim>\<open>scalar\<close> and \<^verbatim>\<open>vec\<close> the number of dimensions, before the buffer is read.
\<close>

definition scalar_int64 :: "tensor \<Rightarrow> error + int64" where
  "scalar_int64 t =
     (case buf t of
        Bytes bs \<Rightarrow>
          if dtype t = DT_INT64 \<and> shape t = [] \<and> length bs = 8 then Inr (bytes_int64 bs)
          else Inl CheckFailed
      | Strings xs \<Rightarrow> Inl CheckFailed)"

definition vec_int64 :: "tensor \<Rightarrow> error + int64 list" where
  "vec_int64 t =
     (case buf t of
        Bytes bs \<Rightarrow>
          if dtype t = DT_INT64 \<and> length (shape t) = 1 \<and> length bs = 8 * NumElements t
          then Inr (int64_elements bs)
          else Inl CheckFailed
      | Strings xs \<Rightarrow> Inl CheckFailed)"

definition flat_int64 :: "tensor \<Rightarrow> error + int64 list" where
  "flat_int64 t =
     (case buf t of
        Bytes bs \<Rightarrow>
          if dtype t = DT_INT64 \<and> length bs = 8 * NumElements t then Inr (int64_elements bs)
          else Inl CheckFailed
      | Strings xs \<Rightarrow> Inl CheckFailed)"

definition scalar_tstring :: "tensor \<Rightarrow> error + string" where
  "scalar_tstring t =
     (case buf t of
        Strings xs \<Rightarrow>
          (case xs of
             [x] \<Rightarrow> if dtype t = DT_STRING \<and> shape t = [] then Inr x else Inl CheckFailed
           | _ \<Rightarrow> Inl CheckFailed)
      | Bytes bs \<Rightarrow> Inl CheckFailed)"

definition flat_tstring :: "tensor \<Rightarrow> error + string list" where
  "flat_tstring t =
     (case buf t of
        Strings xs \<Rightarrow>
          if dtype t = DT_STRING \<and> length xs = NumElements t then Inr xs else Inl CheckFailed
      | Bytes bs \<Rightarrow> Inl CheckFailed)"

text \<open>
  \<^verbatim>\<open>data()\<close>, read as raw bytes. The element objects of a string tensor are not
  bytes of the model; reading them this way is an invalid access.
\<close>

definition data :: "tensor \<Rightarrow> error + byte list" where
  "data t = (case buf t of Bytes bs \<Rightarrow> Inr bs | Strings xs \<Rightarrow> Inl OutOfRange)"

text \<open>The tensors the kernels build themselves.\<close>

definition int64_scalar_tensor :: "int64 \<Rightarrow> tensor" where
  "int64_scalar_tensor v = \<lparr>dtype = DT_INT64, shape = [], buf = Bytes (int64_bytes v)\<rparr>"

definition int64_tensor :: "nat list \<Rightarrow> int64 list \<Rightarrow> tensor" where
  "int64_tensor dims vs = \<lparr>dtype = DT_INT64, shape = dims, buf = Bytes (concat (map int64_bytes vs))\<rparr>"

definition tstring_scalar_tensor :: "string \<Rightarrow> tensor" where
  "tstring_scalar_tensor x = \<lparr>dtype = DT_STRING, shape = [], buf = Strings [x]\<rparr>"

definition int8_tensor :: "byte list \<Rightarrow> tensor" where
  "int8_tensor bs = \<lparr>dtype = DT_INT8, shape = [length bs], buf = Bytes bs\<rparr>"

text \<open>
  \<^verbatim>\<open>allocate_output(0, shape, &output_t)\<close>: a tensor of the kernel's element type;
  string elements start empty, other memory is not initialised (zero here; the receiver
  overwrites it).
\<close>

definition allocate_output :: "DataType \<Rightarrow> nat list \<Rightarrow> tensor" where
  "allocate_output dt dims =
     \<lparr>dtype = dt, shape = dims,
      buf = (if dt = DT_STRING then Strings (replicate (prod_list dims) [])
             else Bytes (replicate (prod_list dims * DataTypeSize dt) 0))\<rparr>"

section \<open>The rendezvous\<close>

text \<open>
  Modelled from the spec: \<^verbatim>\<open>Rendezvous::Send\<close> and \<^verbatim>\<open>Rendezvous::Recv\<close> are
  declared in \<^verbatim>\<open>rendezvous.h\<close>; no implementation is among the sources. Section 4.2
  of the specification and the comments of the header give the contract: a table of
  channels keyed by the full key; \<^verbatim>\<open>Send\<close> deposits a message (a tensor and
  \<^verbatim>\<open>is_dead\<close>) and fails only when the table was aborted; the consumer receives the
  messages of a channel in the order they were sent; \<^verbatim>\<open>Recv\<close> waits until its
  timeout when nothing has been deposited. The kernels run one after the other here, so
  a \<^verbatim>\<open>Recv\<close> on an empty channel never gets a message and ends in
  \<^verbatim>\<open>DeadlineExceeded\<close>. The \<^verbatim>\<open>Args\<close> (device context, allocator attributes,
  cancellation manager) are opaque to the protocol and left out.
\<close>

record rendezvous =
  table :: "string \<Rightarrow> (tensor \<times> bool) list"
  aborted :: "error option"

definition Send :: "rendezvous \<Rightarrow> string \<Rightarrow> tensor \<Rightarrow> bool \<Rightarrow> error + rendezvous" where
  "Send r key val is_dead =
     (case aborted r of
        Some status \<Rightarrow> Inl status
      | None \<Rightarrow> Inr (r\<lparr>table := (table r)(key := table r key @ [(val, is_dead)])\<rparr>))"

definition Recv :: "rendezvous \<Rightarrow> string \<Rightarrow> error + ((tensor \<times> bool) \<times> rendezvous)" where
  "Recv r key =
     (case aborted r of
        Some status \<Rightarrow> Inl status
      | None \<Rightarrow>
          (case table r key of
             [] \<Rightarrow> Inl DeadlineExceeded
           | m # ms \<Rightarrow> Inr (m, r\<lparr>table := (table r)(key := ms)\<rparr>)))"

text \<open>
  What the kernels take from their surroundings and the sources do not define:
  \<^verbatim>\<open>sizeof(tstring)\<close>, and \<^verbatim>\<open>Rendezvous::ParseKey\<close> (declared in
  \<^verbatim>\<open>rendezvous.h\<close>), of which only the keys it accepts matter. A rejected key is
  an \<^verbatim>\<open>InvalidArgument\<close> status.
\<close>

record platform =
  sizeof_tstring :: nat
  key_accepted :: "string \<Rightarrow> bool"

definition ParseKey :: "platform \<Rightarrow> string \<Rightarrow> error + unit" where
  "ParseKey p key = (if key_accepted p key then Inr () else Inl InvalidArgument)"

text \<open>\<^verbatim>\<open>TF_RETURN_IF_ERROR\<close> and \<^verbatim>\<open>OP_REQUIRES_OK\<close>: stop at the first failure.\<close>

definition TF_RETURN_IF_ERROR :: "error + 'a \<Rightarrow> ('a \<Rightarrow> error + 'b) \<Rightarrow> error + 'b" where
  "TF_RETURN_IF_ERROR x f = (case x of Inl e \<Rightarrow> Inl e | Inr v \<Rightarrow> f v)"

text \<open>\<^verbatim>\<open>CHECK_EQ(is_dead, false)\<close>: the process is aborted when it fails.\<close>

definition CHECK_not_dead :: "bool \<Rightarrow> error + unit" where
  "CHECK_not_dead is_dead = (if is_dead then Inl CheckFailed else Inr ())"

text \<open>A loop \<^verbatim>\<open>for (i = 0; i < n; i++)\<close> whose body may fail, over the state it updates.\<close>

fun for_loop :: "nat list \<Rightarrow> (nat \<Rightarrow> 's \<Rightarrow> error + 's) \<Rightarrow> 's \<Rightarrow> error + 's" where
  "for_loop [] body s = Inr s"
| "for_loop (i # rest) body s =
     (case body i s of Inl e \<Rightarrow> Inl e | Inr s' \<Rightarrow> for_loop rest body s')"


section \<open>The kernels\<close>

text \<open>
  The members of \<^verbatim>\<open>SliceSendOp\<close> and \<^verbatim>\<open>SliceRecvOp\<close>, set by their constructors
  from the node's attributes, and the part of \<^verbatim>\<open>OpKernelContext\<close> that
  \<^verbatim>\<open>Compute\<close> reads: the rendezvous (possibly null), the call frame (possibly
  null, otherwise its address), the frame and iteration, and for the sender the input
  and whether it is dead.
\<close>

record SliceSendOp =
  op_key_prefix :: string
  op_hostmem_sendrecv :: bool
  op_slice_size :: int64
  op_dtype :: DataType

record SliceRecvOp = SliceSendOp +
  op_timeout_ms :: int64

record OpKernelContext =
  ctx_rendezvous :: "rendezvous option"
  call_frame :: "64 word option"
  ctx_frame_iter :: FrameAndIter
  ctx_input :: tensor
  is_input_dead :: bool

definition SliceSendOp_init ::
  "string \<Rightarrow> string \<Rightarrow> 64 word \<Rightarrow> string \<Rightarrow> bool \<Rightarrow> int64 \<Rightarrow> DataType \<Rightarrow> SliceSendOp" where
  "SliceSendOp_init send_device recv_device send_device_incarnation tensor_name
     hostmem_sendrecv slice_size T =
     \<lparr>op_key_prefix = GetSliceRendezvousKeyPrefix send_device recv_device
                       send_device_incarnation tensor_name,
      op_hostmem_sendrecv = hostmem_sendrecv,
      op_slice_size = slice_size,
      op_dtype = T\<rparr>"

definition SliceRecvOp_init ::
  "string \<Rightarrow> string \<Rightarrow> 64 word \<Rightarrow> string \<Rightarrow> bool \<Rightarrow> int64 \<Rightarrow> DataType \<Rightarrow> int64 \<Rightarrow> SliceRecvOp" where
  "SliceRecvOp_init send_device recv_device send_device_incarnation tensor_name
     hostmem_sendrecv slice_size tensor_type timeout_ms =
     \<lparr>op_key_prefix = GetSliceRendezvousKeyPrefix send_device recv_device
                       send_device_incarnation tensor_name,
      op_hostmem_sendrecv = hostmem_sendrecv,
      op_slice_size = slice_size,
      op_dtype = tensor_type,
      op_timeout_ms = timeout_ms\<rparr>"

definition GetFrameAndIter :: "OpKernelContext \<Rightarrow> bool \<Rightarrow> FrameAndIter" where
  "GetFrameAndIter ctx hostmem_sendrecv =
     (case call_frame ctx of
        Some address \<Rightarrow>
          if hostmem_sendrecv then \<lparr>frame_id = address, iter_id = 0\<rparr>
          else ctx_frame_iter ctx
      | None \<Rightarrow> ctx_frame_iter ctx)"

subsection \<open>SliceSendOp\<close>

text \<open>Parse the key, then send under it: the last three statements of every send.\<close>

definition send_under :: "platform \<Rightarrow> rendezvous \<Rightarrow> string \<Rightarrow> tensor \<Rightarrow> bool \<Rightarrow> error + rendezvous" where
  "send_under p r key val is_dead =
     TF_RETURN_IF_ERROR (ParseKey p key) (\<lambda>_. Send r key val is_dead)"

definition SendTotalBytes ::
  "platform \<Rightarrow> ('a SliceSendOp_scheme) \<Rightarrow> OpKernelContext \<Rightarrow> FrameAndIter \<Rightarrow> tensor \<Rightarrow>
   rendezvous \<Rightarrow> error + rendezvous" where
  "SendTotalBytes p op ctx frame_iter input_t r =
     (let total_bytes_t = int64_scalar_tensor (TotalBytes (sizeof_tstring p) input_t);
          key = GetSliceRendezvousKey (op_key_prefix op) ''_slice_transfer_totalbytes'' frame_iter
      in send_under p r key total_bytes_t (is_input_dead ctx))"

definition SendShape ::
  "platform \<Rightarrow> ('a SliceSendOp_scheme) \<Rightarrow> OpKernelContext \<Rightarrow> FrameAndIter \<Rightarrow> tensor \<Rightarrow>
   rendezvous \<Rightarrow> error + rendezvous" where
  "SendShape p op ctx frame_iter input_t r =
     (let rank = length (shape input_t);
          shape_t = int64_tensor [rank] (map of_nat (shape input_t));
          key = GetSliceRendezvousKey (op_key_prefix op) ''_slice_transfer_shape'' frame_iter
      in send_under p r key shape_t (is_input_dead ctx))"

text \<open>\<^verbatim>\<open>elem.substr(start, copy_size)\<close>: throws when \<open>start\<close> is past the end.\<close>

definition substr :: "string \<Rightarrow> size_t \<Rightarrow> size_t \<Rightarrow> error + string" where
  "substr elem start copy_size =
     (if length elem < unat start then Inl OutOfRange
      else Inr (take (unat copy_size) (drop (unat start) elem)))"

definition SendStringSlice ::
  "platform \<Rightarrow> ('a SliceSendOp_scheme) \<Rightarrow> OpKernelContext \<Rightarrow> FrameAndIter \<Rightarrow> string \<Rightarrow> int64 \<Rightarrow>
   rendezvous \<Rightarrow> error + rendezvous" where
  "SendStringSlice p op ctx frame_iter elem index r =
     TF_RETURN_IF_ERROR (SendStringSlice_slice_num (of_nat (length elem)) (op_slice_size op))
       (\<lambda>slice_num.
          for_loop (loop_indices slice_num)
            (\<lambda>i r.
               let (start, copy_size) =
                     SendStringSlice_slice (of_nat (length elem)) (op_slice_size op) i
               in TF_RETURN_IF_ERROR (substr elem start copy_size)
                    (\<lambda>piece.
                       let data_t = tstring_scalar_tensor piece;
                           tensor_name_suffix =
                             ''_slice_transfer_data_'' @ int64_to_string index @ ''_'' @
                             int64_to_string (of_nat i);
                           key = GetSliceRendezvousKey (op_key_prefix op) tensor_name_suffix
                                   frame_iter
                       in send_under p r key data_t (is_input_dead ctx)))
            r)"

text \<open>\<^verbatim>\<open>input_flat(i)\<close>: an index past the buffer is an invalid access.\<close>

definition element_at :: "'a list \<Rightarrow> nat \<Rightarrow> error + 'a" where
  "element_at xs i = (if i < length xs then Inr (xs ! i) else Inl OutOfRange)"

definition SendString ::
  "platform \<Rightarrow> ('a SliceSendOp_scheme) \<Rightarrow> OpKernelContext \<Rightarrow> FrameAndIter \<Rightarrow> tensor \<Rightarrow>
   rendezvous \<Rightarrow> error + rendezvous" where
  "SendString p op ctx frame_iter input_t r =
     (let num_elements = (of_nat (NumElements input_t) :: int64)
      in TF_RETURN_IF_ERROR (flat_tstring input_t)
           (\<lambda>input_flat.
              let elements_size_t =
                    int64_tensor (shape input_t)
                      (map (\<lambda>i. of_nat (length (input_flat ! i)))
                         (loop_indices num_elements));
                  key = GetSliceRendezvousKey (op_key_prefix op)
                          ''_slice_transfer_elements_size'' frame_iter
              in TF_RETURN_IF_ERROR (send_under p r key elements_size_t (is_input_dead ctx))
                   (\<lambda>r.
                      for_loop (loop_indices num_elements)
                        (\<lambda>i r.
                           TF_RETURN_IF_ERROR (element_at input_flat i)
                             (\<lambda>elem.
                                if (of_nat (length elem) :: size_t) \<le> op_slice_size op
                                then
                                  let data_t = tstring_scalar_tensor elem;
                                      tensor_name_suffix =
                                        ''_slice_transfer_data_'' @ int64_to_string (of_nat i);
                                      key = GetSliceRendezvousKey (op_key_prefix op)
                                              tensor_name_suffix frame_iter
                                  in send_under p r key data_t (is_input_dead ctx)
                                else SendStringSlice p op ctx frame_iter elem (of_nat i) r))
                        r)))"


text \<open>
  \<^verbatim>\<open>memcpy(data_base, input_base + start, copy_size)\<close>: the bytes read must lie in
  the input buffer.
\<close>

definition read_bytes :: "byte list \<Rightarrow> int64 \<Rightarrow> int64 \<Rightarrow> error + byte list" where
  "read_bytes base start copy_size =
     (if sint start < 0 \<or> sint copy_size < 0 \<or>
         length base < nat (sint start) + nat (sint copy_size)
      then Inl OutOfRange
      else Inr (take (nat (sint copy_size)) (drop (nat (sint start)) base)))"

text \<open>
  \<^verbatim>\<open>SendBasicType\<close>. \<^verbatim>\<open>TensorShape({copy_size})\<close> \<^verbatim>\<open>CHECK\<close>s that the
  dimension is not negative.
\<close>

definition SendBasicType ::
  "platform \<Rightarrow> ('a SliceSendOp_scheme) \<Rightarrow> OpKernelContext \<Rightarrow> FrameAndIter \<Rightarrow> tensor \<Rightarrow>
   rendezvous \<Rightarrow> error + rendezvous" where
  "SendBasicType p op ctx frame_iter input_t r =
     (let bytes_num = TotalBytes (sizeof_tstring p) input_t
      in TF_RETURN_IF_ERROR (SendBasicType_slice_num bytes_num (op_slice_size op))
           (\<lambda>slice_num.
              TF_RETURN_IF_ERROR (data input_t)
                (\<lambda>input_base.
                   for_loop (loop_indices slice_num)
                     (\<lambda>i r.
                        let (start, copy_size) =
                              SendBasicType_slice bytes_num (op_slice_size op) i
                        in if sint copy_size < 0 then Inl CheckFailed
                           else
                             TF_RETURN_IF_ERROR (read_bytes input_base start copy_size)
                               (\<lambda>copied.
                                  let data_t = int8_tensor copied;
                                      tensor_name_suffix =
                                        ''_slice_transfer_data_'' @ int64_to_string (of_nat i);
                                      key = GetSliceRendezvousKey (op_key_prefix op)
                                              tensor_name_suffix frame_iter
                                  in send_under p r key data_t (is_input_dead ctx)))
                     r)))"

text \<open>
  \<^verbatim>\<open>SliceSendOp::Compute\<close>. The comparison of \<^verbatim>\<open>input_t.TotalBytes()\<close> with
  \<^verbatim>\<open>slice_size_\<close> is unsigned.
\<close>

definition SliceSendOp_Compute ::
  "platform \<Rightarrow> ('a SliceSendOp_scheme) \<Rightarrow> OpKernelContext \<Rightarrow> error + rendezvous" where
  "SliceSendOp_Compute p op ctx =
     (case ctx_rendezvous ctx of
        None \<Rightarrow> Inl Internal
      | Some r \<Rightarrow>
          let input_t = ctx_input ctx;
              frame_iter = GetFrameAndIter ctx (op_hostmem_sendrecv op)
          in TF_RETURN_IF_ERROR (SendTotalBytes p op ctx frame_iter input_t r)
               (\<lambda>r.
                  if is_input_dead ctx then Inr r
                  else if TotalBytes (sizeof_tstring p) input_t \<le> op_slice_size op
                  then
                    send_under p r
                      (GetSliceRendezvousKey (op_key_prefix op) ''_transfer_data'' frame_iter)
                      input_t (is_input_dead ctx)
                  else
                    TF_RETURN_IF_ERROR (SendShape p op ctx frame_iter input_t r)
                      (\<lambda>r.
                         if op_dtype op = DT_STRING
                         then SendString p op ctx frame_iter input_t r
                         else SendBasicType p op ctx frame_iter input_t r)))"

subsection \<open>SliceRecvOp\<close>

text \<open>Parse the key, then receive under it.\<close>

definition recv_under ::
  "platform \<Rightarrow> rendezvous \<Rightarrow> string \<Rightarrow> error + ((tensor \<times> bool) \<times> rendezvous)" where
  "recv_under p r key = TF_RETURN_IF_ERROR (ParseKey p key) (\<lambda>_. Recv r key)"

text \<open>
  Every receive after the first one is followed by \<^verbatim>\<open>CHECK_EQ(is_dead, false)\<close>.
\<close>

definition recv_live :: "platform \<Rightarrow> rendezvous \<Rightarrow> string \<Rightarrow> error + (tensor \<times> rendezvous)" where
  "recv_live p r key =
     TF_RETURN_IF_ERROR (recv_under p r key)
       (\<lambda>((val, is_dead), r).
          TF_RETURN_IF_ERROR (CHECK_not_dead is_dead) (\<lambda>_. Inr (val, r)))"

text \<open>
  \<^verbatim>\<open>RecvTotalBytes\<close>: \<^verbatim>\<open>total_bytes\<close> is assigned only when the message is not
  dead (it is 0 here otherwise; \<^verbatim>\<open>Compute\<close> does not read it then).
\<close>

definition RecvTotalBytes ::
  "platform \<Rightarrow> SliceRecvOp \<Rightarrow> FrameAndIter \<Rightarrow> rendezvous \<Rightarrow>
   error + ((bool \<times> int64) \<times> rendezvous)" where
  "RecvTotalBytes p op frame_iter r =
     (let key = GetSliceRendezvousKey (op_key_prefix op) ''_slice_transfer_totalbytes'' frame_iter
      in TF_RETURN_IF_ERROR (recv_under p r key)
           (\<lambda>((total_bytes_t, is_dead), r).
              if \<not> is_dead
              then TF_RETURN_IF_ERROR (scalar_int64 total_bytes_t)
                     (\<lambda>total_bytes. Inr ((is_dead, total_bytes), r))
              else Inr ((is_dead, 0), r)))"

text \<open>
  \<^verbatim>\<open>shape.AddDim(d)\<close> \<^verbatim>\<open>CHECK\<close>s that \<open>d\<close> is not negative and that the number
  of elements still fits an \<^verbatim>\<open>int64\<close>.
\<close>

definition AddDim :: "nat list \<Rightarrow> int64 \<Rightarrow> error + nat list" where
  "AddDim dims d =
     (if sint d < 0 \<or> 2 ^ 63 \<le> prod_list dims * nat (sint d) then Inl CheckFailed
      else Inr (dims @ [nat (sint d)]))"

fun AddDims :: "nat list \<Rightarrow> int64 list \<Rightarrow> error + nat list" where
  "AddDims dims [] = Inr dims"
| "AddDims dims (d # ds) = TF_RETURN_IF_ERROR (AddDim dims d) (\<lambda>dims. AddDims dims ds)"

definition RecvShape ::
  "platform \<Rightarrow> SliceRecvOp \<Rightarrow> FrameAndIter \<Rightarrow> rendezvous \<Rightarrow> error + (nat list \<times> rendezvous)" where
  "RecvShape p op frame_iter r =
     (let key = GetSliceRendezvousKey (op_key_prefix op) ''_slice_transfer_shape'' frame_iter
      in TF_RETURN_IF_ERROR (recv_live p r key)
           (\<lambda>(shape_t, r).
              TF_RETURN_IF_ERROR (vec_int64 shape_t)
                (\<lambda>shape_vec.
                   TF_RETURN_IF_ERROR (AddDims [] shape_vec) (\<lambda>dims. Inr (dims, r)))))"


text \<open>\<^verbatim>\<open>output_flat(index)\<close> as the target of an assignment.\<close>

definition update_at :: "'a list \<Rightarrow> int64 \<Rightarrow> ('a \<Rightarrow> 'a) \<Rightarrow> error + 'a list" where
  "update_at xs index f =
     (if sint index < 0 \<or> length xs \<le> nat (sint index) then Inl OutOfRange
      else Inr (xs[nat (sint index) := f (xs ! nat (sint index))]))"

definition RecvStringSlice ::
  "platform \<Rightarrow> SliceRecvOp \<Rightarrow> FrameAndIter \<Rightarrow> int64 \<Rightarrow> int64 \<Rightarrow>
   string list \<times> rendezvous \<Rightarrow> error + (string list \<times> rendezvous)" where
  "RecvStringSlice p op frame_iter index element_size state =
     TF_RETURN_IF_ERROR (RecvStringSlice_slice_num element_size (op_slice_size op))
       (\<lambda>slice_num.
          for_loop (loop_indices slice_num)
            (\<lambda>i (output_flat, r).
               let tensor_name_suffix =
                     ''_slice_transfer_data_'' @ int64_to_string index @ ''_'' @
                     int64_to_string (of_nat i);
                   key = GetSliceRendezvousKey (op_key_prefix op) tensor_name_suffix frame_iter
               in TF_RETURN_IF_ERROR (recv_live p r key)
                    (\<lambda>(data_t, r).
                       TF_RETURN_IF_ERROR (scalar_tstring data_t)
                         (\<lambda>piece.
                            TF_RETURN_IF_ERROR
                              (update_at output_flat index (\<lambda>x. x @ piece))
                              (\<lambda>output_flat. Inr (output_flat, r)))))
            state)"

text \<open>
  \<^verbatim>\<open>RecvString\<close>. The comparison of \<^verbatim>\<open>elements_size_flat(i)\<close> with
  \<^verbatim>\<open>slice_size_\<close> is signed.
\<close>

definition RecvString ::
  "platform \<Rightarrow> SliceRecvOp \<Rightarrow> FrameAndIter \<Rightarrow> nat list \<Rightarrow> tensor \<Rightarrow> rendezvous \<Rightarrow>
   error + (tensor \<times> rendezvous)" where
  "RecvString p op frame_iter dims output_t r =
     (let key = GetSliceRendezvousKey (op_key_prefix op) ''_slice_transfer_elements_size''
                  frame_iter
      in TF_RETURN_IF_ERROR (recv_live p r key)
           (\<lambda>(elements_size_t, r).
              TF_RETURN_IF_ERROR (flat_int64 elements_size_t)
                (\<lambda>elements_size_flat.
                   let num_elements = (of_nat (prod_list dims) :: int64)
                   in TF_RETURN_IF_ERROR (flat_tstring output_t)
                        (\<lambda>output_flat.
                           TF_RETURN_IF_ERROR
                             (for_loop (loop_indices num_elements)
                                (\<lambda>i (output_flat, r).
                                   TF_RETURN_IF_ERROR (element_at elements_size_flat i)
                                     (\<lambda>element_size.
                                        if sint element_size \<le> sint (op_slice_size op)
                                        then
                                          let tensor_name_suffix =
                                                ''_slice_transfer_data_'' @
                                                int64_to_string (of_nat i);
                                              key = GetSliceRendezvousKey (op_key_prefix op)
                                                      tensor_name_suffix frame_iter
                                          in TF_RETURN_IF_ERROR (recv_live p r key)
                                               (\<lambda>(data_t, r).
                                                  TF_RETURN_IF_ERROR (scalar_tstring data_t)
                                                    (\<lambda>x.
                                                       TF_RETURN_IF_ERROR
                                                         (update_at output_flat (of_nat i)
                                                            (\<lambda>_. x))
                                                         (\<lambda>output_flat.
                                                            Inr (output_flat, r))))
                                        else RecvStringSlice p op frame_iter (of_nat i)
                                               element_size (output_flat, r)))
                                (output_flat, r))
                             (\<lambda>(output_flat, r).
                                Inr (output_t\<lparr>buf := Strings output_flat\<rparr>, r))))))"

text \<open>
  \<^verbatim>\<open>memcpy(output_base + start, data_base, copy_size)\<close>: the bytes written must lie
  in the output buffer, the bytes read in the received one.
\<close>

definition write_bytes :: "byte list \<Rightarrow> int64 \<Rightarrow> byte list \<Rightarrow> int64 \<Rightarrow> error + byte list" where
  "write_bytes output_base start data_base copy_size =
     (if sint start < 0 \<or> sint copy_size < 0 \<or>
         length output_base < nat (sint start) + nat (sint copy_size) \<or>
         length data_base < nat (sint copy_size)
      then Inl OutOfRange
      else Inr (take (nat (sint start)) output_base @
                take (nat (sint copy_size)) data_base @
                drop (nat (sint start) + nat (sint copy_size)) output_base))"

definition RecvBasicType ::
  "platform \<Rightarrow> SliceRecvOp \<Rightarrow> FrameAndIter \<Rightarrow> int64 \<Rightarrow> tensor \<Rightarrow> rendezvous \<Rightarrow>
   error + (tensor \<times> rendezvous)" where
  "RecvBasicType p op frame_iter total_bytes output_t r =
     TF_RETURN_IF_ERROR (RecvBasicType_slice_num total_bytes (op_slice_size op))
       (\<lambda>slice_num.
          TF_RETURN_IF_ERROR (data output_t)
            (\<lambda>output_base.
               TF_RETURN_IF_ERROR
                 (for_loop (loop_indices slice_num)
                    (\<lambda>i (output_base, r).
                       let (start, copy_size) =
                             RecvBasicType_slice total_bytes (op_slice_size op) i;
                           tensor_name_suffix =
                             ''_slice_transfer_data_'' @ int64_to_string (of_nat i);
                           key = GetSliceRendezvousKey (op_key_prefix op) tensor_name_suffix
                                   frame_iter
                       in TF_RETURN_IF_ERROR (recv_live p r key)
                            (\<lambda>(data_t, r).
                               TF_RETURN_IF_ERROR (data data_t)
                                 (\<lambda>data_base.
                                    TF_RETURN_IF_ERROR
                                      (write_bytes output_base start data_base copy_size)
                                      (\<lambda>output_base. Inr (output_base, r)))))
                    (output_base, r))
                 (\<lambda>(output_base, r). Inr (output_t\<lparr>buf := Bytes output_base\<rparr>, r))))"

text \<open>
  \<^verbatim>\<open>SliceRecvOp::Compute\<close>: the output that was set, if any, and the rendezvous
  afterwards. The comparison of \<^verbatim>\<open>total_bytes\<close> with \<^verbatim>\<open>slice_size_\<close> is
  signed.
\<close>

definition SliceRecvOp_Compute ::
  "platform \<Rightarrow> SliceRecvOp \<Rightarrow> OpKernelContext \<Rightarrow> error + (tensor option \<times> rendezvous)" where
  "SliceRecvOp_Compute p op ctx =
     (case ctx_rendezvous ctx of
        None \<Rightarrow> Inl Internal
      | Some r \<Rightarrow>
          let frame_iter = GetFrameAndIter ctx (op_hostmem_sendrecv op)
          in TF_RETURN_IF_ERROR (RecvTotalBytes p op frame_iter r)
               (\<lambda>((is_dead, total_bytes), r).
                  if is_dead then Inr (None, r)
                  else if sint total_bytes \<le> sint (op_slice_size op)
                  then
                    TF_RETURN_IF_ERROR
                      (recv_live p r
                         (GetSliceRendezvousKey (op_key_prefix op) ''_transfer_data''
                            frame_iter))
                      (\<lambda>(data_t, r). Inr (Some data_t, r))
                  else
                    TF_RETURN_IF_ERROR (RecvShape p op frame_iter r)
                      (\<lambda>(dims, r).
                         let output_t = allocate_output (op_dtype op) dims
                         in if op_dtype op = DT_STRING
                            then TF_RETURN_IF_ERROR (RecvString p op frame_iter dims output_t r)
                                   (\<lambda>(output_t, r). Inr (Some output_t, r))
                            else TF_RETURN_IF_ERROR
                                   (RecvBasicType p op frame_iter total_bytes output_t r)
                                   (\<lambda>(output_t, r). Inr (Some output_t, r)))))"

section \<open>Well-formed inputs\<close>

text \<open>
  A tensor the framework can hand to the sender: its buffer has the size its type and
  shape give, the number of elements fits an \<^verbatim>\<open>int64\<close>, and the whole of it is
  below \<open>2 ^ 62\<close> bytes.
\<close>

definition valid_tensor :: "nat \<Rightarrow> tensor \<Rightarrow> bool" where
  "valid_tensor tsize t \<longleftrightarrow>
     NumElements t < 2 ^ 63 \<and>
     (case buf t of
        Bytes bs \<Rightarrow>
          dtype t \<noteq> DT_STRING \<and> length bs = NumElements t * DataTypeSize (dtype t) \<and>
          length bs < 2 ^ 62
      | Strings xs \<Rightarrow>
          dtype t = DT_STRING \<and> length xs = NumElements t \<and>
          tsize * length xs + sum_list (map length xs) < 2 ^ 62)"

text \<open>The keys of one transfer instance: one per phase.\<close>

definition phase_key :: "string \<Rightarrow> FrameAndIter \<Rightarrow> phase \<Rightarrow> string" where
  "phase_key key_prefix frame_iter ph =
     GetSliceRendezvousKey key_prefix (phase_suffix ph) frame_iter"

text \<open>An empty rendezvous that has not been aborted.\<close>

definition NewLocalRendezvous :: rendezvous where
  "NewLocalRendezvous = \<lparr>table = (\<lambda>key. []), aborted = None\<rparr>"


section \<open>Notions used to state the claims\<close>

text \<open>The characters a rendered number consists of.\<close>

definition number_char :: "char \<Rightarrow> bool" where
  "number_char c \<longleftrightarrow> c \<in> set ''0123456789-''"

text \<open>The phases whose suffix carries no index.\<close>

definition fixed_phase :: "phase \<Rightarrow> bool" where
  "fixed_phase ph \<longleftrightarrow>
     (case ph of DataPhase i \<Rightarrow> False | DataSlicePhase i j \<Rightarrow> False | _ \<Rightarrow> True)"

text \<open>A key of the transfer instance with the given prefix, frame and iteration.\<close>

definition is_phase_key :: "string \<Rightarrow> FrameAndIter \<Rightarrow> string \<Rightarrow> bool" where
  "is_phase_key key_prefix frame_iter key \<longleftrightarrow> (\<exists>ph. key = phase_key key_prefix frame_iter ph)"

text \<open>
  \<open>sends_into K is_dead r r'\<close>: from \<open>r\<close> to \<open>r'\<close> messages were only appended,
  only to channels whose key satisfies \<open>K\<close>, each with the flag \<open>is_dead\<close>.
  \<open>consumes_from K r r'\<close>: from \<open>r\<close> to \<open>r'\<close> messages were only taken from the
  front of channels whose key satisfies \<open>K\<close>, and none of them was dead.
\<close>

definition sends_into :: "(string \<Rightarrow> bool) \<Rightarrow> bool \<Rightarrow> rendezvous \<Rightarrow> rendezvous \<Rightarrow> bool" where
  "sends_into K is_dead r r' \<longleftrightarrow>
     aborted r' = aborted r \<and>
     (\<forall>key. \<exists>new. table r' key = table r key @ new \<and> (new \<noteq> [] \<longrightarrow> K key) \<and>
        (\<forall>m \<in> set new. snd m = is_dead))"

definition consumes_from :: "(string \<Rightarrow> bool) \<Rightarrow> rendezvous \<Rightarrow> rendezvous \<Rightarrow> bool" where
  "consumes_from K r r' \<longleftrightarrow>
     aborted r' = aborted r \<and>
     (\<forall>key. \<exists>old. table r key = old @ table r' key \<and> (old \<noteq> [] \<longrightarrow> K key) \<and>
        (\<forall>m \<in> set old. \<not> snd m))"

text \<open>The same for a loop state that carries the rendezvous in its second component.\<close>

definition pair_consumes ::
  "(string \<Rightarrow> bool) \<Rightarrow> 'a \<times> rendezvous \<Rightarrow> 'a \<times> rendezvous \<Rightarrow> bool" where
  "pair_consumes K s s' \<longleftrightarrow> consumes_from K (snd s) (snd s')"

section \<open>An example transfer\<close>

text \<open>
  A platform that accepts every key, a sender and a receiver built by their constructors
  for the same edge, and a context with a fresh rendezvous: the concrete inputs at which
  the theorems below are instantiated.
\<close>

definition example_platform :: platform where
  "example_platform = \<lparr>sizeof_tstring = 24, key_accepted = (\<lambda>key. True)\<rparr>"

definition example_send_op :: "int64 \<Rightarrow> DataType \<Rightarrow> SliceSendOp" where
  "example_send_op slice_size T =
     SliceSendOp_init ''/job:ps/replica:0/task:0/device:CPU:0''
       ''/job:worker/replica:0/task:0/device:CPU:0'' 1 ''edge_5_x'' False slice_size T"

definition example_recv_op :: "int64 \<Rightarrow> DataType \<Rightarrow> SliceRecvOp" where
  "example_recv_op slice_size T =
     SliceRecvOp_init ''/job:ps/replica:0/task:0/device:CPU:0''
       ''/job:worker/replica:0/task:0/device:CPU:0'' 1 ''edge_5_x'' False slice_size T 1000"

definition example_ctx :: "rendezvous \<Rightarrow> tensor \<Rightarrow> bool \<Rightarrow> OpKernelContext" where
  "example_ctx r t dead =
     \<lparr>ctx_rendezvous = Some r, call_frame = None,
      ctx_frame_iter = \<lparr>frame_id = 0, iter_id = 0\<rparr>,
      ctx_input = t, is_input_dead = dead\<rparr>"

definition example_bytes :: tensor where
  "example_bytes = \<lparr>dtype = DT_INT8, shape = [3], buf = Bytes [1, 2, 3]\<rparr>"

definition example_strings :: tensor where
  "example_strings = \<lparr>dtype = DT_STRING, shape = [2], buf = Strings [''ab'', ''c'']\<rparr>"

text \<open>
  The keys of the example, and its rendezvous after the sender has run on
  \<open>example_bytes\<close> with a slice size of 3 (the fast path).
\<close>

definition example_key :: "phase \<Rightarrow> string" where
  "example_key ph =
     phase_key (op_key_prefix (example_send_op 3 DT_INT8)) \<lparr>frame_id = 0, iter_id = 0\<rparr> ph"

definition example_after_send :: rendezvous where
  "example_after_send =
     NewLocalRendezvous\<lparr>table := (table NewLocalRendezvous)
       (example_key TotalBytesPhase := [(int64_scalar_tensor 3, False)],
        example_key TransferData := [(example_bytes, False)])\<rparr>"

text \<open>A rendezvous of the example whose only message is a dead one, at the key of a phase.\<close>

definition example_dead_at :: "phase \<Rightarrow> rendezvous" where
  "example_dead_at ph =
     NewLocalRendezvous\<lparr>table := (table NewLocalRendezvous)
       (example_key ph := [(int64_scalar_tensor 3, True)])\<rparr>"

text \<open>
  The rendezvous of the example when the total-bytes message and the shape message of
  \<open>example_bytes\<close> have been deposited.
\<close>

definition example_after_shape :: rendezvous where
  "example_after_shape =
     NewLocalRendezvous\<lparr>table := (table NewLocalRendezvous)
       (example_key TotalBytesPhase := [(int64_scalar_tensor 3, False)],
        example_key ShapePhase := [(int64_tensor [1] [3], False)])\<rparr>"

section \<open>The transfer plan\<close>

text \<open>
  The messages of one transfer, in the order of section 3 of the specification
  (\<open>TotalBytes\<close>, then either the direct transfer, or \<open>Shape\<close>, the per-element sizes
  of a string tensor, and the data slices), each with its key. The flag \<open>is_dead\<close> of
  the message of a phase is given by \<open>dead\<close>; a live sender sends the plan of
  \<open>\<lambda>ph. False\<close>. Depositing a list of messages appends each one to the channel of its
  key.
\<close>

fun deposit :: "rendezvous \<Rightarrow> (string \<times> (tensor \<times> bool)) list \<Rightarrow> rendezvous" where
  "deposit r [] = r"
| "deposit r ((key, m) # rest) =
     deposit (r\<lparr>table := (table r)(key := table r key @ [m])\<rparr>) rest"

definition ceil_div :: "nat \<Rightarrow> nat \<Rightarrow> nat" where
  "ceil_div n s = (n + s - 1) div s"

definition message ::
  "string \<Rightarrow> FrameAndIter \<Rightarrow> (phase \<Rightarrow> bool) \<Rightarrow> phase \<Rightarrow> tensor \<Rightarrow> string \<times> (tensor \<times> bool)" where
  "message pre fi dead ph t = (phase_key pre fi ph, (t, dead ph))"

definition dead_in :: "(string \<times> (tensor \<times> bool)) list \<Rightarrow> bool" where
  "dead_in msgs = list_ex (\<lambda>m. snd (snd m)) msgs"

definition BasicPlan ::
  "string \<Rightarrow> FrameAndIter \<Rightarrow> (phase \<Rightarrow> bool) \<Rightarrow> nat \<Rightarrow> byte list \<Rightarrow>
   (string \<times> (tensor \<times> bool)) list" where
  "BasicPlan pre fi dead s bs =
     map (\<lambda>i. message pre fi dead (DataPhase (of_nat i)) (int8_tensor (take s (drop (i * s) bs))))
       [0 ..< ceil_div (length bs) s]"

definition ElementPlan ::
  "string \<Rightarrow> FrameAndIter \<Rightarrow> (phase \<Rightarrow> bool) \<Rightarrow> nat \<Rightarrow> nat \<Rightarrow> string \<Rightarrow>
   (string \<times> (tensor \<times> bool)) list" where
  "ElementPlan pre fi dead s i x =
     (if length x \<le> s
      then [message pre fi dead (DataPhase (of_nat i)) (tstring_scalar_tensor x)]
      else map (\<lambda>j. message pre fi dead (DataSlicePhase (of_nat i) (of_nat j))
                     (tstring_scalar_tensor (take s (drop (j * s) x))))
             [0 ..< ceil_div (length x) s])"

definition StringPlan ::
  "string \<Rightarrow> FrameAndIter \<Rightarrow> (phase \<Rightarrow> bool) \<Rightarrow> nat \<Rightarrow> nat list \<Rightarrow> string list \<Rightarrow>
   (string \<times> (tensor \<times> bool)) list" where
  "StringPlan pre fi dead s dims xs =
     message pre fi dead ElementsSizePhase
       (int64_tensor dims (map (\<lambda>x. of_nat (length x)) xs)) #
     concat (map (\<lambda>i. ElementPlan pre fi dead s i (xs ! i)) [0 ..< length xs])"

definition TransferPlan ::
  "nat \<Rightarrow> string \<Rightarrow> FrameAndIter \<Rightarrow> (phase \<Rightarrow> bool) \<Rightarrow> nat \<Rightarrow> tensor \<Rightarrow>
   (string \<times> (tensor \<times> bool)) list" where
  "TransferPlan tsize pre fi dead s t =
     message pre fi dead TotalBytesPhase (int64_scalar_tensor (TotalBytes tsize t)) #
     (if unat (TotalBytes tsize t) \<le> s
      then [message pre fi dead TransferData t]
      else message pre fi dead ShapePhase
             (int64_tensor [length (shape t)] (map of_nat (shape t))) #
           (case buf t of
              Bytes bs \<Rightarrow> BasicPlan pre fi dead s bs
            | Strings xs \<Rightarrow> StringPlan pre fi dead s (shape t) xs))"

text \<open>
  What a transfer requires of its surroundings: a live rendezvous that accepts the keys
  of the instance and whose channels under these keys are empty.
\<close>

definition fresh_instance :: "platform \<Rightarrow> string \<Rightarrow> FrameAndIter \<Rightarrow> rendezvous \<Rightarrow> bool" where
  "fresh_instance p pre fi r \<longleftrightarrow>
     aborted r = None \<and>
     (\<forall>ph. key_accepted p (phase_key pre fi ph) \<and> table r (phase_key pre fi ph) = [])"

text \<open>
  The plan of \<open>example_strings\<close> with a slice size of 1: the first element is sent
  in two slices, the second one whole.
\<close>

definition example_messages :: "(phase \<Rightarrow> bool) \<Rightarrow> (string \<times> (tensor \<times> bool)) list" where
  "example_messages dead =
     [(example_key TotalBytesPhase, (int64_scalar_tensor 51, dead TotalBytesPhase)),
      (example_key ShapePhase, (int64_tensor [1] [2], dead ShapePhase)),
      (example_key ElementsSizePhase, (int64_tensor [2] [2, 1], dead ElementsSizePhase)),
      (example_key (DataSlicePhase 0 0), (tstring_scalar_tensor ''a'', dead (DataSlicePhase 0 0))),
      (example_key (DataSlicePhase 0 1), (tstring_scalar_tensor ''b'', dead (DataSlicePhase 0 1))),
      (example_key (DataPhase 1), (tstring_scalar_tensor ''c'', dead (DataPhase 1)))]"

text \<open>
  The plans of \<open>example_bytes\<close>: with a slice size of 2 (two data slices) and with a
  slice size of 3 (the direct transfer).
\<close>

definition example_byte_messages :: "(phase \<Rightarrow> bool) \<Rightarrow> (string \<times> (tensor \<times> bool)) list" where
  "example_byte_messages dead =
     [(example_key TotalBytesPhase, (int64_scalar_tensor 3, dead TotalBytesPhase)),
      (example_key ShapePhase, (int64_tensor [1] [3], dead ShapePhase)),
      (example_key (DataPhase 0), (int8_tensor [1, 2], dead (DataPhase 0))),
      (example_key (DataPhase 1), (int8_tensor [3], dead (DataPhase 1)))]"

definition example_direct_messages :: "(phase \<Rightarrow> bool) \<Rightarrow> (string \<times> (tensor \<times> bool)) list" where
  "example_direct_messages dead =
     [(example_key TotalBytesPhase, (int64_scalar_tensor 3, dead TotalBytesPhase)),
      (example_key TransferData, (example_bytes, dead TransferData))]"

section \<open>Arithmetic of 64-bit values\<close>

lemma sint64_of_int: "- (2 ^ 63) \<le> x \<Longrightarrow> x < 2 ^ 63 \<Longrightarrow> sint (word_of_int x :: int64) = x"
  by (simp add: sint_sbintrunc' signed_take_bit_int_eq_self)

lemma sint64_range: "- (2 ^ 63) \<le> sint (w :: int64)" "sint w < 2 ^ 63"
  using sint_ge [of w] sint_lt [of w] by simp_all

lemma sint64_add: "- (2 ^ 63) \<le> sint a + sint b \<Longrightarrow> sint a + sint b < 2 ^ 63 \<Longrightarrow> sint (a + b :: int64) = sint a + sint b"
  by (simp add: sint_word_add signed_take_bit_int_eq_self)

lemma sint64_sub: "- (2 ^ 63) \<le> sint a - sint b \<Longrightarrow> sint a - sint b < 2 ^ 63 \<Longrightarrow> sint (a - b :: int64) = sint a - sint b"
  by (simp add: sint_word_ariths signed_take_bit_int_eq_self)

lemma sint64_mult: "- (2 ^ 63) \<le> sint a * sint b \<Longrightarrow> sint a * sint b < 2 ^ 63 \<Longrightarrow> sint (a * b :: int64) = sint a * sint b"
  by (simp add: sint_word_mult signed_take_bit_int_eq_self)

lemma sint64_of_nat: "i < 2 ^ 63 \<Longrightarrow> sint (of_nat i :: int64) = int i"
  using sint64_of_int [of "int i"] by simp

lemma sdiv_nonneg: "0 \<le> a \<Longrightarrow> 0 < b \<Longrightarrow> (a::int) sdiv b = a div b"
  by (simp add: signed_divide_int_def sgn_if)

lemma ceil_div_less_iff:
  fixes N S i :: int
  assumes "1 \<le> S" 
  shows "i < (N + S - 1) div S \<longleftrightarrow> i * S < N"
proof -
  define q where "q = (N + S - 1) div S"
  define r where "r = (N + S - 1) mod S"
  have r: "0 \<le> r" "r < S" using assms by (simp_all add: r_def)
  have eq: "N + S - 1 = q * S + r" by (simp add: q_def r_def)
  show ?thesis
  proof
    assume "i < (N + S - 1) div S"
    then have "i + 1 \<le> q" by (simp add: q_def)
    then have "(i + 1) * S \<le> q * S" using assms by (simp add: mult_right_mono)
    then show "i * S < N" using eq r by (simp add: algebra_simps)
  next
    assume a: "i * S < N"
    have "\<not> q \<le> i"
    proof
      assume "q \<le> i"
      then have "q * S \<le> i * S" using assms by (simp add: mult_right_mono)
      then show False using a eq r by linarith
    qed
    then show "i < (N + S - 1) div S" by (simp add: q_def)
  qed
qed

lemma sint64_ceil_sum:
  fixes N S :: int64
  assumes "1 \<le> sint S" "0 \<le> sint N" "sint N + sint S - 1 < 2 ^ 63"
  shows "sint (N + S - 1) = sint N + sint S - 1"
proof -
  have "N + S - 1 = word_of_int (sint N + sint S - 1)" by simp
  then have "sint (N + S - 1) = sint (word_of_int (sint N + sint S - 1) :: int64)" by simp
  also have "\<dots> = sint N + sint S - 1"
    using assms by (intro sint64_of_int) simp_all
  finally show ?thesis .
qed

lemma int64_div_pos:
  fixes a b :: int64
  assumes "0 \<le> sint a" "1 \<le> sint b"
  shows "\<exists>n. int64_div a b = Inr n \<and> sint n = sint a div sint b"
proof -
  have b0: "b \<noteq> 0" using assms by auto
  have q: "0 \<le> sint a div sint b" "sint a div sint b \<le> sint a"
    using assms by (simp_all add: pos_imp_zdiv_nonneg_iff zdiv_mono2 [of "sint a" 1 "sint b", simplified])
  have "sint (word_of_int (sint a div sint b) :: int64) = sint a div sint b"
    using q sint64_range(2) [of a] by (intro sint64_of_int) simp_all
  then show ?thesis
    using assms b0 by (simp add: int64_div_def sdiv_nonneg)
qed


lemma sint64_wrap_high:
  assumes "2 ^ 63 \<le> x" "x < 2 ^ 64"
  shows "sint (word_of_int x :: int64) = x - 2 ^ 64"
proof -
  have "x + 2 ^ 63 = x - 2 ^ 63 + 2 ^ 64 * 1" by simp
  then have "(x + 2 ^ 63) mod 2 ^ 64 = (x - 2 ^ 63 + 2 ^ 64 * 1) mod 2 ^ 64" by (rule arg_cong)
  also have "\<dots> = (x - 2 ^ 63) mod 2 ^ 64" by (simp only: mod_mult_self2)
  also have "\<dots> = x - 2 ^ 63" using assms by (intro mod_pos_pos_trivial) simp_all
  finally show ?thesis by (simp add: int_word_sint)
qed

lemma int64_div_neg_pos:
  fixes a b :: int64
  assumes "sint a < 0" "1 \<le> sint b" "int64_div a b = Inr n"
  shows "sint n \<le> 0"
proof -
  have b0: "b \<noteq> 0" using assms by auto
  let ?q = "sint a sdiv sint b"
  have q: "?q = - ((- sint a) div sint b)"
    using assms by (simp add: signed_divide_int_def sgn_if)
  have "0 \<le> (- sint a) div sint b" "(- sint a) div sint b \<le> - sint a"
    using assms by (simp_all add: pos_imp_zdiv_nonneg_iff zdiv_mono2 [of "- sint a" 1 "sint b", simplified])
  then have r: "?q \<le> 0" "sint a \<le> ?q" using q by simp_all
  have "sint (word_of_int ?q :: int64) = ?q"
    using r sint64_range(1) [of a] by (intro sint64_of_int) simp_all
  moreover have "n = word_of_int ?q"
    using assms b0 by (simp add: int64_div_def split: if_splits)
  ultimately show ?thesis using r by simp
qed

lemma basic_loop_index_bound:
  fixes N S :: int64
  assumes S: "1 \<le> sint S" and N: "0 \<le> sint N"
    and n: "int64_div (N + S - 1) S = Inr n" and i: "i < nat (sint n)"
  shows "int i * sint S < sint N"
proof (cases "sint N + sint S - 1 < 2 ^ 63")
  case True
  then have sum: "sint (N + S - 1) = sint N + sint S - 1"
    using sint64_ceil_sum [OF S N] by simp
  obtain m where m: "int64_div (N + S - 1) S = Inr m" "sint m = sint (N + S - 1) div sint S"
    using int64_div_pos [of "N + S - 1" S] S N sum by auto
  then have "sint n = (sint N + sint S - 1) div sint S" using n sum by simp
  then have "int i < (sint N + sint S - 1) div sint S" using i by simp
  then show ?thesis using ceil_div_less_iff [OF S] by simp
next
  case False
  let ?x = "sint N + sint S - 1"
  have x: "2 ^ 63 \<le> ?x" "?x < 2 ^ 64"
    using False sint64_range(2) [of N] sint64_range(2) [of S] by simp_all
  have "N + S - 1 = word_of_int ?x" by simp
  then have "sint (N + S - 1) = ?x - 2 ^ 64"
    using sint64_wrap_high [OF x] by simp
  then have "sint (N + S - 1) < 0" using x by simp
  then have "sint n \<le> 0" using int64_div_neg_pos [OF _ S n] by simp
  then show ?thesis using i by simp
qed

lemma basic_slice_sint:
  fixes N S :: int64
  assumes S: "1 \<le> sint S" and SN: "sint S \<le> sint N" and i: "int i * sint S < sint N"
  shows "sint (of_nat i * S :: int64) = int i * sint S"
    and "sint (N - S) = sint N - sint S"
    and "sint (N - of_nat i * S) = sint N - int i * sint S"
proof -
  have "int i * 1 \<le> int i * sint S" using S by (intro mult_left_mono) simp_all
  then have i63: "i < 2 ^ 63" using i sint64_range(2) [of N] by simp
  then have oi: "sint (of_nat i :: int64) = int i" by (rule sint64_of_nat)
  have nn: "0 \<le> int i * sint S" using S by simp
  show st: "sint (of_nat i * S :: int64) = int i * sint S"
    using sint64_mult [of "of_nat i" S] oi i nn sint64_range(2) [of N] by simp
  show "sint (N - S) = sint N - sint S"
    using S SN sint64_range(2) [of N] by (intro sint64_sub) simp_all
  have "0 \<le> int i * sint S" using S by simp
  then show "sint (N - of_nat i * S) = sint N - int i * sint S"
    using sint64_sub [of N "of_nat i * S"] st i sint64_range(2) [of N] by simp
qed


lemma nat_ceil_div_less_iff:
  fixes N S i :: nat
  assumes "1 \<le> S"
  shows "i < (N + S - 1) div S \<longleftrightarrow> i * S < N"
proof -
  have "i < (N + S - 1) div S \<longleftrightarrow> Suc i \<le> (N + S - 1) div S" by auto
  also have "\<dots> \<longleftrightarrow> Suc i * S \<le> N + S - 1"
    using assms by (simp add: less_eq_div_iff_mult_less_eq)
  also have "\<dots> \<longleftrightarrow> i * S < N" using assms by auto
  finally show ?thesis .
qed

lemma sint64_nonneg_uint:
  fixes w :: int64
  assumes "0 \<le> sint w"
  shows "sint w = uint w"
proof (cases "uint w < 2 ^ 63")
  case True
  moreover have "0 \<le> uint w" by simp
  ultimately have "sint (word_of_int (uint w) :: int64) = uint w"
    by (intro sint64_of_int) linarith+
  then show ?thesis by simp
next
  case False
  moreover have "uint w < 2 ^ 64" using uint_bounded [of w] by simp
  ultimately have "sint (word_of_int (uint w) :: int64) = uint w - 2 ^ 64"
    by (intro sint64_wrap_high) simp_all
  then have "sint w < 0" using \<open>uint w < 2 ^ 64\<close> by simp
  then show ?thesis using assms by simp
qed

lemma sint64_le_unat: "int i < sint (n :: int64) \<Longrightarrow> i < unat n"
proof -
  assume a: "int i < sint n"
  then have "sint n = uint n" by (intro sint64_nonneg_uint) simp
  moreover have "uint n = int (unat n)" by simp
  ultimately show ?thesis using a by linarith
qed

lemma str_loop_index_bound:
  fixes elem_size S :: size_t
  assumes S: "S \<noteq> 0"
    and n: "size_t_div (elem_size + S - 1) S = Inr n" and i: "i < nat (sint n)"
  shows "i * unat S < unat elem_size"
proof -
  have S1: "1 \<le> unat S" using S by (simp add: unat_gt_0 Suc_le_eq)
  have n': "n = (elem_size + S - 1) div S" using n S by (simp add: size_t_div_def)
  have "int i < sint n" using i by simp
  then have "i < unat n" by (rule sint64_le_unat)
  then have lt: "i < unat (elem_size + S - 1) div unat S" by (simp add: n' unat_div)
  have "elem_size + S - 1 = elem_size + (S - 1)" by simp
  moreover have "unat (elem_size + (S - 1)) = (unat elem_size + unat (S - 1)) mod 2 ^ 64"
    using unat_word_ariths(1) [of elem_size "S - 1"] by simp
  ultimately have "unat (elem_size + S - 1) = (unat elem_size + unat (S - 1)) mod 2 ^ 64"
    by (simp only:)
  then have "unat (elem_size + S - 1) \<le> unat elem_size + unat (S - 1)"
    by simp
  also have "\<dots> = unat elem_size + unat S - 1"
    using S S1 by (simp add: unat_minus_one)
  finally have "unat (elem_size + S - 1) div unat S \<le> (unat elem_size + unat S - 1) div unat S"
    by (rule div_le_mono)
  then have "i < (unat elem_size + unat S - 1) div unat S" using lt by simp
  then show ?thesis using nat_ceil_div_less_iff [OF S1] by simp
qed

lemma str_slice_unat:
  fixes elem_size S :: size_t
  assumes SN: "unat S \<le> unat elem_size" and i: "i * unat S < unat elem_size"
  shows "unat (of_nat i * S :: size_t) = i * unat S"
    and "unat (elem_size - S) = unat elem_size - unat S"
    and "unat (elem_size - of_nat i * S) = unat elem_size - i * unat S"
proof -
  have lt: "unat elem_size < 2 ^ 64" using unsigned_less [of elem_size] by simp
  have "unat (of_nat i * S :: size_t) = (unat (of_nat i :: size_t) * unat S) mod 2 ^ 64"
    by (simp add: unat_word_ariths)
  also have "\<dots> = (i * unat S) mod 2 ^ 64"
    by (simp add: unat_of_nat mod_mult_left_eq)
  also have "\<dots> = i * unat S" using i lt by simp
  finally show st: "unat (of_nat i * S :: size_t) = i * unat S" .
  show "unat (elem_size - S) = unat elem_size - unat S"
    using SN by (simp add: unat_sub word_le_nat_alt)
  show "unat (elem_size - of_nat i * S) = unat elem_size - i * unat S"
    using i st by (simp add: unat_sub word_le_nat_alt)
qed

lemma ceil_div_eq_ceiling:
  fixes N S :: int
  assumes "1 \<le> S"
  shows "(N + S - 1) div S = \<lceil>real_of_int N / real_of_int S\<rceil>"
proof -
  have "\<And>i. i < (N + S - 1) div S \<longleftrightarrow> i < \<lceil>real_of_int N / real_of_int S\<rceil>"
  proof -
    fix i
    have "i < \<lceil>real_of_int N / real_of_int S\<rceil> \<longleftrightarrow> real_of_int i < real_of_int N / real_of_int S"
      by (simp add: less_ceiling_iff)
    also have "\<dots> \<longleftrightarrow> real_of_int i * real_of_int S < real_of_int N"
      using assms by (simp add: pos_less_divide_eq)
    also have "\<dots> \<longleftrightarrow> i * S < N"
      by (metis of_int_less_iff of_int_mult)
    finally show "i < (N + S - 1) div S \<longleftrightarrow> i < \<lceil>real_of_int N / real_of_int S\<rceil>"
      using ceil_div_less_iff [OF assms] by simp
  qed
  then show ?thesis
    by (metis less_irrefl linorder_neqE_linordered_idom)
qed

lemma basic_slice_value:
  fixes N S :: int64
  assumes S: "1 \<le> sint S" and SN: "sint S \<le> sint N" and i: "int i * sint S < sint N"
  shows "SendBasicType_slice N S i =
           (of_nat i * S,
            if sint N < int i * sint S + sint S then N - of_nat i * S else S)"
    and "RecvBasicType_slice N S i = SendBasicType_slice N S i"
  using basic_slice_sint [OF S SN i]
  by (auto simp add: SendBasicType_slice_def RecvBasicType_slice_def Let_def)

lemma string_slice_value:
  fixes N S :: size_t
  assumes SN: "unat S \<le> unat N" and i: "i * unat S < unat N"
  shows "SendStringSlice_slice N S i =
           (of_nat i * S,
            if unat N < i * unat S + unat S then N - of_nat i * S else S)"
  using str_slice_unat [OF SN i] SN
  by (auto simp add: SendStringSlice_slice_def Let_def word_less_nat_alt)

section \<open>The claims about the slice geometry\<close>

text \<open>
  C8. Whenever the slice size is at least 1 and at most the total size, the test the
  kernels use for the final slice, \<open>start > total - slice_size\<close>, agrees with
  \<open>start + slice_size > total\<close> at every index the loop reaches: in the signed
  arithmetic of \<^verbatim>\<open>SendBasicType\<close> and in the unsigned arithmetic of
  \<^verbatim>\<open>SendStringSlice\<close>, so the slice computed is the one the second comparison
  would give.
\<close>

theorem final_slice_test_equivalent:
  fixes total slice_size :: "64 word"
  assumes "1 \<le> sint slice_size"
  shows "(sint slice_size \<le> sint total \<and>
          SendBasicType_slice_num total slice_size = Inr n \<and> i \<in> set (loop_indices n) \<longrightarrow>
            (sint (total - slice_size) < sint (of_nat i * slice_size :: int64) \<longleftrightarrow>
               sint total < int i * sint slice_size + sint slice_size) \<and>
            SendBasicType_slice total slice_size i =
              (of_nat i * slice_size,
               if sint total < int i * sint slice_size + sint slice_size
               then total - of_nat i * slice_size else slice_size)) \<and>
         (unat slice_size \<le> unat total \<and>
          SendStringSlice_slice_num total slice_size = Inr m \<and> j \<in> set (loop_indices m) \<longrightarrow>
            (total - slice_size < of_nat j * slice_size \<longleftrightarrow>
               unat total < j * unat slice_size + unat slice_size) \<and>
            SendStringSlice_slice total slice_size j =
              (of_nat j * slice_size,
               if unat total < j * unat slice_size + unat slice_size
               then total - of_nat j * slice_size else slice_size))"
proof (intro conjI impI)
  assume a: "sint slice_size \<le> sint total \<and>
          SendBasicType_slice_num total slice_size = Inr n \<and> i \<in> set (loop_indices n)"
  then have i: "int i * sint slice_size < sint total"
    using assms basic_loop_index_bound [of slice_size total n i]
    by (simp add: SendBasicType_slice_num_def loop_indices_def)
  show "sint (total - slice_size) < sint (of_nat i * slice_size :: int64) \<longleftrightarrow>
               sint total < int i * sint slice_size + sint slice_size"
    using basic_slice_sint [OF assms _ i] a by auto
  show "SendBasicType_slice total slice_size i =
              (of_nat i * slice_size,
               if sint total < int i * sint slice_size + sint slice_size
               then total - of_nat i * slice_size else slice_size)"
    using basic_slice_value(1) [OF assms _ i] a by simp
next
  assume a: "unat slice_size \<le> unat total \<and>
          SendStringSlice_slice_num total slice_size = Inr m \<and> j \<in> set (loop_indices m)"
  have S0: "slice_size \<noteq> 0" using assms by auto
  have j: "j * unat slice_size < unat total"
    using a S0 str_loop_index_bound [of slice_size total m j]
    by (simp add: SendStringSlice_slice_num_def loop_indices_def)
  show "total - slice_size < of_nat j * slice_size \<longleftrightarrow>
               unat total < j * unat slice_size + unat slice_size"
    using str_slice_unat [OF _ j] a by (auto simp add: word_less_nat_alt)
  show "SendStringSlice_slice total slice_size j =
              (of_nat j * slice_size,
               if unat total < j * unat slice_size + unat slice_size
               then total - of_nat j * slice_size else slice_size)"
    using string_slice_value [OF _ j] a by simp
qed

lemma int64_div_small: "int64_div 12 3 = Inr 4" "size_t_div 12 3 = Inr 4"
  by (simp_all add: int64_div_def size_t_div_def signed_divide_int_def)

theorem final_slice_test_equivalent_witness:
  "1 \<le> sint (3 :: int64) \<and>
   sint (3 :: int64) \<le> sint (10 :: int64) \<and>
   SendBasicType_slice_num 10 3 = Inr 4 \<and> 3 \<in> set (loop_indices 4) \<and>
   (sint (10 - 3 :: int64) < sint (of_nat 3 * 3 :: int64) \<longleftrightarrow> sint (10 :: int64) < int 3 * sint (3 :: int64) + sint (3 :: int64)) \<and>
   SendBasicType_slice 10 3 3 = (9, 1) \<and>
   unat (3 :: size_t) \<le> unat (10 :: size_t) \<and>
   SendStringSlice_slice_num 10 3 = Inr 4 \<and> 2 \<in> set (loop_indices 4) \<and>
   SendStringSlice_slice 10 3 2 = (6, 3)"
  using final_slice_test_equivalent [of 3 10 4 3 4 2]
  by (simp add: SendBasicType_slice_num_def SendStringSlice_slice_num_def int64_div_small loop_indices_def)

lemma basic_slice_num_value:
  fixes N S :: int64
  assumes S: "1 \<le> sint S" and N: "0 \<le> sint N" and NS: "sint N + sint S \<le> 2 ^ 63"
  shows "\<exists>n. SendBasicType_slice_num N S = Inr n \<and> RecvBasicType_slice_num N S = Inr n \<and>
             RecvStringSlice_slice_num N S = Inr n \<and>
             sint n = (sint N + sint S - 1) div sint S"
proof -
  have sum: "sint (N + S - 1) = sint N + sint S - 1"
    using sint64_ceil_sum [OF S N] NS by simp
  then have "0 \<le> sint (N + S - 1)" using S N by simp
  then show ?thesis
    using int64_div_pos [of "N + S - 1" S] S sum
    by (auto simp add: SendBasicType_slice_num_def RecvBasicType_slice_num_def
        RecvStringSlice_slice_num_def)
qed

lemma final_index_iff:
  fixes N S :: int
  assumes S: "1 \<le> S" and i: "int i * S < N"
  shows "Suc i = nat ((N + S - 1) div S) \<longleftrightarrow> N \<le> int i * S + S"
proof -
  let ?n = "(N + S - 1) div S"
  have lt: "int i < ?n" using ceil_div_less_iff [OF S, of "int i" N] i by simp
  have "int (Suc i) < ?n \<longleftrightarrow> int (Suc i) * S < N" by (rule ceil_div_less_iff [OF S])
  moreover have "int (Suc i) * S = int i * S + S" by (simp add: algebra_simps)
  ultimately have "\<not> int (Suc i) < ?n \<longleftrightarrow> N \<le> int i * S + S" by linarith
  moreover have "Suc i = nat ?n \<longleftrightarrow> \<not> int (Suc i) < ?n" using lt by auto
  ultimately show ?thesis by simp
qed

text \<open>
  C2, as amended. For a value of \<open>N\<close> bytes and a slice size \<open>S\<close> with
  \<open>1 \<le> S < N\<close> (and \<open>N + S\<close> within the range of \<^verbatim>\<open>int64\<close>), sender and
  receiver compute the same \<open>\<lceil>N / S\<rceil>\<close> slices; slice \<open>i\<close> starts at \<open>i * S\<close> and has
  length \<open>S\<close>, except the final slice, of index \<open>\<lceil>N / S\<rceil> - 1\<close>, whose length is
  \<open>N - i * S\<close>. The test \<open>i * S > N - S\<close> holds for the final slice when \<open>S\<close> does
  not divide \<open>N\<close>, and for no slice otherwise.
\<close>

theorem slice_boundaries:
  fixes N S :: int64
  assumes S: "1 \<le> sint S" and SN: "sint S < sint N" and NS: "sint N + sint S \<le> 2 ^ 63"
  shows "\<exists>n. SendBasicType_slice_num N S = Inr n \<and> RecvBasicType_slice_num N S = Inr n \<and>
           sint n = \<lceil>real_of_int (sint N) / real_of_int (sint S)\<rceil> \<and>
           length (loop_indices n) = nat \<lceil>real_of_int (sint N) / real_of_int (sint S)\<rceil> \<and>
           (\<forall>i \<in> set (loop_indices n).
              RecvBasicType_slice N S i = SendBasicType_slice N S i \<and>
              sint (fst (SendBasicType_slice N S i)) = int i * sint S \<and>
              sint (snd (SendBasicType_slice N S i)) =
                (if Suc i = length (loop_indices n) then sint N - int i * sint S else sint S) \<and>
              (sint N - sint S < int i * sint S \<longleftrightarrow>
                 Suc i = length (loop_indices n) \<and> \<not> sint S dvd sint N))"
    (is "\<exists>n. ?P n")
proof -
  have N: "0 \<le> sint N" using S SN by simp
  obtain n where n: "SendBasicType_slice_num N S = Inr n" "RecvBasicType_slice_num N S = Inr n"
      "sint n = (sint N + sint S - 1) div sint S"
    using basic_slice_num_value [OF S N NS] by auto
  have ceil: "sint n = \<lceil>real_of_int (sint N) / real_of_int (sint S)\<rceil>"
    using n(3) ceil_div_eq_ceiling [OF S] by simp
  have len: "length (loop_indices n) = nat (sint n)" by (simp add: loop_indices_def)
  have each: "RecvBasicType_slice N S i = SendBasicType_slice N S i \<and>
              sint (fst (SendBasicType_slice N S i)) = int i * sint S \<and>
              sint (snd (SendBasicType_slice N S i)) =
                (if Suc i = length (loop_indices n) then sint N - int i * sint S else sint S) \<and>
              (sint N - sint S < int i * sint S \<longleftrightarrow>
                 Suc i = length (loop_indices n) \<and> \<not> sint S dvd sint N)"
    if "i \<in> set (loop_indices n)" for i
  proof -
    have "int i < (sint N + sint S - 1) div sint S"
      using that n(3) by (simp add: loop_indices_def)
    then have i: "int i * sint S < sint N" using ceil_div_less_iff [OF S] by simp
    have SN': "sint S \<le> sint N" using SN by simp
    note v = basic_slice_value [OF S SN' i] basic_slice_sint [OF S SN' i]
    have fin: "Suc i = length (loop_indices n) \<longleftrightarrow> sint N \<le> int i * sint S + sint S"
      using final_index_iff [OF S i] n(3) len by simp
    have dvd: "sint N = int i * sint S + sint S \<longleftrightarrow> sint N \<le> int i * sint S + sint S \<and> sint S dvd sint N"
    proof
      assume "sint N = int i * sint S + sint S"
      then have e: "sint N = sint S * (int i + 1)" by (simp add: algebra_simps)
      have "sint S dvd sint S * (int i + 1)" by (rule dvd_triv_left)
      then have "sint S dvd sint N" using e by simp
      then show "sint N \<le> int i * sint S + sint S \<and> sint S dvd sint N"
        using \<open>sint N = int i * sint S + sint S\<close> by simp
    next
      assume a: "sint N \<le> int i * sint S + sint S \<and> sint S dvd sint N"
      then obtain k where k: "sint N = sint S * k" by (auto simp: dvd_def)
      have "sint S * int i < sint S * k" using i k by (simp add: mult.commute)
      then have "int i < k" using S by (simp add: mult_less_cancel_left)
      then have "int i + 1 \<le> k" by simp
      then have "sint S * (int i + 1) \<le> sint S * k" using S by (intro mult_left_mono) simp_all
      then show "sint N = int i * sint S + sint S" using a k by (simp add: algebra_simps)
    qed
    have p1: "RecvBasicType_slice N S i = SendBasicType_slice N S i" by (rule v(2))
    have p2: "sint (fst (SendBasicType_slice N S i)) = int i * sint S"
      by (simp add: v(1) v(3))
    have p3: "sint (snd (SendBasicType_slice N S i)) =
                (if Suc i = length (loop_indices n) then sint N - int i * sint S else sint S)"
    proof (cases "sint N < int i * sint S + sint S")
      case True
      then show ?thesis using fin by (simp add: v(1) v(5))
    next
      case False
      then show ?thesis using fin by (auto simp add: v(1))
    qed
    have p4: "sint N - sint S < int i * sint S \<longleftrightarrow>
                 Suc i = length (loop_indices n) \<and> \<not> sint S dvd sint N"
      using fin dvd by linarith
    show ?thesis using p1 p2 p3 p4 by blast
  qed
  show ?thesis
    using n(1,2) ceil len each by (intro exI [of _ n]) simp
qed


lemma loop_indices_small:
  "loop_indices 4 = [0, 1, 2, 3]" "loop_indices 2 = [0, 1]" "loop_indices 1 = [0]"
  by (simp_all add: loop_indices_def upt_rec)

lemma int64_div_six: "int64_div 8 3 = Inr 2"
  by (simp add: int64_div_def signed_divide_int_def)

text \<open>For \<open>N = 10\<close> and \<open>S = 3\<close> the slices start at 0, 3, 6, 9 and have the lengths
  3, 3, 3, 1.\<close>

theorem slice_boundaries_witness:
  "1 \<le> sint (3 :: int64) \<and> sint (3 :: int64) < sint (10 :: int64) \<and>
   sint (10 :: int64) + sint (3 :: int64) \<le> 2 ^ 63 \<and>
   SendBasicType_slice_num 10 3 = Inr 4 \<and> RecvBasicType_slice_num 10 3 = Inr 4 \<and>
   map (\<lambda>i. snd (SendBasicType_slice 10 3 i)) (loop_indices 4) = [3, 3, 3, 1] \<and>
   map (\<lambda>i. snd (RecvBasicType_slice 10 3 i)) (loop_indices 4) = [3, 3, 3, 1] \<and>
   map (\<lambda>i. fst (SendBasicType_slice 10 3 i)) (loop_indices 4) = [0, 3, 6, 9]"
  using slice_boundaries [of 3 10]
  by (simp add: SendBasicType_slice_num_def RecvBasicType_slice_num_def int64_div_small
      loop_indices_small SendBasicType_slice_def RecvBasicType_slice_def)

text \<open>
  For \<open>N = 6\<close> and \<open>S = 3\<close> there are two slices of length 3, and the test
  \<open>i * S > N - S\<close> holds for neither: the final slice is not an index that satisfies it.
\<close>

theorem slice_boundaries_counterexample:
  "SendBasicType_slice_num 6 3 = Inr 2 \<and> loop_indices 2 = [0, 1] \<and>
   \<not> sint (6 - 3 :: int64) < sint (of_nat 0 * 3 :: int64) \<and>
   \<not> sint (6 - 3 :: int64) < sint (of_nat 1 * 3 :: int64) \<and>
   SendBasicType_slice 6 3 0 = (0, 3) \<and> SendBasicType_slice 6 3 1 = (3, 3)"
  by (simp add: SendBasicType_slice_num_def int64_div_six loop_indices_small
      SendBasicType_slice_def)

section \<open>Rendered numbers and keys\<close>

lemma digit_char_number: "d < 10 \<Longrightarrow> number_char (digit_char d)"
proof -
  assume "d < 10"
  then have "d \<in> {0, 1, 2, 3, 4, 5, 6, 7, 8, 9}" by auto
  then show ?thesis by (auto simp add: digit_char_def number_char_def)
qed

lemma digit_char_inj: "a < 10 \<Longrightarrow> b < 10 \<Longrightarrow> digit_char a = digit_char b \<Longrightarrow> a = b"
proof -
  assume "a < 10" "b < 10" and e: "digit_char a = digit_char b"
  then have "a \<in> {0, 1, 2, 3, 4, 5, 6, 7, 8, 9}" "b \<in> {0, 1, 2, 3, 4, 5, 6, 7, 8, 9}" by auto
  then show ?thesis using e by (auto simp add: digit_char_def)
qed

lemma digit_char_not_minus: "d < 10 \<Longrightarrow> digit_char d \<noteq> CHR ''-''"
proof -
  assume "d < 10"
  then have "d \<in> {0, 1, 2, 3, 4, 5, 6, 7, 8, 9}" by auto
  then show ?thesis by (auto simp add: digit_char_def)
qed

lemma decimal_small: "n < 10 \<Longrightarrow> decimal n = [digit_char n]"
  by (subst decimal.simps) simp

lemma decimal_large: "\<not> n < 10 \<Longrightarrow> decimal n = decimal (n div 10) @ [digit_char (n mod 10)]"
  by (subst decimal.simps) simp

lemma decimal_nonempty: "decimal n \<noteq> []"
  by (cases "n < 10") (simp_all add: decimal_small decimal_large)

lemma decimal_chars: "\<forall>c \<in> set (decimal n). number_char c \<and> c \<noteq> CHR ''-''"
proof (induction n rule: decimal.induct)
  case (1 n)
  show ?case
  proof (cases "n < 10")
    case True
    then show ?thesis
      by (simp add: decimal_small digit_char_number digit_char_not_minus)
  next
    case False
    then show ?thesis using 1
      by (simp add: decimal_large digit_char_number digit_char_not_minus)
  qed
qed

lemma decimal_inj: "decimal n = decimal m \<Longrightarrow> n = m"
proof (induction n arbitrary: m rule: decimal.induct)
  case (1 n)
  show ?case
  proof (cases "n < 10")
    case True
    note n = this
    show ?thesis
    proof (cases "m < 10")
      case True
      then have "digit_char n = digit_char m" using n 1(2) by (simp add: decimal_small)
      then show ?thesis using n True by (rule digit_char_inj [rotated 2])
    next
      case False
      then have "decimal m = decimal (m div 10) @ [digit_char (m mod 10)]"
        by (rule decimal_large)
      then have "length (decimal m) \<ge> 2"
        using decimal_nonempty [of "m div 10"] by (cases "decimal (m div 10)") simp_all
      moreover have "length (decimal n) = 1" using n by (simp add: decimal_small)
      ultimately show ?thesis using 1(2) by simp
    qed
  next
    case False
    note n = this
    have dn: "decimal n = decimal (n div 10) @ [digit_char (n mod 10)]"
      using n by (rule decimal_large)
    show ?thesis
    proof (cases "m < 10")
      case True
      have "length (decimal n) \<ge> 2"
        using dn decimal_nonempty [of "n div 10"] by (cases "decimal (n div 10)") simp_all
      moreover have "length (decimal m) = 1" using True by (simp add: decimal_small)
      ultimately show ?thesis using 1(2) by simp
    next
      case False
      then have dm: "decimal m = decimal (m div 10) @ [digit_char (m mod 10)]"
        by (rule decimal_large)
      from dn dm 1(2) have "decimal (n div 10) = decimal (m div 10)"
        and "digit_char (n mod 10) = digit_char (m mod 10)" by simp_all
      then have "n div 10 = m div 10" and "n mod 10 = m mod 10"
        using 1(1) [OF n] digit_char_inj [of "n mod 10" "m mod 10"] by simp_all
      then have "n div 10 * 10 + n mod 10 = m div 10 * 10 + m mod 10" by simp
      then show ?thesis by (simp only: div_mult_mod_eq)
    qed
  qed
qed

lemma uint64_to_string_inj: "uint64_to_string a = uint64_to_string b \<Longrightarrow> a = b"
proof -
  assume "uint64_to_string a = uint64_to_string b"
  then have "unat a = unat b" by (simp add: uint64_to_string_def decimal_inj)
  then show "a = b" by (simp add: word_unat_eq_iff)
qed

lemma int64_to_string_inj: "int64_to_string a = int64_to_string b \<Longrightarrow> a = b"
proof -
  assume e: "int64_to_string a = int64_to_string b"
  have hd_dec: "hd (decimal n) \<noteq> CHR ''-''" for n
  proof -
    have "hd (decimal n) \<in> set (decimal n)" using decimal_nonempty by (rule hd_in_set)
    then show ?thesis using decimal_chars by blast
  qed
  have "sint a = sint b"
  proof (cases "sint a < 0")
    case True
    note a = this
    show ?thesis
    proof (cases "sint b < 0")
      case True
      then have "decimal (nat (- sint a)) = decimal (nat (- sint b))"
        using a e by (simp add: int64_to_string_def)
      then have "nat (- sint a) = nat (- sint b)" by (rule decimal_inj)
      then show ?thesis using a True by simp
    next
      case False
      then have "CHR ''-'' # decimal (nat (- sint a)) = decimal (nat (sint b))"
        using a e by (simp add: int64_to_string_def)
      then have "hd (decimal (nat (sint b))) = hd (CHR ''-'' # decimal (nat (- sint a)))" by simp
      then have "hd (decimal (nat (sint b))) = CHR ''-''" by simp
      then show ?thesis using hd_dec by simp
    qed
  next
    case False
    note a = this
    show ?thesis
    proof (cases "sint b < 0")
      case True
      then have "CHR ''-'' # decimal (nat (- sint b)) = decimal (nat (sint a))"
        using a e by (simp add: int64_to_string_def)
      then have "hd (decimal (nat (sint a))) = hd (CHR ''-'' # decimal (nat (- sint b)))" by simp
      then have "hd (decimal (nat (sint a))) = CHR ''-''" by simp
      then show ?thesis using hd_dec by simp
    next
      case False
      then have "decimal (nat (sint a)) = decimal (nat (sint b))"
        using a e by (simp add: int64_to_string_def)
      then have "nat (sint a) = nat (sint b)" by (rule decimal_inj)
      then show ?thesis using a False by simp
    qed
  qed
  then have "(word_of_int (sint a) :: int64) = word_of_int (sint b)" by simp
  then show "a = b" by simp
qed

lemma uint64_to_string_chars: "\<forall>c \<in> set (uint64_to_string w). number_char c"
  using decimal_chars by (simp add: uint64_to_string_def)

lemma minus_number_char: "number_char CHR ''-''"
  by (simp add: number_char_def)

lemma int64_to_string_chars: "\<forall>c \<in> set (int64_to_string w). number_char c"
  using decimal_chars by (simp add: int64_to_string_def minus_number_char)

lemma int64_to_string_nonempty: "int64_to_string w \<noteq> []"
  using decimal_nonempty by (simp add: int64_to_string_def)

text \<open>Two strings that end in a run of number characters after a separator.\<close>
lemma number_run_split:
  assumes "xs @ c # a = ys @ d # b"
    and "\<forall>x \<in> set a. number_char x" "\<forall>x \<in> set b. number_char x"
    and "\<not> number_char c" "\<not> number_char d"
  shows "xs = ys \<and> c = d \<and> a = b"
  using assms
proof (induction a arbitrary: b rule: rev_induct)
  case Nil
  then show ?case
  proof (cases b rule: rev_cases)
    case Nil
    then show ?thesis using Nil.prems by simp
  next
    case (snoc b' z)
    then have "xs @ [c] = (ys @ d # b') @ [z]" using Nil.prems(1) by simp
    then have "c = z" by simp
    then show ?thesis using Nil.prems snoc by simp
  qed
next
  case (snoc z a')
  show ?case
  proof (cases b rule: rev_cases)
    case Nil
    then have "(xs @ c # a') @ [z] = ys @ [d]" using snoc.prems(1) by simp
    then have "z = d" by simp
    then show ?thesis using snoc.prems by simp
  next
    case (snoc b' z')
    then have "(xs @ c # a') @ [z] = (ys @ d # b') @ [z']" using snoc.prems(1) by simp
    then have "xs @ c # a' = ys @ d # b'" and "z = z'" by simp_all
    then show ?thesis using snoc.IH [of b'] snoc.prems snoc by simp
  qed
qed

lemma not_number_chars:
  "\<not> number_char CHR ''_''" "\<not> number_char CHR '';''" "\<not> number_char CHR '':''"
  "\<not> number_char CHR ''a''" "\<not> number_char CHR ''s''" "\<not> number_char CHR ''e''"
  by (simp_all add: number_char_def)

lemma last_number_char:
  assumes "\<forall>c \<in> set a. number_char c" "a \<noteq> []"
  shows "number_char (last (xs @ a))"
  using assms by simp

lemma GetSliceRendezvousKey_inj:
  assumes "GetSliceRendezvousKey p1 s1 (fi1 :: FrameAndIter) = GetSliceRendezvousKey p2 s2 fi2"
  shows "p1 @ s1 = p2 @ s2 \<and> fi1 = fi2"
proof -
  let ?U1 = "uint64_to_string (frame_id fi1)" and ?U2 = "uint64_to_string (frame_id fi2)"
  let ?I1 = "int64_to_string (iter_id fi1)" and ?I2 = "int64_to_string (iter_id fi2)"
  have "(p1 @ s1 @ CHR '';'' # ?U1) @ CHR '':'' # ?I1 = (p2 @ s2 @ CHR '';'' # ?U2) @ CHR '':'' # ?I2"
    using assms by (simp add: GetSliceRendezvousKey_def)
  then have a: "p1 @ s1 @ CHR '';'' # ?U1 = p2 @ s2 @ CHR '';'' # ?U2" and i: "?I1 = ?I2"
    using number_run_split [OF _ int64_to_string_chars int64_to_string_chars not_number_chars(3) not_number_chars(3)]
    by blast+
  from a have "(p1 @ s1) @ CHR '';'' # ?U1 = (p2 @ s2) @ CHR '';'' # ?U2" by simp
  then have b: "p1 @ s1 = p2 @ s2" and u: "?U1 = ?U2"
    using number_run_split [OF _ uint64_to_string_chars uint64_to_string_chars not_number_chars(2) not_number_chars(2)]
    by blast+
  have "frame_id fi1 = frame_id fi2" using u by (rule uint64_to_string_inj)
  moreover have "iter_id fi1 = iter_id fi2" using i by (rule int64_to_string_inj)
  ultimately have "fi1 = fi2" by simp
  then show ?thesis using b by simp
qed

lemma data_suffix_split:
  assumes "p1 @ ''_slice_transfer_data_'' @ int64_to_string i = p2 @ ''_slice_transfer_data_'' @ int64_to_string j"
  shows "p1 = p2 \<and> i = j"
proof -
  have "(p1 @ ''_slice_transfer_data'') @ CHR ''_'' # int64_to_string i =
        (p2 @ ''_slice_transfer_data'') @ CHR ''_'' # int64_to_string j"
    using assms by simp
  then have "p1 @ ''_slice_transfer_data'' = p2 @ ''_slice_transfer_data''"
    and "int64_to_string i = int64_to_string j"
    using number_run_split [OF _ int64_to_string_chars int64_to_string_chars not_number_chars(1) not_number_chars(1)]
    by blast+
  then show ?thesis using int64_to_string_inj by simp
qed

lemma data_ends_in_number:
  "number_char (last (p @ ''_slice_transfer_data_'' @ int64_to_string i))"
  using int64_to_string_chars [of i] int64_to_string_nonempty [of i] by simp

lemma rev_fixed_suffix:
  "rev (phase_suffix TransferData) = ''atad_refsnart_''"
  "rev (phase_suffix TotalBytesPhase) = ''setyblatot_refsnart_ecils_''"
  "rev (phase_suffix ShapePhase) = ''epahs_refsnart_ecils_''"
  "rev (phase_suffix ElementsSizePhase) = ''ezis_stnemele_refsnart_ecils_''"
  by simp_all

lemma fixed_suffix_last:
  "fixed_phase ph \<Longrightarrow> \<not> number_char (last (p @ phase_suffix ph))"
  by (cases ph) (simp_all add: fixed_phase_def not_number_chars)

lemma indexed_suffix_last:
  "\<not> fixed_phase ph \<Longrightarrow> number_char (last (p @ phase_suffix ph))"
proof (cases ph)
  case (DataPhase i)
  then show ?thesis using data_ends_in_number [of p i] by simp
next
  case (DataSlicePhase i j)
  then show ?thesis
    using int64_to_string_chars [of j] int64_to_string_nonempty [of j] by simp
qed (simp_all add: fixed_phase_def)

lemma fixed_suffix_inj:
  assumes "fixed_phase ph1" "fixed_phase ph2"
    and "p1 @ phase_suffix ph1 = p2 @ phase_suffix ph2"
  shows "p1 = p2 \<and> ph1 = ph2"
proof -
  have rv: "rev (phase_suffix ph1) @ rev p1 = rev (phase_suffix ph2) @ rev p2"
    using arg_cong [OF assms(3), of rev] by (simp only: rev_append)
  show ?thesis
  proof (cases ph1)
    case TransferData
    then show ?thesis using rv assms(2)
      by (cases ph2) (simp_all add: rev_fixed_suffix fixed_phase_def del: phase_suffix.simps)
  next
    case TotalBytesPhase
    then show ?thesis using rv assms(2)
      by (cases ph2) (simp_all add: rev_fixed_suffix fixed_phase_def del: phase_suffix.simps)
  next
    case ShapePhase
    then show ?thesis using rv assms(2)
      by (cases ph2) (simp_all add: rev_fixed_suffix fixed_phase_def del: phase_suffix.simps)
  next
    case ElementsSizePhase
    then show ?thesis using rv assms(2)
      by (cases ph2) (simp_all add: rev_fixed_suffix fixed_phase_def del: phase_suffix.simps)
  qed (use assms(1) in \<open>simp_all add: fixed_phase_def\<close>)
qed

lemma data_slice_suffix_differ:
  assumes e: "q1 @ phase_suffix (DataPhase a) = q2 @ phase_suffix (DataSlicePhase b c)"
  shows False
proof -
  have "(q1 @ ''_slice_transfer_data'') @ CHR ''_'' # int64_to_string a =
        (q2 @ ''_slice_transfer_data_'' @ int64_to_string b) @ CHR ''_'' # int64_to_string c"
    using e by simp
  then have "q1 @ ''_slice_transfer_data'' = q2 @ ''_slice_transfer_data_'' @ int64_to_string b"
    using number_run_split [OF _ int64_to_string_chars int64_to_string_chars
        not_number_chars(1) not_number_chars(1)]
    by blast
  then have "last (q1 @ ''_slice_transfer_data'') =
             last (q2 @ ''_slice_transfer_data_'' @ int64_to_string b)"
    by (rule arg_cong)
  moreover have "last (q1 @ ''_slice_transfer_data'') = CHR ''a''" by simp
  ultimately have "number_char CHR ''a''" using data_ends_in_number [of q2 b] by simp
  then show False using not_number_chars(4) by simp
qed

lemma slice_suffix_inj:
  assumes e: "p1 @ phase_suffix (DataSlicePhase a c) = p2 @ phase_suffix (DataSlicePhase b d)"
  shows "p1 = p2 \<and> a = b \<and> c = d"
proof -
  have "(p1 @ ''_slice_transfer_data_'' @ int64_to_string a) @ CHR ''_'' # int64_to_string c =
        (p2 @ ''_slice_transfer_data_'' @ int64_to_string b) @ CHR ''_'' # int64_to_string d"
    using e by simp
  then have "p1 @ ''_slice_transfer_data_'' @ int64_to_string a =
             p2 @ ''_slice_transfer_data_'' @ int64_to_string b"
    and "int64_to_string c = int64_to_string d"
    using number_run_split [OF _ int64_to_string_chars int64_to_string_chars
        not_number_chars(1) not_number_chars(1)]
    by blast+
  then show ?thesis using data_suffix_split [of p1 a p2 b] int64_to_string_inj [of c d] by simp
qed

lemma phase_suffix_inj:
  assumes "p1 @ phase_suffix ph1 = p2 @ phase_suffix ph2"
  shows "p1 = p2 \<and> ph1 = ph2"
proof (cases "fixed_phase ph1")
  case True
  note f1 = this
  show ?thesis
  proof (cases "fixed_phase ph2")
    case True
    show ?thesis using f1 True assms by (rule fixed_suffix_inj)
  next
    case False
    then have "number_char (last (p2 @ phase_suffix ph2))" by (rule indexed_suffix_last)
    then show ?thesis using fixed_suffix_last [OF f1, of p1] assms by simp
  qed
next
  case False
  note f1 = this
  show ?thesis
  proof (cases "fixed_phase ph2")
    case True
    then have "\<not> number_char (last (p2 @ phase_suffix ph2))" by (rule fixed_suffix_last)
    then show ?thesis using indexed_suffix_last [OF f1, of p1] assms by simp
  next
    case False
    obtain a c where ph1: "ph1 = DataPhase a \<or> ph1 = DataSlicePhase a c"
      using f1 by (cases ph1) (simp_all add: fixed_phase_def)
    obtain b d where ph2: "ph2 = DataPhase b \<or> ph2 = DataSlicePhase b d"
      using False by (cases ph2) (simp_all add: fixed_phase_def)
    from ph1 ph2 show ?thesis
    proof (elim disjE)
      assume "ph1 = DataPhase a" "ph2 = DataPhase b"
      then show ?thesis using data_suffix_split [of p1 a p2 b] assms by simp
    next
      assume "ph1 = DataPhase a" "ph2 = DataSlicePhase b d"
      then show ?thesis using data_slice_suffix_differ [of p1 a p2 b d] assms by simp
    next
      assume "ph1 = DataSlicePhase a c" "ph2 = DataPhase b"
      then show ?thesis using data_slice_suffix_differ [of p2 b p1 a c] assms by simp
    next
      assume "ph1 = DataSlicePhase a c" "ph2 = DataSlicePhase b d"
      then show ?thesis using slice_suffix_inj [of p1 a c p2 b d] assms by simp
    qed
  qed
qed

lemma decimal_0: "decimal 0 = ''0''"
  by (simp add: decimal_small digit_char_def)

lemma decimal_1: "decimal (Suc 0) = ''1''"
  by (simp add: decimal_small digit_char_def)

lemma decimal_2: "decimal 2 = ''2''"
  by (simp add: decimal_small digit_char_def)

lemma decimal_3: "decimal 3 = ''3''"
  by (simp add: decimal_small digit_char_def)

lemma decimal_7: "decimal 7 = ''7''"
  by (simp add: decimal_small digit_char_def)

lemma decimal_11: "decimal 11 = ''11''"
  by (simp add: decimal_large decimal_small digit_char_def)

lemmas decimal_digits = decimal_0 decimal_1 decimal_2 decimal_3 decimal_7 decimal_11

lemma number_strings:
  "int64_to_string 0 = ''0''" "int64_to_string 1 = ''1''" "int64_to_string 2 = ''2''"
  "int64_to_string 11 = ''11''" "uint64_to_string 0 = ''0''" "uint64_to_string 7 = ''7''"
  by (simp_all add: int64_to_string_def uint64_to_string_def decimal_digits)

lemma phase_key_eq:
  fixes fi1 fi2 :: FrameAndIter
  assumes "phase_key p1 fi1 ph1 = phase_key p2 fi2 ph2"
  shows "p1 = p2 \<and> ph1 = ph2 \<and> fi1 = fi2"
  using GetSliceRendezvousKey_inj [of p1 "phase_suffix ph1" fi1 p2 "phase_suffix ph2" fi2]
    phase_suffix_inj [of p1 ph1 p2 ph2] assms
  by (simp add: phase_key_def del: phase_suffix.simps)

section \<open>The claims about the keys\<close>

text \<open>
  C7. Two full keys built from distinct tuples of key prefix, phase, frame id and
  iteration id are different strings, whatever the prefix is; in particular the keys of
  the phases of one transfer instance are pairwise distinct.
\<close>

theorem rendezvous_key_injective:
  fixes fi1 fi2 :: FrameAndIter
  shows "((p1, ph1, fi1) \<noteq> (p2, ph2, fi2) \<longrightarrow> phase_key p1 fi1 ph1 \<noteq> phase_key p2 fi2 ph2) \<and>
         (ph1 \<noteq> ph2 \<longrightarrow> phase_key p1 fi1 ph1 \<noteq> phase_key p1 fi1 ph2)"
  using phase_key_eq [of p1 fi1 ph1 p2 fi2 ph2] phase_key_eq [of p1 fi1 ph1 p1 fi1 ph2]
  by blast

theorem rendezvous_key_injective_witness:
  "(''/job:a;1;/job:b;edge'', DataPhase 11, \<lparr>frame_id = 7, iter_id = 2\<rparr>) \<noteq>
     (''/job:a;1;/job:b;edge'', DataSlicePhase 1 1, \<lparr>frame_id = 7, iter_id = 2\<rparr>) \<and>
   DataPhase 11 \<noteq> DataSlicePhase 1 1 \<and>
   phase_key ''/job:a;1;/job:b;edge'' \<lparr>frame_id = 7, iter_id = 2\<rparr> (DataPhase 11) =
     ''/job:a;1;/job:b;edge_slice_transfer_data_11;7:2'' \<and>
   phase_key ''/job:a;1;/job:b;edge'' \<lparr>frame_id = 7, iter_id = 2\<rparr> (DataSlicePhase 1 1) =
     ''/job:a;1;/job:b;edge_slice_transfer_data_1_1;7:2'' \<and>
   phase_key ''/job:a;1;/job:b;edge'' \<lparr>frame_id = 7, iter_id = 2\<rparr> (DataPhase 11) \<noteq>
     phase_key ''/job:a;1;/job:b;edge'' \<lparr>frame_id = 7, iter_id = 2\<rparr> (DataSlicePhase 1 1)"
  using rendezvous_key_injective [of "''/job:a;1;/job:b;edge''" "DataPhase 11"
      "\<lparr>frame_id = 7, iter_id = 2\<rparr>" "''/job:a;1;/job:b;edge''" "DataSlicePhase 1 1"
      "\<lparr>frame_id = 7, iter_id = 2\<rparr>"]
  by (simp add: phase_key_def GetSliceRendezvousKey_def number_strings)

section \<open>What the kernels send and consume\<close>

lemma sends_into_refl: "sends_into K d r r"
  by (simp add: sends_into_def)

lemma sends_into_trans:
  assumes "sends_into K d r1 r2" "sends_into K d r2 r3"
  shows "sends_into K d r1 r3"
proof -
  have "\<exists>new. table r3 key = table r1 key @ new \<and> (new \<noteq> [] \<longrightarrow> K key) \<and>
        (\<forall>m \<in> set new. snd m = d)" for key
  proof -
    obtain n1 where n1: "table r2 key = table r1 key @ n1" "n1 \<noteq> [] \<longrightarrow> K key" "\<forall>m \<in> set n1. snd m = d"
      using assms(1) unfolding sends_into_def by blast
    obtain n2 where n2: "table r3 key = table r2 key @ n2" "n2 \<noteq> [] \<longrightarrow> K key" "\<forall>m \<in> set n2. snd m = d"
      using assms(2) unfolding sends_into_def by blast
    show ?thesis using n1 n2 by (intro exI [of _ "n1 @ n2"]) auto
  qed
  then show ?thesis using assms by (simp add: sends_into_def)
qed

lemma sends_into_mono: "sends_into K d r r' \<Longrightarrow> (\<And>k. K k \<Longrightarrow> K' k) \<Longrightarrow> sends_into K' d r r'"
  unfolding sends_into_def by blast

lemma send_under_Inr:
  assumes "send_under p r key val d = Inr r'"
  shows "key_accepted p key \<and> aborted r = None \<and>
         r' = r\<lparr>table := (table r)(key := table r key @ [(val, d)])\<rparr>"
  using assms
  by (auto simp add: send_under_def TF_RETURN_IF_ERROR_def ParseKey_def Send_def
      split: if_splits option.splits)

lemma send_under_sends_into:
  assumes "send_under p r key val d = Inr r'" "K key"
  shows "sends_into K d r r'"
  using send_under_Inr [OF assms(1)] assms(2) by (simp add: sends_into_def)

lemma for_loop_preserves:
  assumes step: "\<And>i s s'. i \<in> set l \<Longrightarrow> body i s = Inr s' \<Longrightarrow> R s s'"
    and refl: "\<And>s. R s s"
    and trans: "\<And>a b c. R a b \<Longrightarrow> R b c \<Longrightarrow> R a c"
  shows "for_loop l body s = Inr s' \<Longrightarrow> R s s'"
  using step
proof (induction l arbitrary: s)
  case Nil
  then show ?case using refl by simp
next
  case (Cons i l)
  from Cons.prems(1) obtain s1 where s1: "body i s = Inr s1" "for_loop l body s1 = Inr s'"
    by (auto split: sum.splits)
  have "R s s1" using Cons.prems(2) [of i s s1] s1(1) by simp
  moreover have "R s1 s'"
  proof (rule Cons.IH [OF s1(2)])
    fix j a b
    assume "j \<in> set l" "body j a = Inr b"
    then show "R a b" using Cons.prems(2) [of j a b] by simp
  qed
  ultimately show ?case by (rule trans)
qed

lemma TF_Inr:
  "TF_RETURN_IF_ERROR x f = Inr y \<longleftrightarrow> (\<exists>v. x = Inr v \<and> f v = Inr y)"
  by (cases x) (simp_all add: TF_RETURN_IF_ERROR_def)

lemma phase_keys:
  "is_phase_key pre fi (GetSliceRendezvousKey pre ''_transfer_data'' fi)"
  "is_phase_key pre fi (GetSliceRendezvousKey pre ''_slice_transfer_totalbytes'' fi)"
  "is_phase_key pre fi (GetSliceRendezvousKey pre ''_slice_transfer_shape'' fi)"
  "is_phase_key pre fi (GetSliceRendezvousKey pre ''_slice_transfer_elements_size'' fi)"
  "is_phase_key pre fi (GetSliceRendezvousKey pre (''_slice_transfer_data_'' @ int64_to_string i) fi)"
  "is_phase_key pre fi (GetSliceRendezvousKey pre
     (''_slice_transfer_data_'' @ int64_to_string i @ ''_'' @ int64_to_string j) fi)"
proof -
  show "is_phase_key pre fi (GetSliceRendezvousKey pre ''_transfer_data'' fi)"
    unfolding is_phase_key_def phase_key_def by (rule exI [of _ TransferData]) simp
  show "is_phase_key pre fi (GetSliceRendezvousKey pre ''_slice_transfer_totalbytes'' fi)"
    unfolding is_phase_key_def phase_key_def by (rule exI [of _ TotalBytesPhase]) simp
  show "is_phase_key pre fi (GetSliceRendezvousKey pre ''_slice_transfer_shape'' fi)"
    unfolding is_phase_key_def phase_key_def by (rule exI [of _ ShapePhase]) simp
  show "is_phase_key pre fi (GetSliceRendezvousKey pre ''_slice_transfer_elements_size'' fi)"
    unfolding is_phase_key_def phase_key_def by (rule exI [of _ ElementsSizePhase]) simp
  show "is_phase_key pre fi (GetSliceRendezvousKey pre (''_slice_transfer_data_'' @ int64_to_string i) fi)"
    unfolding is_phase_key_def phase_key_def by (rule exI [of _ "DataPhase i"]) simp
  show "is_phase_key pre fi (GetSliceRendezvousKey pre
     (''_slice_transfer_data_'' @ int64_to_string i @ ''_'' @ int64_to_string j) fi)"
    unfolding is_phase_key_def phase_key_def by (rule exI [of _ "DataSlicePhase i j"]) simp
qed

lemmas phase_keys_simplified = phase_keys [simplified]

lemma SendStringSlice_sends_into:
  assumes "SendStringSlice p op ctx fi elem index r = Inr r'"
  shows "sends_into (is_phase_key (op_key_prefix op) fi) (is_input_dead ctx) r r'"
proof -
  obtain n where loop: "for_loop (loop_indices n)
            (\<lambda>i r.
               let (start, copy_size) =
                     SendStringSlice_slice (of_nat (length elem)) (op_slice_size op) i
               in TF_RETURN_IF_ERROR (substr elem start copy_size)
                    (\<lambda>piece.
                       let data_t = tstring_scalar_tensor piece;
                           tensor_name_suffix =
                             ''_slice_transfer_data_'' @ int64_to_string index @ ''_'' @
                             int64_to_string (of_nat i);
                           key = GetSliceRendezvousKey (op_key_prefix op) tensor_name_suffix fi
                       in send_under p r key data_t (is_input_dead ctx)))
            r = Inr r'"
    using assms by (auto simp add: SendStringSlice_def TF_Inr)
  show ?thesis
  proof (rule for_loop_preserves [OF _ _ _ loop])
    fix i s s'
    assume "(let (start, copy_size) =
                     SendStringSlice_slice (of_nat (length elem)) (op_slice_size op) i
               in TF_RETURN_IF_ERROR (substr elem start copy_size)
                    (\<lambda>piece.
                       let data_t = tstring_scalar_tensor piece;
                           tensor_name_suffix =
                             ''_slice_transfer_data_'' @ int64_to_string index @ ''_'' @
                             int64_to_string (of_nat i);
                           key = GetSliceRendezvousKey (op_key_prefix op) tensor_name_suffix fi
                       in send_under p s key data_t (is_input_dead ctx))) = Inr s'"
    then show "sends_into (is_phase_key (op_key_prefix op) fi) (is_input_dead ctx) s s'"
      by (auto simp add: Let_def TF_Inr split: prod.splits
          intro!: send_under_sends_into phase_keys_simplified)
  qed (auto intro: sends_into_refl sends_into_trans)
qed


lemma SendString_sends_into:
  assumes "SendString p op ctx fi input_t r = Inr r'"
  shows "sends_into (is_phase_key (op_key_prefix op) fi) (is_input_dead ctx) r r'"
proof -
  let ?K = "is_phase_key (op_key_prefix op) fi" and ?d = "is_input_dead ctx"
  obtain input_flat r1 where
    first: "send_under p r (GetSliceRendezvousKey (op_key_prefix op) ''_slice_transfer_elements_size'' fi)
              (int64_tensor (shape input_t)
                 (map (\<lambda>i. of_nat (length (input_flat ! i)))
                    (loop_indices (of_nat (NumElements input_t))))) ?d = Inr r1"
    and loop: "for_loop (loop_indices (of_nat (NumElements input_t)))
                 (\<lambda>i r.
                    TF_RETURN_IF_ERROR (element_at input_flat i)
                      (\<lambda>elem.
                         if (of_nat (length elem) :: size_t) \<le> op_slice_size op
                         then
                           let data_t = tstring_scalar_tensor elem;
                               tensor_name_suffix =
                                 ''_slice_transfer_data_'' @ int64_to_string (of_nat i);
                               key = GetSliceRendezvousKey (op_key_prefix op)
                                       tensor_name_suffix fi
                           in send_under p r key data_t ?d
                         else SendStringSlice p op ctx fi elem (of_nat i) r))
                 r1 = Inr r'"
    using assms by (auto simp add: SendString_def TF_Inr Let_def)
  have a: "sends_into ?K ?d r r1"
    using first by (rule send_under_sends_into) (rule phase_keys)
  have b: "sends_into ?K ?d r1 r'"
  proof (rule for_loop_preserves [OF _ _ _ loop])
    fix i s s'
    assume "TF_RETURN_IF_ERROR (element_at input_flat i)
                      (\<lambda>elem.
                         if (of_nat (length elem) :: size_t) \<le> op_slice_size op
                         then
                           let data_t = tstring_scalar_tensor elem;
                               tensor_name_suffix =
                                 ''_slice_transfer_data_'' @ int64_to_string (of_nat i);
                               key = GetSliceRendezvousKey (op_key_prefix op)
                                       tensor_name_suffix fi
                           in send_under p s key data_t ?d
                         else SendStringSlice p op ctx fi elem (of_nat i) s) = Inr s'"
    then obtain elem where body:
      "(if (of_nat (length elem) :: size_t) \<le> op_slice_size op
        then send_under p s
               (GetSliceRendezvousKey (op_key_prefix op)
                  (''_slice_transfer_data_'' @ int64_to_string (of_nat i)) fi)
               (tstring_scalar_tensor elem) ?d
        else SendStringSlice p op ctx fi elem (of_nat i) s) = Inr s'"
      unfolding Let_def TF_Inr by blast
    show "sends_into ?K ?d s s'"
    proof (cases "(of_nat (length elem) :: size_t) \<le> op_slice_size op")
      case True
      then have "send_under p s
               (GetSliceRendezvousKey (op_key_prefix op)
                  (''_slice_transfer_data_'' @ int64_to_string (of_nat i)) fi)
               (tstring_scalar_tensor elem) ?d = Inr s'"
        using body by simp
      then show ?thesis by (rule send_under_sends_into) (rule phase_keys)
    next
      case False
      then have "SendStringSlice p op ctx fi elem (of_nat i) s = Inr s'" using body by simp
      then show ?thesis by (rule SendStringSlice_sends_into)
    qed
  qed (auto intro: sends_into_refl sends_into_trans)
  show ?thesis using a b by (rule sends_into_trans)
qed

lemma SendBasicType_sends_into:
  assumes "SendBasicType p op ctx fi input_t r = Inr r'"
  shows "sends_into (is_phase_key (op_key_prefix op) fi) (is_input_dead ctx) r r'"
proof -
  let ?K = "is_phase_key (op_key_prefix op) fi" and ?d = "is_input_dead ctx"
  obtain n input_base where
    loop: "for_loop (loop_indices n)
             (\<lambda>i r.
                let (start, copy_size) =
                      SendBasicType_slice (TotalBytes (sizeof_tstring p) input_t) (op_slice_size op) i
                in if sint copy_size < 0 then Inl CheckFailed
                   else
                     TF_RETURN_IF_ERROR (read_bytes input_base start copy_size)
                       (\<lambda>copied.
                          let data_t = int8_tensor copied;
                              tensor_name_suffix =
                                ''_slice_transfer_data_'' @ int64_to_string (of_nat i);
                              key = GetSliceRendezvousKey (op_key_prefix op)
                                      tensor_name_suffix fi
                          in send_under p r key data_t ?d))
             r = Inr r'"
    using assms by (auto simp add: SendBasicType_def TF_Inr Let_def)
  show ?thesis
  proof (rule for_loop_preserves [OF _ _ _ loop])
    fix i s s'
    assume "(let (start, copy_size) =
                      SendBasicType_slice (TotalBytes (sizeof_tstring p) input_t) (op_slice_size op) i
                in if sint copy_size < 0 then Inl CheckFailed
                   else
                     TF_RETURN_IF_ERROR (read_bytes input_base start copy_size)
                       (\<lambda>copied.
                          let data_t = int8_tensor copied;
                              tensor_name_suffix =
                                ''_slice_transfer_data_'' @ int64_to_string (of_nat i);
                              key = GetSliceRendezvousKey (op_key_prefix op)
                                      tensor_name_suffix fi
                          in send_under p s key data_t ?d)) = Inr s'"
    then show "sends_into ?K ?d s s'"
      by (auto simp add: Let_def TF_Inr split: if_splits prod.splits
          intro!: send_under_sends_into phase_keys_simplified)
  qed (auto intro: sends_into_refl sends_into_trans)
qed

lemma SendShape_sends_into:
  assumes "SendShape p op ctx fi input_t r = Inr r'"
  shows "sends_into (is_phase_key (op_key_prefix op) fi) (is_input_dead ctx) r r'"
  using assms
  by (auto simp add: SendShape_def Let_def intro!: send_under_sends_into phase_keys)

lemma SendTotalBytes_sends_into:
  assumes "SendTotalBytes p op ctx fi input_t r = Inr r'"
  shows "sends_into ((=) (phase_key (op_key_prefix op) fi TotalBytesPhase)) (is_input_dead ctx) r r'"
  using assms
  by (auto simp add: SendTotalBytes_def Let_def phase_key_def intro!: send_under_sends_into)


lemma SliceSendOp_Compute_dead:
  assumes "ctx_rendezvous ctx = Some r" "is_input_dead ctx"
  shows "SliceSendOp_Compute p op ctx =
           send_under p r
             (phase_key (op_key_prefix op) (GetFrameAndIter ctx (op_hostmem_sendrecv op))
                TotalBytesPhase)
             (int64_scalar_tensor (TotalBytes (sizeof_tstring p) (ctx_input ctx))) True"
  using assms
  by (cases "send_under p r
             (phase_key (op_key_prefix op) (GetFrameAndIter ctx (op_hostmem_sendrecv op))
                TotalBytesPhase)
             (int64_scalar_tensor (TotalBytes (sizeof_tstring p) (ctx_input ctx))) True")
    (simp_all add: SliceSendOp_Compute_def SendTotalBytes_def Let_def TF_RETURN_IF_ERROR_def
      phase_key_def)

lemma SliceSendOp_Compute_sends_into:
  assumes r: "ctx_rendezvous ctx = Some r" and c: "SliceSendOp_Compute p op ctx = Inr r'"
  shows "sends_into (is_phase_key (op_key_prefix op) (GetFrameAndIter ctx (op_hostmem_sendrecv op)))
           (is_input_dead ctx) r r'"
    and "is_input_dead ctx \<Longrightarrow>
         sends_into ((=) (phase_key (op_key_prefix op)
                            (GetFrameAndIter ctx (op_hostmem_sendrecv op)) TotalBytesPhase))
           (is_input_dead ctx) r r'"
proof -
  let ?fi = "GetFrameAndIter ctx (op_hostmem_sendrecv op)"
  let ?K = "is_phase_key (op_key_prefix op) ?fi" and ?d = "is_input_dead ctx"
  let ?tb = "phase_key (op_key_prefix op) ?fi TotalBytesPhase"
  obtain r1 where tb: "SendTotalBytes p op ctx ?fi (ctx_input ctx) r = Inr r1"
    and rest: "(if ?d then Inr r1
                else if TotalBytes (sizeof_tstring p) (ctx_input ctx) \<le> op_slice_size op
                then send_under p r1 (GetSliceRendezvousKey (op_key_prefix op) ''_transfer_data'' ?fi)
                       (ctx_input ctx) ?d
                else TF_RETURN_IF_ERROR (SendShape p op ctx ?fi (ctx_input ctx) r1)
                       (\<lambda>r. if op_dtype op = DT_STRING
                            then SendString p op ctx ?fi (ctx_input ctx) r
                            else SendBasicType p op ctx ?fi (ctx_input ctx) r)) = Inr r'"
    using c unfolding SliceSendOp_Compute_def Let_def r option.case TF_Inr by blast
  have first: "sends_into ((=) ?tb) ?d r r1" using tb by (rule SendTotalBytes_sends_into)
  have first': "sends_into ?K ?d r r1"
    using first by (rule sends_into_mono) (auto simp add: is_phase_key_def)
  show "?d \<Longrightarrow> sends_into ((=) ?tb) ?d r r'" using rest first by simp
  show "sends_into ?K ?d r r'"
  proof (cases ?d)
    case True
    then show ?thesis using rest first' by simp
  next
    case False
    note live = this
    show ?thesis
    proof (cases "TotalBytes (sizeof_tstring p) (ctx_input ctx) \<le> op_slice_size op")
      case True
      then have "send_under p r1 (GetSliceRendezvousKey (op_key_prefix op) ''_transfer_data'' ?fi)
                       (ctx_input ctx) ?d = Inr r'"
        using rest live by simp
      then have "sends_into ?K ?d r1 r'" by (rule send_under_sends_into) (rule phase_keys)
      then show ?thesis using first' sends_into_trans by blast
    next
      case False
      then have "TF_RETURN_IF_ERROR (SendShape p op ctx ?fi (ctx_input ctx) r1)
                       (\<lambda>r. if op_dtype op = DT_STRING
                            then SendString p op ctx ?fi (ctx_input ctx) r
                            else SendBasicType p op ctx ?fi (ctx_input ctx) r) = Inr r'"
        using rest live by simp
      then obtain r2 where sh: "SendShape p op ctx ?fi (ctx_input ctx) r1 = Inr r2"
        and dat: "(if op_dtype op = DT_STRING
                   then SendString p op ctx ?fi (ctx_input ctx) r2
                   else SendBasicType p op ctx ?fi (ctx_input ctx) r2) = Inr r'"
        unfolding TF_Inr by blast
      have "sends_into ?K ?d r1 r2" using sh by (rule SendShape_sends_into)
      moreover have "sends_into ?K ?d r2 r'"
        using dat SendString_sends_into SendBasicType_sends_into by (auto split: if_splits)
      ultimately show ?thesis using first' sends_into_trans by blast
    qed
  qed
qed

lemma consumes_from_refl: "consumes_from K r r"
  by (simp add: consumes_from_def)

lemma consumes_from_trans:
  assumes "consumes_from K r1 r2" "consumes_from K r2 r3"
  shows "consumes_from K r1 r3"
proof -
  have "\<exists>old. table r1 key = old @ table r3 key \<and> (old \<noteq> [] \<longrightarrow> K key) \<and>
        (\<forall>m \<in> set old. \<not> snd m)" for key
  proof -
    obtain o1 where o1: "table r1 key = o1 @ table r2 key" "o1 \<noteq> [] \<longrightarrow> K key" "\<forall>m \<in> set o1. \<not> snd m"
      using assms(1) unfolding consumes_from_def by blast
    obtain o2 where o2: "table r2 key = o2 @ table r3 key" "o2 \<noteq> [] \<longrightarrow> K key" "\<forall>m \<in> set o2. \<not> snd m"
      using assms(2) unfolding consumes_from_def by blast
    show ?thesis using o1 o2 by (intro exI [of _ "o1 @ o2"]) auto
  qed
  then show ?thesis using assms by (simp add: consumes_from_def)
qed

lemma recv_under_Inr:
  assumes "recv_under p r key = Inr (m, r')"
  shows "key_accepted p key \<and> aborted r = None \<and>
         (\<exists>ms. table r key = m # ms \<and> r' = r\<lparr>table := (table r)(key := ms)\<rparr>)"
  using assms
  by (auto simp add: recv_under_def TF_RETURN_IF_ERROR_def ParseKey_def Recv_def
      split: if_splits option.splits list.splits)

lemma recv_live_Inr:
  assumes "recv_live p r key = Inr (t, r')"
  shows "recv_under p r key = Inr ((t, False), r')"
  using assms
  by (auto simp add: recv_live_def TF_Inr CHECK_not_dead_def split: if_splits)

lemma recv_live_consumes:
  assumes "recv_live p r key = Inr (t, r')" "K key"
  shows "consumes_from K r r'"
proof -
  obtain ms where ms: "table r key = (t, False) # ms" "r' = r\<lparr>table := (table r)(key := ms)\<rparr>"
    using recv_under_Inr [OF recv_live_Inr [OF assms(1)]] by auto
  have "\<exists>old. table r k = old @ table r' k \<and> (old \<noteq> [] \<longrightarrow> K k) \<and> (\<forall>m \<in> set old. \<not> snd m)" for k
  proof (cases "k = key")
    case True
    then show ?thesis using ms assms(2) by (intro exI [of _ "[(t, False)]"]) simp
  next
    case False
    then show ?thesis using ms by (intro exI [of _ "[]"]) simp
  qed
  then show ?thesis using ms by (simp add: consumes_from_def)
qed

lemma recv_live_dead:
  assumes "key_accepted p key" "aborted r = None" "table r key = (t, True) # ms"
  shows "recv_live p r key = Inl CheckFailed"
  using assms
  by (simp add: recv_live_def recv_under_def TF_RETURN_IF_ERROR_def ParseKey_def Recv_def
      CHECK_not_dead_def)

lemma TF_Inr_pair:
  "TF_RETURN_IF_ERROR x (case_prod f) = Inr y \<longleftrightarrow> (\<exists>a b. x = Inr (a, b) \<and> f a b = Inr y)"
  by (cases x) (auto simp add: TF_RETURN_IF_ERROR_def)

lemma RecvShape_consumes:
  assumes "RecvShape p op fi r = Inr (dims, r')"
  shows "consumes_from (is_phase_key (op_key_prefix op) fi) r r'"
proof -
  obtain t where "recv_live p r (GetSliceRendezvousKey (op_key_prefix op) ''_slice_transfer_shape'' fi) = Inr (t, r')"
    using assms unfolding RecvShape_def Let_def TF_Inr split_paired_Ex prod.case by auto
  then show ?thesis by (rule recv_live_consumes) (rule phase_keys)
qed

lemma RecvStringSlice_consumes:
  assumes "RecvStringSlice p op fi index element_size (out, r) = Inr (out', r')"
  shows "consumes_from (is_phase_key (op_key_prefix op) fi) r r'"
proof -
  let ?K = "is_phase_key (op_key_prefix op) fi"
  let ?body = "(\<lambda>i (output_flat, r).
               let tensor_name_suffix =
                     ''_slice_transfer_data_'' @ int64_to_string index @ ''_'' @
                     int64_to_string (of_nat i);
                   key = GetSliceRendezvousKey (op_key_prefix op) tensor_name_suffix fi
               in TF_RETURN_IF_ERROR (recv_live p r key)
                    (\<lambda>(data_t, r).
                       TF_RETURN_IF_ERROR (scalar_tstring data_t)
                         (\<lambda>piece.
                            TF_RETURN_IF_ERROR
                              (update_at output_flat index (\<lambda>x. x @ piece))
                              (\<lambda>output_flat. Inr (output_flat, r)))))"
  obtain n where loop: "for_loop (loop_indices n) ?body (out, r) = Inr (out', r')"
    using assms unfolding RecvStringSlice_def TF_Inr by blast
  have "pair_consumes ?K (out, r) (out', r')"
  proof (rule for_loop_preserves [OF _ _ _ loop])
    fix i and s s' :: "string list \<times> rendezvous"
    assume a: "?body i s = Inr s'"
    obtain o1 r1 where s: "s = (o1, r1)" by (cases s)
    obtain o2 r2 where s': "s' = (o2, r2)" by (cases s')
    from a obtain t where "recv_live p r1 (GetSliceRendezvousKey (op_key_prefix op)
         (''_slice_transfer_data_'' @ int64_to_string index @ ''_'' @ int64_to_string (of_nat i)) fi)
         = Inr (t, r2)"
      unfolding s s' Let_def prod.case TF_Inr split_paired_Ex by auto
    then have "consumes_from ?K r1 r2" by (rule recv_live_consumes) (rule phase_keys)
    then show "pair_consumes ?K s s'" by (simp add: pair_consumes_def s s')
  next
    fix s :: "string list \<times> rendezvous"
    show "pair_consumes ?K s s" by (simp add: pair_consumes_def consumes_from_refl)
  next
    fix a b c :: "string list \<times> rendezvous"
    assume "pair_consumes ?K a b" "pair_consumes ?K b c"
    then show "pair_consumes ?K a c" unfolding pair_consumes_def by (rule consumes_from_trans)
  qed
  then show ?thesis by (simp add: pair_consumes_def)
qed


lemma pair_consumes_refl: "pair_consumes K s s"
  by (simp add: pair_consumes_def consumes_from_refl)

lemma pair_consumes_trans: "pair_consumes K a b \<Longrightarrow> pair_consumes K b c \<Longrightarrow> pair_consumes K a c"
  unfolding pair_consumes_def by (rule consumes_from_trans)

lemma RecvString_consumes:
  assumes "RecvString p op fi dims output_t r = Inr (out, r')"
  shows "consumes_from (is_phase_key (op_key_prefix op) fi) r r'"
proof -
  let ?K = "is_phase_key (op_key_prefix op) fi"
  let ?body = "\<lambda>elements_size_flat. (\<lambda>i (output_flat, r).
                 TF_RETURN_IF_ERROR (element_at elements_size_flat i)
                   (\<lambda>element_size.
                      if sint element_size \<le> sint (op_slice_size op)
                      then
                        let tensor_name_suffix =
                              ''_slice_transfer_data_'' @ int64_to_string (of_nat i);
                            key = GetSliceRendezvousKey (op_key_prefix op) tensor_name_suffix fi
                        in TF_RETURN_IF_ERROR (recv_live p r key)
                             (\<lambda>(data_t, r).
                                TF_RETURN_IF_ERROR (scalar_tstring data_t)
                                  (\<lambda>x.
                                     TF_RETURN_IF_ERROR
                                       (update_at output_flat (of_nat i) (\<lambda>_. x))
                                       (\<lambda>output_flat. Inr (output_flat, r))))
                      else RecvStringSlice p op fi (of_nat i) element_size (output_flat, r)))"
  obtain t r1 esf ofl ofl' where
    first: "recv_live p r (GetSliceRendezvousKey (op_key_prefix op) ''_slice_transfer_elements_size'' fi) = Inr (t, r1)"
    and loop: "for_loop (loop_indices (of_nat (prod_list dims))) (?body esf) (ofl, r1) = Inr (ofl', r')"
    using assms unfolding RecvString_def Let_def TF_Inr split_paired_Ex prod.case by auto
  have a: "consumes_from ?K r r1" using first by (rule recv_live_consumes) (rule phase_keys)
  have "pair_consumes ?K (ofl, r1) (ofl', r')"
  proof (rule for_loop_preserves [OF _ pair_consumes_refl pair_consumes_trans loop])
    fix i and s s' :: "string list \<times> rendezvous"
    assume b: "?body esf i s = Inr s'"
    obtain o1 r1 where s: "s = (o1, r1)" by (cases s)
    obtain o2 r2 where s': "s' = (o2, r2)" by (cases s')
    from b obtain element_size where body:
      "(if sint element_size \<le> sint (op_slice_size op)
        then TF_RETURN_IF_ERROR
               (recv_live p r1 (GetSliceRendezvousKey (op_key_prefix op)
                  (''_slice_transfer_data_'' @ int64_to_string (of_nat i)) fi))
               (\<lambda>(data_t, r).
                  TF_RETURN_IF_ERROR (scalar_tstring data_t)
                    (\<lambda>x. TF_RETURN_IF_ERROR (update_at o1 (of_nat i) (\<lambda>_. x))
                           (\<lambda>output_flat. Inr (output_flat, r))))
        else RecvStringSlice p op fi (of_nat i) element_size (o1, r1)) = Inr (o2, r2)"
      unfolding s s' prod.case Let_def TF_Inr by blast
    have "consumes_from ?K r1 r2"
    proof (cases "sint element_size \<le> sint (op_slice_size op)")
      case True
      then obtain t where "recv_live p r1 (GetSliceRendezvousKey (op_key_prefix op)
                  (''_slice_transfer_data_'' @ int64_to_string (of_nat i)) fi) = Inr (t, r2)"
        using body by (auto simp add: TF_Inr)
      then show ?thesis by (rule recv_live_consumes) (rule phase_keys)
    next
      case False
      then show ?thesis using body RecvStringSlice_consumes by auto
    qed
    then show "pair_consumes ?K s s'" by (simp add: pair_consumes_def s s')
  qed
  then have "consumes_from ?K r1 r'" by (simp add: pair_consumes_def)
  then show ?thesis using a consumes_from_trans by blast
qed

lemma RecvBasicType_consumes:
  assumes "RecvBasicType p op fi total_bytes output_t r = Inr (out, r')"
  shows "consumes_from (is_phase_key (op_key_prefix op) fi) r r'"
proof -
  let ?K = "is_phase_key (op_key_prefix op) fi"
  let ?body = "(\<lambda>i (output_base, r).
                 let (start, copy_size) = RecvBasicType_slice total_bytes (op_slice_size op) i;
                     tensor_name_suffix = ''_slice_transfer_data_'' @ int64_to_string (of_nat i);
                     key = GetSliceRendezvousKey (op_key_prefix op) tensor_name_suffix fi
                 in TF_RETURN_IF_ERROR (recv_live p r key)
                      (\<lambda>(data_t, r).
                         TF_RETURN_IF_ERROR (data data_t)
                           (\<lambda>data_base.
                              TF_RETURN_IF_ERROR
                                (write_bytes output_base start data_base copy_size)
                                (\<lambda>output_base. Inr (output_base, r)))))"
  obtain n ob ob' where
    loop: "for_loop (loop_indices n) ?body (ob, r) = Inr (ob', r')"
    using assms unfolding RecvBasicType_def Let_def TF_Inr split_paired_Ex prod.case by auto
  have "pair_consumes ?K (ob, r) (ob', r')"
  proof (rule for_loop_preserves [OF _ pair_consumes_refl pair_consumes_trans loop])
    fix i and s s' :: "byte list \<times> rendezvous"
    assume b: "?body i s = Inr s'"
    obtain o1 r1 where s: "s = (o1, r1)" by (cases s)
    obtain o2 r2 where s': "s' = (o2, r2)" by (cases s')
    from b obtain t where "recv_live p r1 (GetSliceRendezvousKey (op_key_prefix op)
                  (''_slice_transfer_data_'' @ int64_to_string (of_nat i)) fi) = Inr (t, r2)"
      unfolding s s' by (auto simp add: Let_def TF_Inr split: prod.splits)
    then have "consumes_from ?K r1 r2" by (rule recv_live_consumes) (rule phase_keys)
    then show "pair_consumes ?K s s'" by (simp add: pair_consumes_def s s')
  qed
  then show ?thesis by (simp add: pair_consumes_def)
qed

lemma SliceRecvOp_Compute_consumes:
  assumes r: "ctx_rendezvous ctx = Some r" and c: "SliceRecvOp_Compute p op ctx = Inr (out, r')"
  shows "\<exists>t is_dead r1.
           recv_under p r (phase_key (op_key_prefix op)
                             (GetFrameAndIter ctx (op_hostmem_sendrecv op)) TotalBytesPhase)
             = Inr ((t, is_dead), r1) \<and>
           (is_dead \<longrightarrow> out = None \<and> r' = r1) \<and>
           (\<not> is_dead \<longrightarrow>
              consumes_from (is_phase_key (op_key_prefix op)
                               (GetFrameAndIter ctx (op_hostmem_sendrecv op))) r1 r')"
proof -
  let ?fi = "GetFrameAndIter ctx (op_hostmem_sendrecv op)"
  let ?K = "is_phase_key (op_key_prefix op) ?fi"
  obtain is_dead total_bytes r1 where
    tb: "RecvTotalBytes p op ?fi r = Inr ((is_dead, total_bytes), r1)"
    and rest: "(if is_dead then Inr (None, r1)
                else if sint total_bytes \<le> sint (op_slice_size op)
                then TF_RETURN_IF_ERROR
                       (recv_live p r1 (GetSliceRendezvousKey (op_key_prefix op) ''_transfer_data'' ?fi))
                       (\<lambda>(data_t, r). Inr (Some data_t, r))
                else TF_RETURN_IF_ERROR (RecvShape p op ?fi r1)
                       (\<lambda>(dims, r).
                          let output_t = allocate_output (op_dtype op) dims
                          in if op_dtype op = DT_STRING
                             then TF_RETURN_IF_ERROR (RecvString p op ?fi dims output_t r)
                                    (\<lambda>(output_t, r). Inr (Some output_t, r))
                             else TF_RETURN_IF_ERROR
                                    (RecvBasicType p op ?fi total_bytes output_t r)
                                    (\<lambda>(output_t, r). Inr (Some output_t, r)))) = Inr (out, r')"
    using c unfolding SliceRecvOp_Compute_def Let_def r option.case TF_Inr split_paired_Ex prod.case
    by blast
  obtain t where first: "recv_under p r (phase_key (op_key_prefix op) ?fi TotalBytesPhase) = Inr ((t, is_dead), r1)"
    using tb unfolding RecvTotalBytes_def Let_def phase_key_def
    by (auto simp add: TF_Inr split: if_splits)
  have dead: "out = None \<and> r' = r1" if is_dead using rest that by simp
  have live: "consumes_from ?K r1 r'" if "\<not> is_dead"
  proof (cases "sint total_bytes \<le> sint (op_slice_size op)")
    case True
    then have "TF_RETURN_IF_ERROR
                 (recv_live p r1 (GetSliceRendezvousKey (op_key_prefix op) ''_transfer_data'' ?fi))
                 (\<lambda>(data_t, r). Inr (Some data_t, r)) = Inr (out, r')"
      using rest that by simp
    then obtain t where "recv_live p r1 (GetSliceRendezvousKey (op_key_prefix op) ''_transfer_data'' ?fi) = Inr (t, r')"
      by (auto simp add: TF_Inr)
    then show ?thesis by (rule recv_live_consumes) (rule phase_keys)
  next
    case False
    then have "TF_RETURN_IF_ERROR (RecvShape p op ?fi r1)
                       (\<lambda>(dims, r).
                          let output_t = allocate_output (op_dtype op) dims
                          in if op_dtype op = DT_STRING
                             then TF_RETURN_IF_ERROR (RecvString p op ?fi dims output_t r)
                                    (\<lambda>(output_t, r). Inr (Some output_t, r))
                             else TF_RETURN_IF_ERROR
                                    (RecvBasicType p op ?fi total_bytes output_t r)
                                    (\<lambda>(output_t, r). Inr (Some output_t, r))) = Inr (out, r')"
      using rest that by simp
    then obtain dims r2 where sh: "RecvShape p op ?fi r1 = Inr (dims, r2)"
      and dat: "(if op_dtype op = DT_STRING
                 then TF_RETURN_IF_ERROR (RecvString p op ?fi dims (allocate_output (op_dtype op) dims) r2)
                                    (\<lambda>(output_t, r). Inr (Some output_t, r))
                 else TF_RETURN_IF_ERROR
                                    (RecvBasicType p op ?fi total_bytes (allocate_output (op_dtype op) dims) r2)
                                    (\<lambda>(output_t, r). Inr (Some output_t, r))) = Inr (out, r')"
      unfolding TF_Inr split_paired_Ex prod.case Let_def by blast
    have a: "consumes_from ?K r1 r2" using sh by (rule RecvShape_consumes)
    have b: "consumes_from ?K r2 r'"
    proof (cases "op_dtype op = DT_STRING")
      case True
      then obtain o' where "RecvString p op ?fi dims (allocate_output (op_dtype op) dims) r2 = Inr (o', r')"
        using dat by (auto simp add: TF_Inr)
      then show ?thesis by (rule RecvString_consumes)
    next
      case False
      then obtain o' where "RecvBasicType p op ?fi total_bytes (allocate_output (op_dtype op) dims) r2 = Inr (o', r')"
        using dat by (auto simp add: TF_Inr)
      then show ?thesis by (rule RecvBasicType_consumes)
    qed
    show ?thesis using a b by (rule consumes_from_trans)
  qed
  show ?thesis using first dead live by blast
qed

section \<open>Tensors of 64-bit integers\<close>

lemma bytes_nat_nat_bytes: "bytes_nat (nat_bytes n x) = x mod 256 ^ n"
proof (induction n arbitrary: x)
  case 0
  then show ?case by simp
next
  case (Suc n)
  have "unat (of_nat (x mod 256) :: byte) = x mod 256"
    by (simp add: unat_of_nat)
  then have "bytes_nat (nat_bytes (Suc n) x) = x mod 256 + 256 * (x div 256 mod 256 ^ n)"
    using Suc.IH [of "x div 256"] by simp
  also have "\<dots> = x mod (256 * 256 ^ n)"
    by (simp add: mod_mult2_eq)
  finally show ?case by simp
qed

lemma length_nat_bytes: "length (nat_bytes n x) = n"
  by (induction n arbitrary: x) simp_all

lemma length_int64_bytes: "length (int64_bytes w) = 8"
  by (simp add: int64_bytes_def length_nat_bytes)

lemma bytes_int64_int64_bytes: "bytes_int64 (int64_bytes w) = w"
proof -
  have "unat w < 2 ^ 64" using unsigned_less [of w] by simp
  then have "unat w mod 256 ^ 8 = unat w" by simp
  then show ?thesis by (simp add: bytes_int64_def int64_bytes_def bytes_nat_nat_bytes)
qed

lemma int64_bytes_eight:
  "\<exists>b0 b1 b2 b3 b4 b5 b6 b7. int64_bytes w = [b0, b1, b2, b3, b4, b5, b6, b7]"
proof -
  have "length (int64_bytes w) = Suc (Suc (Suc (Suc (Suc (Suc (Suc (Suc 0)))))))"
    by (simp add: length_int64_bytes)
  then show ?thesis by (auto simp add: length_Suc_conv)
qed

lemma int64_elements_encoded: "int64_elements (concat (map int64_bytes vs)) = vs"
proof (induction vs)
  case Nil
  then show ?case by simp
next
  case (Cons v vs)
  obtain b0 b1 b2 b3 b4 b5 b6 b7 where b: "int64_bytes v = [b0, b1, b2, b3, b4, b5, b6, b7]"
    using int64_bytes_eight by blast
  have "bytes_int64 [b0, b1, b2, b3, b4, b5, b6, b7] = v"
    using bytes_int64_int64_bytes [of v] b by simp
  then show ?case using Cons.IH b by simp
qed

lemma length_encoded: "length (concat (map int64_bytes vs)) = 8 * length vs"
  by (induction vs) (simp_all add: length_int64_bytes)

lemma scalar_int64_tensor: "scalar_int64 (int64_scalar_tensor v) = Inr v"
  by (simp add: scalar_int64_def int64_scalar_tensor_def length_int64_bytes bytes_int64_int64_bytes)

lemma vec_int64_tensor: "vec_int64 (int64_tensor [length vs] vs) = Inr vs"
  by (simp add: vec_int64_def int64_tensor_def NumElements_def length_encoded int64_elements_encoded)

lemma flat_int64_tensor:
  "prod_list dims = length vs \<Longrightarrow> flat_int64 (int64_tensor dims vs) = Inr vs"
  by (simp add: flat_int64_def int64_tensor_def NumElements_def length_encoded int64_elements_encoded)

lemma scalar_tstring_tensor: "scalar_tstring (tstring_scalar_tensor x) = Inr x"
  by (simp add: scalar_tstring_def tstring_scalar_tensor_def)

lemma data_int8_tensor: "data (int8_tensor bs) = Inr bs"
  by (simp add: data_def int8_tensor_def)

lemma send_under_ok:
  assumes "key_accepted p key" "aborted r = None"
  shows "send_under p r key val d = Inr (r\<lparr>table := (table r)(key := table r key @ [(val, d)])\<rparr>)"
  using assms by (simp add: send_under_def TF_RETURN_IF_ERROR_def ParseKey_def Send_def)

lemma recv_under_ok:
  assumes "key_accepted p key" "aborted r = None" "table r key = m # ms"
  shows "recv_under p r key = Inr (m, r\<lparr>table := (table r)(key := ms)\<rparr>)"
  using assms by (simp add: recv_under_def TF_RETURN_IF_ERROR_def ParseKey_def Recv_def)

lemma recv_live_ok:
  assumes "key_accepted p key" "aborted r = None" "table r key = (t, False) # ms"
  shows "recv_live p r key = Inr (t, r\<lparr>table := (table r)(key := ms)\<rparr>)"
  using recv_under_ok [OF assms]
  by (simp add: recv_live_def TF_RETURN_IF_ERROR_def CHECK_not_dead_def)

lemma SliceRecvOp_Compute_dead:
  assumes "ctx_rendezvous ctx = Some r"
    and "key_accepted p (phase_key (op_key_prefix op) (GetFrameAndIter ctx (op_hostmem_sendrecv op)) TotalBytesPhase)"
    and "aborted r = None"
    and "table r (phase_key (op_key_prefix op) (GetFrameAndIter ctx (op_hostmem_sendrecv op)) TotalBytesPhase) = (t, True) # ms"
  shows "SliceRecvOp_Compute p op ctx =
           Inr (None, r\<lparr>table := (table r)
             (phase_key (op_key_prefix op) (GetFrameAndIter ctx (op_hostmem_sendrecv op)) TotalBytesPhase := ms)\<rparr>)"
proof -
  let ?fi = "GetFrameAndIter ctx (op_hostmem_sendrecv op)"
  have "recv_under p r (GetSliceRendezvousKey (op_key_prefix op) ''_slice_transfer_totalbytes'' ?fi) =
        Inr ((t, True), r\<lparr>table := (table r)(phase_key (op_key_prefix op) ?fi TotalBytesPhase := ms)\<rparr>)"
    using recv_under_ok [OF assms(2,3,4)] by (simp add: phase_key_def)
  then have "RecvTotalBytes p op ?fi r =
        Inr ((True, 0), r\<lparr>table := (table r)(phase_key (op_key_prefix op) ?fi TotalBytesPhase := ms)\<rparr>)"
    unfolding RecvTotalBytes_def Let_def by (simp add: TF_RETURN_IF_ERROR_def)
  then show ?thesis
    unfolding SliceRecvOp_Compute_def Let_def assms(1) option.case
    by (simp add: TF_RETURN_IF_ERROR_def)
qed

section \<open>The claims about the phases\<close>

text \<open>
  C4. When its input is dead, \<^verbatim>\<open>SliceSendOp::Compute\<close> is the single send of the
  total-bytes message, with the dead flag set: when it succeeds, the rendezvous holds
  that one message more and nothing else. When the message at the total-bytes key is
  dead, \<^verbatim>\<open>SliceRecvOp::Compute\<close> takes that message, sets no output and returns; no
  other channel is read.
\<close>

theorem dead_input_short_circuit:
  "(ctx_rendezvous ctx = Some r \<and> is_input_dead ctx \<longrightarrow>
      SliceSendOp_Compute p sop ctx =
        send_under p r
          (phase_key (op_key_prefix sop) (GetFrameAndIter ctx (op_hostmem_sendrecv sop))
             TotalBytesPhase)
          (int64_scalar_tensor (TotalBytes (sizeof_tstring p) (ctx_input ctx))) True \<and>
      (key_accepted p (phase_key (op_key_prefix sop)
                         (GetFrameAndIter ctx (op_hostmem_sendrecv sop)) TotalBytesPhase) \<and>
       aborted r = None \<longrightarrow>
         SliceSendOp_Compute p sop ctx =
           Inr (r\<lparr>table := (table r)
             (phase_key (op_key_prefix sop) (GetFrameAndIter ctx (op_hostmem_sendrecv sop))
                TotalBytesPhase :=
              table r (phase_key (op_key_prefix sop)
                         (GetFrameAndIter ctx (op_hostmem_sendrecv sop)) TotalBytesPhase) @
              [(int64_scalar_tensor (TotalBytes (sizeof_tstring p) (ctx_input ctx)), True)])\<rparr>))) \<and>
   (ctx_rendezvous rctx = Some r' \<and> aborted r' = None \<and>
    key_accepted p (phase_key (op_key_prefix rop)
                      (GetFrameAndIter rctx (op_hostmem_sendrecv rop)) TotalBytesPhase) \<and>
    table r' (phase_key (op_key_prefix rop)
                (GetFrameAndIter rctx (op_hostmem_sendrecv rop)) TotalBytesPhase) =
      (t, True) # ms \<longrightarrow>
      SliceRecvOp_Compute p rop rctx =
        Inr (None, r'\<lparr>table := (table r')
          (phase_key (op_key_prefix rop) (GetFrameAndIter rctx (op_hostmem_sendrecv rop))
             TotalBytesPhase := ms)\<rparr>))"
  using SliceSendOp_Compute_dead [of ctx r p sop] SliceRecvOp_Compute_dead [of rctx r' p rop t ms]
    send_under_ok [of p "phase_key (op_key_prefix sop)
        (GetFrameAndIter ctx (op_hostmem_sendrecv sop)) TotalBytesPhase" r]
  by simp


lemma example_facts:
  "GetFrameAndIter (example_ctx r t d) (op_hostmem_sendrecv (example_send_op S T)) = \<lparr>frame_id = 0, iter_id = 0\<rparr>"
  "GetFrameAndIter (example_ctx r t d) (op_hostmem_sendrecv (example_recv_op S T)) = \<lparr>frame_id = 0, iter_id = 0\<rparr>"
  "op_key_prefix (example_recv_op S T) = op_key_prefix (example_send_op S T)"
  "op_slice_size (example_send_op S T) = S" "op_slice_size (example_recv_op S T) = S"
  "op_dtype (example_send_op S T) = T" "op_dtype (example_recv_op S T) = T"
  "key_accepted example_platform key"
  "sizeof_tstring example_platform = 24"
  "ctx_rendezvous (example_ctx r t d) = Some r"
  "ctx_input (example_ctx r t d) = t"
  "is_input_dead (example_ctx r t d) = d"
  "aborted NewLocalRendezvous = None"
  "table NewLocalRendezvous key = []"
  by (simp_all add: GetFrameAndIter_def example_ctx_def example_send_op_def example_recv_op_def
      SliceSendOp_init_def SliceRecvOp_init_def example_platform_def NewLocalRendezvous_def)

lemma example_total_bytes:
  "TotalBytes 24 example_bytes = 3"
  by (simp add: TotalBytes_def example_bytes_def)

theorem dead_input_short_circuit_witness:
  "ctx_rendezvous (example_ctx NewLocalRendezvous example_bytes True) = Some NewLocalRendezvous \<and>
   is_input_dead (example_ctx NewLocalRendezvous example_bytes True) \<and>
   aborted NewLocalRendezvous = None \<and>
   key_accepted example_platform
     (phase_key (op_key_prefix (example_send_op 2 DT_INT8)) \<lparr>frame_id = 0, iter_id = 0\<rparr>
        TotalBytesPhase) \<and>
   SliceSendOp_Compute example_platform (example_send_op 2 DT_INT8)
     (example_ctx NewLocalRendezvous example_bytes True) =
     Inr (NewLocalRendezvous\<lparr>table := (table NewLocalRendezvous)
       (phase_key (op_key_prefix (example_send_op 2 DT_INT8)) \<lparr>frame_id = 0, iter_id = 0\<rparr>
          TotalBytesPhase := [(int64_scalar_tensor 3, True)])\<rparr>) \<and>
   SliceRecvOp_Compute example_platform (example_recv_op 2 DT_INT8)
     (example_ctx
        (NewLocalRendezvous\<lparr>table := (table NewLocalRendezvous)
           (phase_key (op_key_prefix (example_send_op 2 DT_INT8)) \<lparr>frame_id = 0, iter_id = 0\<rparr>
              TotalBytesPhase := [(int64_scalar_tensor 3, True)])\<rparr>)
        example_bytes False) =
     Inr (None, NewLocalRendezvous\<lparr>table := (table NewLocalRendezvous)
       (phase_key (op_key_prefix (example_send_op 2 DT_INT8)) \<lparr>frame_id = 0, iter_id = 0\<rparr>
          TotalBytesPhase := [])\<rparr>)"
  using dead_input_short_circuit [of "example_ctx NewLocalRendezvous example_bytes True"
      NewLocalRendezvous example_platform "example_send_op 2 DT_INT8"
      "example_ctx
        (NewLocalRendezvous\<lparr>table := (table NewLocalRendezvous)
           (phase_key (op_key_prefix (example_send_op 2 DT_INT8)) \<lparr>frame_id = 0, iter_id = 0\<rparr>
              TotalBytesPhase := [(int64_scalar_tensor 3, True)])\<rparr>)
        example_bytes False"
      "NewLocalRendezvous\<lparr>table := (table NewLocalRendezvous)
           (phase_key (op_key_prefix (example_send_op 2 DT_INT8)) \<lparr>frame_id = 0, iter_id = 0\<rparr>
              TotalBytesPhase := [(int64_scalar_tensor 3, True)])\<rparr>"
      "example_recv_op 2 DT_INT8" "int64_scalar_tensor 3" "[]"]
  by (simp add: example_facts example_total_bytes send_under_ok)

lemma sint64_eq_uint:
  fixes w :: int64
  assumes "uint w < 2 ^ 63"
  shows "sint w = uint w"
proof -
  have "0 \<le> uint w" by simp
  then have "sint (word_of_int (uint w) :: int64) = uint w"
    using assms by (intro sint64_of_int) linarith+
  then show ?thesis by simp
qed

lemma small_total_bytes:
  fixes N S :: "64 word"
  assumes "int (unat N) \<le> sint S"
  shows "N \<le> S" and "sint N \<le> sint S" and "sint N = int (unat N)"
proof -
  have "0 \<le> int (unat N)" by simp
  then have S0: "0 \<le> sint S" using assms by linarith
  have SU: "sint S = uint S" using S0 by (rule sint64_nonneg_uint)
  have "uint N \<le> sint S" using assms by simp
  then have "uint N < 2 ^ 63" using sint64_range(2) [of S] by simp
  then have NU: "sint N = uint N" by (rule sint64_eq_uint)
  show "sint N = int (unat N)" using NU by simp
  show "sint N \<le> sint S" using NU assms by simp
  show "N \<le> S" using assms SU by (simp add: word_le_def)
qed

lemma GetFrameAndIter_rendezvous [simp]:
  "GetFrameAndIter (ctx\<lparr>ctx_rendezvous := x\<rparr>) h = GetFrameAndIter ctx h"
  by (simp add: GetFrameAndIter_def split: option.split)

lemma fast_path_transfer:
  assumes live: "\<not> is_input_dead ctx" and r: "ctx_rendezvous ctx = Some r"
    and ok: "aborted r = None"
    and acc: "key_accepted p (phase_key (op_key_prefix sop) (GetFrameAndIter ctx (op_hostmem_sendrecv sop)) TotalBytesPhase)"
             "key_accepted p (phase_key (op_key_prefix sop) (GetFrameAndIter ctx (op_hostmem_sendrecv sop)) TransferData)"
    and small: "int (unat (TotalBytes (sizeof_tstring p) (ctx_input ctx))) \<le> sint (op_slice_size sop)"
    and mirror: "op_key_prefix rop = op_key_prefix sop" "op_slice_size rop = op_slice_size sop"
                "op_hostmem_sendrecv rop = op_hostmem_sendrecv sop"
  shows "SliceSendOp_Compute p sop ctx =
           Inr (r\<lparr>table := (table r)
             (phase_key (op_key_prefix sop) (GetFrameAndIter ctx (op_hostmem_sendrecv sop)) TotalBytesPhase :=
                table r (phase_key (op_key_prefix sop) (GetFrameAndIter ctx (op_hostmem_sendrecv sop)) TotalBytesPhase) @
                [(int64_scalar_tensor (TotalBytes (sizeof_tstring p) (ctx_input ctx)), False)],
              phase_key (op_key_prefix sop) (GetFrameAndIter ctx (op_hostmem_sendrecv sop)) TransferData :=
                table r (phase_key (op_key_prefix sop) (GetFrameAndIter ctx (op_hostmem_sendrecv sop)) TransferData) @
                [(ctx_input ctx, False)])\<rparr>) \<and>
         (table r (phase_key (op_key_prefix sop) (GetFrameAndIter ctx (op_hostmem_sendrecv sop)) TotalBytesPhase) = [] \<and>
          table r (phase_key (op_key_prefix sop) (GetFrameAndIter ctx (op_hostmem_sendrecv sop)) TransferData) = [] \<longrightarrow>
          SliceRecvOp_Compute p rop
            (ctx\<lparr>ctx_rendezvous := Some (r\<lparr>table := (table r)
               (phase_key (op_key_prefix sop) (GetFrameAndIter ctx (op_hostmem_sendrecv sop)) TotalBytesPhase :=
                  [(int64_scalar_tensor (TotalBytes (sizeof_tstring p) (ctx_input ctx)), False)],
                phase_key (op_key_prefix sop) (GetFrameAndIter ctx (op_hostmem_sendrecv sop)) TransferData :=
                  [(ctx_input ctx, False)])\<rparr>)\<rparr>) =
            Inr (Some (ctx_input ctx), r))"
proof -
  let ?fi = "GetFrameAndIter ctx (op_hostmem_sendrecv sop)"
  let ?tb = "phase_key (op_key_prefix sop) ?fi TotalBytesPhase"
  let ?td = "phase_key (op_key_prefix sop) ?fi TransferData"
  let ?N = "TotalBytes (sizeof_tstring p) (ctx_input ctx)"
  let ?m1 = "(int64_scalar_tensor ?N, False)" and ?m2 = "(ctx_input ctx, False)"
  have ne: "?tb \<noteq> ?td" using phase_key_eq [of "op_key_prefix sop" ?fi TotalBytesPhase "op_key_prefix sop" ?fi TransferData] by auto
  have tbk: "GetSliceRendezvousKey (op_key_prefix sop) ''_slice_transfer_totalbytes'' ?fi = ?tb"
    and tdk: "GetSliceRendezvousKey (op_key_prefix sop) ''_transfer_data'' ?fi = ?td"
    by (simp_all add: phase_key_def)
  note cmp = small_total_bytes [OF small]
  let ?r1 = "r\<lparr>table := (table r)(?tb := table r ?tb @ [?m1])\<rparr>"
  have s1: "SendTotalBytes p sop ctx ?fi (ctx_input ctx) r = Inr ?r1"
    unfolding SendTotalBytes_def Let_def tbk using send_under_ok [OF acc(1) ok] live by simp
  have s2: "send_under p ?r1 ?td (ctx_input ctx) False =
              Inr (r\<lparr>table := (table r)(?tb := table r ?tb @ [?m1], ?td := table r ?td @ [?m2])\<rparr>)"
    using send_under_ok [of p ?td ?r1] acc(2) ok ne by simp
  have send: "SliceSendOp_Compute p sop ctx =
      Inr (r\<lparr>table := (table r)(?tb := table r ?tb @ [?m1], ?td := table r ?td @ [?m2])\<rparr>)"
    unfolding SliceSendOp_Compute_def Let_def r option.case tdk
    using s1 s2 live cmp(1) by (simp add: TF_RETURN_IF_ERROR_def)
  have recv: "SliceRecvOp_Compute p rop
            (ctx\<lparr>ctx_rendezvous := Some (r\<lparr>table := (table r)(?tb := [?m1], ?td := [?m2])\<rparr>)\<rparr>) =
            Inr (Some (ctx_input ctx), r)"
    if empty: "table r ?tb = []" "table r ?td = []"
  proof -
    let ?r2 = "r\<lparr>table := (table r)(?tb := [?m1], ?td := [?m2])\<rparr>"
    let ?r3 = "r\<lparr>table := (table r)(?td := [?m2])\<rparr>"
    have "(table r)(?tb := [?m1], ?td := [?m2], ?tb := []) = (table r)(?td := [?m2])"
      using ne empty by (auto simp add: fun_eq_iff)
    then have r1: "recv_under p ?r2 ?tb = Inr (?m1, ?r3)"
      using recv_under_ok [of p ?tb ?r2 ?m1 "[]"] acc(1) ok ne by simp
    have t1: "RecvTotalBytes p rop ?fi ?r2 = Inr ((False, ?N), ?r3)"
      unfolding RecvTotalBytes_def Let_def mirror tbk using r1
      by (simp add: TF_RETURN_IF_ERROR_def scalar_int64_tensor)
    have "(table r)(?td := [?m2], ?td := []) = table r" using empty by (auto simp add: fun_eq_iff)
    then have "r\<lparr>table := (table r)(?td := [?m2], ?td := [])\<rparr> = r" by simp
    then have r2: "recv_live p ?r3 ?td = Inr (ctx_input ctx, r)"
      using recv_live_ok [of p ?td ?r3 "ctx_input ctx" "[]"] acc(2) ok by simp
    show ?thesis
      unfolding SliceRecvOp_Compute_def Let_def
      using t1 r2 cmp(2) by (simp add: mirror tdk TF_RETURN_IF_ERROR_def)
  qed
  show ?thesis using send recv by simp
qed


text \<open>
  C3. When the input is live and its total size is at most the slice size, the sender
  sends the total-bytes message and then the input tensor itself, under the
  \<^verbatim>\<open>_transfer_data\<close> key, and nothing else; the mirrored receiver takes exactly
  these two messages, leaves every channel as it was before the transfer, and its output
  is the tensor that was sent.
\<close>

theorem fast_path:
  assumes live: "\<not> is_input_dead ctx" and r: "ctx_rendezvous ctx = Some r"
    and ok: "aborted r = None"
    and acc: "key_accepted p (phase_key (op_key_prefix sop) (GetFrameAndIter ctx (op_hostmem_sendrecv sop)) TotalBytesPhase)"
             "key_accepted p (phase_key (op_key_prefix sop) (GetFrameAndIter ctx (op_hostmem_sendrecv sop)) TransferData)"
    and small: "int (unat (TotalBytes (sizeof_tstring p) (ctx_input ctx))) \<le> sint (op_slice_size sop)"
    and mirror: "op_key_prefix rop = op_key_prefix sop" "op_slice_size rop = op_slice_size sop"
                "op_hostmem_sendrecv rop = op_hostmem_sendrecv sop"
  shows "SliceSendOp_Compute p sop ctx =
           Inr (r\<lparr>table := (table r)
             (phase_key (op_key_prefix sop) (GetFrameAndIter ctx (op_hostmem_sendrecv sop)) TotalBytesPhase :=
                table r (phase_key (op_key_prefix sop) (GetFrameAndIter ctx (op_hostmem_sendrecv sop)) TotalBytesPhase) @
                [(int64_scalar_tensor (TotalBytes (sizeof_tstring p) (ctx_input ctx)), False)],
              phase_key (op_key_prefix sop) (GetFrameAndIter ctx (op_hostmem_sendrecv sop)) TransferData :=
                table r (phase_key (op_key_prefix sop) (GetFrameAndIter ctx (op_hostmem_sendrecv sop)) TransferData) @
                [(ctx_input ctx, False)])\<rparr>) \<and>
         (table r (phase_key (op_key_prefix sop) (GetFrameAndIter ctx (op_hostmem_sendrecv sop)) TotalBytesPhase) = [] \<and>
          table r (phase_key (op_key_prefix sop) (GetFrameAndIter ctx (op_hostmem_sendrecv sop)) TransferData) = [] \<longrightarrow>
          SliceRecvOp_Compute p rop
            (ctx\<lparr>ctx_rendezvous := Some (r\<lparr>table := (table r)
               (phase_key (op_key_prefix sop) (GetFrameAndIter ctx (op_hostmem_sendrecv sop)) TotalBytesPhase :=
                  [(int64_scalar_tensor (TotalBytes (sizeof_tstring p) (ctx_input ctx)), False)],
                phase_key (op_key_prefix sop) (GetFrameAndIter ctx (op_hostmem_sendrecv sop)) TransferData :=
                  [(ctx_input ctx, False)])\<rparr>)\<rparr>) =
            Inr (Some (ctx_input ctx), r))"
  using fast_path_transfer [OF assms] .

lemma example_more_facts:
  "(example_ctx r t d)\<lparr>ctx_rendezvous := Some r'\<rparr> = example_ctx r' t d"
  "op_hostmem_sendrecv (example_send_op S T) = False"
  "op_hostmem_sendrecv (example_recv_op S T) = False"
  "GetFrameAndIter (example_ctx r t d) h = \<lparr>frame_id = 0, iter_id = 0\<rparr>"
  by (simp_all add: GetFrameAndIter_def example_ctx_def example_send_op_def example_recv_op_def
      SliceSendOp_init_def SliceRecvOp_init_def)

theorem fast_path_witness:
  "\<not> is_input_dead (example_ctx NewLocalRendezvous example_bytes False) \<and>
   ctx_rendezvous (example_ctx NewLocalRendezvous example_bytes False) = Some NewLocalRendezvous \<and>
   aborted NewLocalRendezvous = None \<and>
   key_accepted example_platform
     (phase_key (op_key_prefix (example_send_op 3 DT_INT8)) \<lparr>frame_id = 0, iter_id = 0\<rparr> TotalBytesPhase) \<and>
   key_accepted example_platform
     (phase_key (op_key_prefix (example_send_op 3 DT_INT8)) \<lparr>frame_id = 0, iter_id = 0\<rparr> TransferData) \<and>
   int (unat (TotalBytes (sizeof_tstring example_platform) example_bytes)) \<le> sint (3 :: int64) \<and>
   SliceSendOp_Compute example_platform (example_send_op 3 DT_INT8)
     (example_ctx NewLocalRendezvous example_bytes False) =
     Inr (NewLocalRendezvous\<lparr>table := (table NewLocalRendezvous)
       (phase_key (op_key_prefix (example_send_op 3 DT_INT8)) \<lparr>frame_id = 0, iter_id = 0\<rparr> TotalBytesPhase :=
          [(int64_scalar_tensor 3, False)],
        phase_key (op_key_prefix (example_send_op 3 DT_INT8)) \<lparr>frame_id = 0, iter_id = 0\<rparr> TransferData :=
          [(example_bytes, False)])\<rparr>) \<and>
   SliceRecvOp_Compute example_platform (example_recv_op 3 DT_INT8)
     (example_ctx
        (NewLocalRendezvous\<lparr>table := (table NewLocalRendezvous)
           (phase_key (op_key_prefix (example_send_op 3 DT_INT8)) \<lparr>frame_id = 0, iter_id = 0\<rparr> TotalBytesPhase :=
              [(int64_scalar_tensor 3, False)],
            phase_key (op_key_prefix (example_send_op 3 DT_INT8)) \<lparr>frame_id = 0, iter_id = 0\<rparr> TransferData :=
              [(example_bytes, False)])\<rparr>)
        example_bytes False) =
     Inr (Some example_bytes, NewLocalRendezvous)"
  using fast_path [of "example_ctx NewLocalRendezvous example_bytes False" NewLocalRendezvous
      example_platform "example_send_op 3 DT_INT8" "example_recv_op 3 DT_INT8"]
  by (simp add: example_facts example_more_facts example_total_bytes)

lemma sends_into_changed:
  assumes "sends_into K d r r'" "table r' key \<noteq> table r key"
  shows "K key"
proof -
  obtain new where "table r' key = table r key @ new" "new \<noteq> [] \<longrightarrow> K key"
    using assms(1) unfolding sends_into_def by blast
  then show ?thesis using assms(2) by auto
qed

lemma consumes_from_changed:
  assumes "consumes_from K r r'" "table r' key \<noteq> table r key"
  shows "K key"
proof -
  obtain old where "table r key = old @ table r' key" "old \<noteq> [] \<longrightarrow> K key"
    using assms(1) unfolding consumes_from_def by blast
  then show ?thesis using assms(2) by auto
qed

lemma recv_under_changed:
  assumes "recv_under p r k = Inr (m, r')" "table r' key \<noteq> table r key"
  shows "key = k"
  using recv_under_Inr [OF assms(1)] assms(2) by (auto split: if_splits)

lemma sender_keys:
  assumes "ctx_rendezvous ctx = Some r" "SliceSendOp_Compute p sop ctx = Inr r'"
    and "table r' key \<noteq> table r key"
  shows "is_phase_key (op_key_prefix sop) (GetFrameAndIter ctx (op_hostmem_sendrecv sop)) key"
  using SliceSendOp_Compute_sends_into(1) [OF assms(1,2)] assms(3) by (rule sends_into_changed)

lemma receiver_keys:
  assumes "ctx_rendezvous ctx = Some r" "SliceRecvOp_Compute p rop ctx = Inr (out, r')"
    and "table r' key \<noteq> table r key"
  shows "is_phase_key (op_key_prefix rop) (GetFrameAndIter ctx (op_hostmem_sendrecv rop)) key"
proof -
  let ?fi = "GetFrameAndIter ctx (op_hostmem_sendrecv rop)"
  let ?K = "is_phase_key (op_key_prefix rop) ?fi"
  obtain t is_dead r1 where
    first: "recv_under p r (phase_key (op_key_prefix rop) ?fi TotalBytesPhase) = Inr ((t, is_dead), r1)"
    and dead: "is_dead \<longrightarrow> out = None \<and> r' = r1"
    and live: "\<not> is_dead \<longrightarrow> consumes_from ?K r1 r'"
    using SliceRecvOp_Compute_consumes [OF assms(1,2)] by blast
  have tb: "?K (phase_key (op_key_prefix rop) ?fi TotalBytesPhase)"
    unfolding is_phase_key_def by blast
  show ?thesis
  proof (cases "table r1 key = table r key")
    case True
    then have "table r' key \<noteq> table r1 key" using assms(3) by simp
    then have "\<not> is_dead" using dead by auto
    then have "consumes_from ?K r1 r'" using live by simp
    then show ?thesis using \<open>table r' key \<noteq> table r1 key\<close> by (rule consumes_from_changed)
  next
    case False
    then have "key = phase_key (op_key_prefix rop) ?fi TotalBytesPhase"
      using recv_under_changed [OF first] by simp
    then show ?thesis using tb by simp
  qed
qed

lemma example_fast_run:
  "SliceSendOp_Compute example_platform (example_send_op 3 DT_INT8)
     (example_ctx NewLocalRendezvous example_bytes False) = Inr example_after_send"
  "SliceRecvOp_Compute example_platform (example_recv_op 3 DT_INT8)
     (example_ctx example_after_send example_bytes False) =
   Inr (Some example_bytes, NewLocalRendezvous)"
  using fast_path_transfer [of "example_ctx NewLocalRendezvous example_bytes False"
      NewLocalRendezvous example_platform "example_send_op 3 DT_INT8" "example_recv_op 3 DT_INT8"]
  by (simp_all add: example_facts example_more_facts example_total_bytes example_after_send_def
      example_key_def)

lemma example_key_distinct: "example_key TotalBytesPhase \<noteq> example_key TransferData"
  using phase_key_eq [of _ _ TotalBytesPhase _ _ TransferData] by (auto simp add: example_key_def)

lemma example_key_distinct_shape: "example_key TotalBytesPhase \<noteq> example_key ShapePhase"
  using phase_key_eq [of _ _ TotalBytesPhase _ _ ShapePhase] by (auto simp add: example_key_def)

lemma example_after_send_table:
  "table example_after_send (example_key TransferData) = [(example_bytes, False)]"
  "table example_after_send (example_key TotalBytesPhase) = [(int64_scalar_tensor 3, False)]"
  using example_key_distinct by (simp_all add: example_after_send_def)

lemma example_slice_key:
  "phase_key (GetSliceRendezvousKeyPrefix ''/job:ps/replica:0/task:0/device:CPU:0''
       ''/job:worker/replica:0/task:0/device:CPU:0'' 1 ''edge_5_x'')
     \<lparr>frame_id = 7, iter_id = 2\<rparr> (DataSlicePhase 2 11) =
   ''/job:ps/replica:0/task:0/device:CPU:0;1;/job:worker/replica:0/task:0/device:CPU:0;edge_5_x_slice_transfer_data_2_11;7:2''"
  by (simp add: phase_key_def GetSliceRendezvousKey_def GetSliceRendezvousKeyPrefix_def
      FpToString_def number_strings uint64_to_string_def decimal_digits)

lemma RecvShape_dead:
  assumes "key_accepted p (phase_key (op_key_prefix rop) fi ShapePhase)" "aborted q = None"
    and "table q (phase_key (op_key_prefix rop) fi ShapePhase) = (t, True) # ms"
  shows "RecvShape p rop fi q = Inl CheckFailed"
  using recv_live_dead [OF assms]
  by (simp add: RecvShape_def Let_def phase_key_def TF_RETURN_IF_ERROR_def)

lemma loop_indices_Cons:
  "0 < sint n \<Longrightarrow> loop_indices n = 0 # [1..<nat (sint n)]"
  by (simp add: loop_indices_def upt_conv_Cons)

lemma RecvStringSlice_dead:
  assumes n: "RecvStringSlice_slice_num element_size (op_slice_size rop) = Inr n" "0 < sint n"
    and acc: "key_accepted p (phase_key (op_key_prefix rop) fi (DataSlicePhase index 0))"
      "aborted q = None"
    and dead: "table q (phase_key (op_key_prefix rop) fi (DataSlicePhase index 0)) = (t, True) # ms"
  shows "RecvStringSlice p rop fi index element_size (output_flat, q) = Inl CheckFailed"
proof -
  have "recv_live p q (GetSliceRendezvousKey (op_key_prefix rop)
          (''_slice_transfer_data_'' @ int64_to_string index @ ''_'' @ int64_to_string (of_nat 0)) fi)
        = Inl CheckFailed"
    using recv_live_dead [OF acc dead] by (simp add: phase_key_def)
  then show ?thesis
    by (simp add: RecvStringSlice_def n(1) loop_indices_Cons [OF n(2)] TF_RETURN_IF_ERROR_def
        Let_def)
qed

lemma sender_later_messages_live:
  assumes "ctx_rendezvous ctx = Some r" "SliceSendOp_Compute p sop ctx = Inr r'"
    and "key \<noteq> phase_key (op_key_prefix sop) (GetFrameAndIter ctx (op_hostmem_sendrecv sop)) TotalBytesPhase"
  shows "\<exists>new. table r' key = table r key @ new \<and> (\<forall>m \<in> set new. \<not> snd m)"
proof (cases "is_input_dead ctx")
  case True
  then have "sends_into ((=) (phase_key (op_key_prefix sop)
                            (GetFrameAndIter ctx (op_hostmem_sendrecv sop)) TotalBytesPhase))
           (is_input_dead ctx) r r'"
    using SliceSendOp_Compute_sends_into(2) [OF assms(1,2)] by simp
  then obtain new where "table r' key = table r key @ new"
    "new \<noteq> [] \<longrightarrow> phase_key (op_key_prefix sop)
                            (GetFrameAndIter ctx (op_hostmem_sendrecv sop)) TotalBytesPhase = key"
    unfolding sends_into_def by blast
  then show ?thesis using assms(3) by (intro exI [of _ "[]"]) auto
next
  case False
  then show ?thesis
    using SliceSendOp_Compute_sends_into(1) [OF assms(1,2)] unfolding sends_into_def by auto
qed

lemma example_dead_facts:
  "aborted (example_dead_at ph) = None"
  "table (example_dead_at ph) (example_key ph) = [(int64_scalar_tensor 3, True)]"
  "phase_key (op_key_prefix (example_recv_op S T)) \<lparr>frame_id = 0, iter_id = 0\<rparr> ph =
     example_key ph"
  "phase_key (op_key_prefix (example_send_op S T)) \<lparr>frame_id = 0, iter_id = 0\<rparr> ph =
     example_key ph"
  by (simp_all add: example_dead_at_def example_key_def example_send_op_def example_recv_op_def
      SliceSendOp_init_def SliceRecvOp_init_def NewLocalRendezvous_def)

lemma example_slice_num: "RecvStringSlice_slice_num 5 3 = Inr 2"
  by (simp add: RecvStringSlice_slice_num_def int64_div_def signed_divide_int_def)

lemma example_first_recv:
  "recv_under example_platform example_after_send (example_key TotalBytesPhase) =
     Inr ((int64_scalar_tensor 3, False),
          example_after_send\<lparr>table := (table example_after_send)(example_key TotalBytesPhase := [])\<rparr>)"
  using recv_under_ok [of example_platform "example_key TotalBytesPhase" example_after_send
      "(int64_scalar_tensor 3, False)" "[]"]
  by (simp add: example_facts example_after_send_table) (simp add: example_after_send_def example_facts)

section \<open>The sender follows the plan and the receiver reads it back\<close>

lemma deposit_aborted [simp]: "aborted (deposit r msgs) = aborted r"
  by (induction r msgs rule: deposit.induct) simp_all

lemma deposit_table:
  "table (deposit r msgs) k = table r k @ map snd (filter (\<lambda>x. fst x = k) msgs)"
  by (induction r msgs rule: deposit.induct) auto

lemma deposit_append: "deposit r (a @ b) = deposit (deposit r a) b"
  by (induction r a rule: deposit.induct) simp_all

lemma send_under_deposit:
  assumes "key_accepted p k" "aborted r = None"
  shows "send_under p r k t d = Inr (deposit r [(k, (t, d))])"
  using send_under_ok [OF assms] by simp

lemma rendezvous_eqI:
  fixes r r' :: rendezvous
  assumes "\<And>k. table r k = table r' k" "aborted r = aborted r'"
  shows "r = r'"
proof -
  have "table r = table r'" using assms(1) by (simp add: fun_eq_iff)
  then show ?thesis using assms(2) by simp
qed

lemma pop_deposit:
  assumes "table r k = []"
  shows "(deposit r ((k, m) # rest))\<lparr>table := (table (deposit r ((k, m) # rest)))
           (k := map snd (filter (\<lambda>x. fst x = k) rest))\<rparr> = deposit r rest"
  using assms by (intro rendezvous_eqI) (simp_all add: deposit_table)

lemma recv_under_deposit:
  assumes "key_accepted p k" "aborted r = None" "table r k = []"
  shows "recv_under p (deposit r ((k, m) # rest)) k = Inr (m, deposit r rest)"
proof -
  have "table (deposit r ((k, m) # rest)) k = m # map snd (filter (\<lambda>x. fst x = k) rest)"
    using assms(3) by (simp add: deposit_table)
  then show ?thesis
    using recv_under_ok [of p k "deposit r ((k, m) # rest)" m "map snd (filter (\<lambda>x. fst x = k) rest)"]
      assms pop_deposit [OF assms(3), of m rest]
    by simp
qed

lemma recv_live_deposit:
  assumes "key_accepted p k" "aborted r = None" "table r k = []"
  shows "recv_live p (deposit r ((k, (t, False)) # rest)) k = Inr (t, deposit r rest)"
  using recv_under_deposit [OF assms]
  by (simp add: recv_live_def TF_RETURN_IF_ERROR_def CHECK_not_dead_def)

lemma for_loop_append:
  "for_loop (xs @ ys) body s =
     (case for_loop xs body s of Inl e \<Rightarrow> Inl e | Inr s' \<Rightarrow> for_loop ys body s')"
  by (induction xs arbitrary: s) (simp_all split: sum.splits)


subsection \<open>Slice counts and slices as natural numbers\<close>

lemma of_nat_small:
  assumes "N < 2 ^ 62"
  shows "sint (of_nat N :: int64) = int N" and "unat (of_nat N :: int64) = N"
proof -
  have "N < 2 ^ 63" using assms by (rule less_trans) simp
  then show "sint (of_nat N :: int64) = int N" by (rule sint64_of_nat)
  have "N < 2 ^ 64" using assms by (rule less_trans) simp
  then show "unat (of_nat N :: int64) = N" by (simp add: unat_of_nat)
qed

lemma slice_size_nat:
  fixes S :: int64
  assumes "1 \<le> sint S"
  shows "int (unat S) = sint S" and "1 \<le> unat S" and "nat (sint S) = unat S"
proof -
  have "sint S = uint S" using assms by (intro sint64_nonneg_uint) simp
  then show "int (unat S) = sint S" by simp
  then show "1 \<le> unat S" using assms by linarith
  show "nat (sint S) = unat S" using \<open>int (unat S) = sint S\<close> by linarith
qed

lemma ceil_div_less: "1 \<le> s \<Longrightarrow> i < ceil_div N s \<longleftrightarrow> i * s < N"
  unfolding ceil_div_def by (rule nat_ceil_div_less_iff)

lemma int_ceil_div:
  assumes "1 \<le> s"
  shows "nat ((int N + int s - 1) div int s) = ceil_div N s"
proof -
  have "int N + int s - 1 = int (N + s - 1)" using assms by simp
  then have "(int N + int s - 1) div int s = int ((N + s - 1) div s)"
    by (simp only: zdiv_int)
  then show ?thesis by (simp add: ceil_div_def)
qed

lemma basic_loop_indices:
  fixes S :: int64
  assumes S: "1 \<le> sint S" and N: "N < 2 ^ 62" and big: "unat S < N"
  shows "\<exists>n. SendBasicType_slice_num (of_nat N) S = Inr n \<and>
             RecvBasicType_slice_num (of_nat N) S = Inr n \<and>
             RecvStringSlice_slice_num (of_nat N) S = Inr n \<and>
             loop_indices n = [0..<ceil_div N (unat S)]"
proof -
  note w = of_nat_small [OF N] and s = slice_size_nat [OF S]
  have "int (unat S) < int N" using big by (rule iffD2 [OF of_nat_less_iff])
  moreover have "int N < 2 ^ 62" using N by (metis of_nat_less_iff of_nat_numeral of_nat_power)
  ultimately have "sint (of_nat N :: int64) + sint S \<le> 2 ^ 63"
    unfolding w(1) s(1) by simp
  then obtain n where n: "SendBasicType_slice_num (of_nat N) S = Inr n"
    "RecvBasicType_slice_num (of_nat N) S = Inr n" "RecvStringSlice_slice_num (of_nat N) S = Inr n"
    "sint n = (sint (of_nat N :: int64) + sint S - 1) div sint S"
    using basic_slice_num_value [OF S, of "of_nat N"] w(1) by auto
  have "nat (sint n) = ceil_div N (unat S)"
    using n(4) w(1) s(1) int_ceil_div [OF s(2), of N] by simp
  then show ?thesis using n by (simp add: loop_indices_def)
qed

lemma basic_slice_nat:
  fixes S :: int64
  assumes S: "1 \<le> sint S" and N: "N < 2 ^ 62" and big: "unat S < N"
    and i: "i < ceil_div N (unat S)"
  shows "\<exists>start len. SendBasicType_slice (of_nat N) S i = (start, len) \<and>
           RecvBasicType_slice (of_nat N) S i = (start, len) \<and>
           0 \<le> sint start \<and> 0 \<le> sint len \<and>
           nat (sint start) = i * unat S \<and> nat (sint len) = min (unat S) (N - i * unat S)"
proof -
  note w = of_nat_small [OF N] and s = slice_size_nat [OF S]
  have lt: "i * unat S < N" using i ceil_div_less [OF s(2)] by simp
  then have "int i * int (unat S) < int N" by (metis of_nat_less_iff of_nat_mult)
  then have i': "int i * sint S < sint (of_nat N :: int64)" using w(1) s(1) by simp
  have "int (unat S) < int N" using big by (rule iffD2 [OF of_nat_less_iff])
  then have SN: "sint S \<le> sint (of_nat N :: int64)" unfolding w(1) s(1) by linarith
  note v = basic_slice_value [OF S SN i'] basic_slice_sint [OF S SN i']
  let ?start = "of_nat i * S :: int64"
  let ?len = "if sint (of_nat N :: int64) < int i * sint S + sint S then of_nat N - of_nat i * S else S"
  have st: "sint ?start = int (i * unat S)" using v(3) s(1) by simp
  have ln: "sint ?len = int (min (unat S) (N - i * unat S))"
  proof (cases "sint (of_nat N :: int64) < int i * sint S + sint S")
    case True
    have "int N < int (i * unat S + unat S)"
      unfolding of_nat_add of_nat_mult s(1) by (rule True [unfolded w(1)])
    then have "N < i * unat S + unat S" by (rule iffD1 [OF of_nat_less_iff])
    then have "min (unat S) (N - i * unat S) = N - i * unat S" using lt by simp
    moreover have "sint ?len = int N - int (i * unat S)"
      using True v(5) w(1) s(1) by simp
    ultimately show ?thesis using lt by simp
  next
    case False
    have "\<not> int N < int (i * unat S + unat S)"
      unfolding of_nat_add of_nat_mult s(1) by (rule False [unfolded w(1)])
    then have "\<not> N < i * unat S + unat S" unfolding of_nat_less_iff .
    then have "min (unat S) (N - i * unat S) = unat S" by simp
    then show ?thesis using False s(1) by simp
  qed
  have a: "0 \<le> sint ?start" "nat (sint ?start) = i * unat S"
    unfolding st by (rule of_nat_0_le_iff, rule nat_int)
  have b: "0 \<le> sint ?len" "nat (sint ?len) = min (unat S) (N - i * unat S)"
    unfolding ln by (rule of_nat_0_le_iff, rule nat_int)
  show ?thesis
    apply (rule exI [where x = ?start])
    apply (rule exI [where x = ?len])
    using v(1) v(2) [unfolded v(1)] a b by blast
qed


subsection \<open>Loops and single messages\<close>

lemma for_loop_cases:
  assumes "\<And>i. i < n \<Longrightarrow> body i (f i) = (if bad i then Inl e else Inr (f (Suc i)))"
  shows "for_loop [0..<n] body (f 0) = (if \<exists>i<n. bad i then Inl e else Inr (f n))"
  using assms
proof (induction n)
  case 0
  then show ?case by simp
next
  case (Suc n)
  have IH: "for_loop [0..<n] body (f 0) = (if \<exists>i<n. bad i then Inl e else Inr (f n))"
    by (rule Suc.IH) (simp add: Suc.prems)
  have step: "body n (f n) = (if bad n then Inl e else Inr (f (Suc n)))"
    by (rule Suc.prems) simp
  have ex: "(\<exists>i<Suc n. bad i) \<longleftrightarrow> (\<exists>i<n. bad i) \<or> bad n"
    by (auto simp add: less_Suc_eq)
  show ?case
    unfolding ex using IH step by (simp add: for_loop_append)
qed

lemma for_loop_run:
  assumes "\<And>i. i < n \<Longrightarrow> body i (f i) = Inr (f (Suc i))"
  shows "for_loop [0..<n] body (f 0) = Inr (f n)"
  using for_loop_cases [of n body f "\<lambda>i. False" Internal] assms by simp

lemma recv_live_message:
  assumes "fresh_instance p pre fi r"
  shows "recv_live p (deposit r (message pre fi dead ph t # rest)) (phase_key pre fi ph) =
           (if dead ph then Inl CheckFailed else Inr (t, deposit r rest))"
proof -
  have a: "key_accepted p (phase_key pre fi ph)" "aborted r = None" "table r (phase_key pre fi ph) = []"
    using assms by (simp_all add: fresh_instance_def)
  show ?thesis
    using recv_under_deposit [OF a, of "(t, dead ph)" rest]
    by (simp add: message_def recv_live_def TF_RETURN_IF_ERROR_def CHECK_not_dead_def)
qed

lemma send_under_message:
  assumes "fresh_instance p pre fi r"
  shows "send_under p (deposit r msgs) (phase_key pre fi ph) t False =
           Inr (deposit r (msgs @ [message pre fi (\<lambda>ph. False) ph t]))"
proof -
  have a: "key_accepted p (phase_key pre fi ph)" "aborted (deposit r msgs) = None"
    using assms by (simp_all add: fresh_instance_def)
  show ?thesis
    using send_under_deposit [OF a] by (simp add: message_def deposit_append)
qed

lemma dead_in_simps [simp]:
  "dead_in [] = False"
  "dead_in (m # ms) = (snd (snd m) \<or> dead_in ms)"
  "dead_in (a @ b) = (dead_in a \<or> dead_in b)"
  by (auto simp add: dead_in_def list_ex_iff)

lemma dead_in_map:
  "dead_in (map (\<lambda>i. message pre fi dead (g i) (h i)) [0..<n]) = (\<exists>i<n. dead (g i))"
  by (auto simp add: dead_in_def list_ex_iff message_def)

lemma dead_in_concat:
  "dead_in (concat (map g [0..<n])) = (\<exists>i<n. dead_in (g i))"
  by (auto simp add: dead_in_def list_ex_iff)

lemma dead_in_message [simp]: "snd (snd (message pre fi dead ph t)) = dead ph"
  by (simp add: message_def)


subsection \<open>Fixed-width buffers\<close>

lemma suffix_keys:
  "GetSliceRendezvousKey pre ''_transfer_data'' fi = phase_key pre fi TransferData"
  "GetSliceRendezvousKey pre ''_slice_transfer_totalbytes'' fi = phase_key pre fi TotalBytesPhase"
  "GetSliceRendezvousKey pre ''_slice_transfer_shape'' fi = phase_key pre fi ShapePhase"
  "GetSliceRendezvousKey pre ''_slice_transfer_elements_size'' fi = phase_key pre fi ElementsSizePhase"
  "GetSliceRendezvousKey pre (''_slice_transfer_data_'' @ int64_to_string i) fi =
     phase_key pre fi (DataPhase i)"
  "GetSliceRendezvousKey pre (''_slice_transfer_data_'' @ int64_to_string i @ ''_'' @ int64_to_string j) fi =
     phase_key pre fi (DataSlicePhase i j)"
  unfolding phase_key_def phase_suffix.simps by (rule refl)+

lemma for_loop_to:
  assumes "\<And>i. i < n \<Longrightarrow> body i (f i) = Inr (f (Suc i))" and "f 0 = s" and "f n = s'"
  shows "for_loop [0..<n] body s = Inr s'"
  using for_loop_run [of n body f, OF assms(1)] assms(2,3) by simp

lemma take_slice:
  "take (min s (length bs - k)) (drop k bs) = take s (drop k bs)"
  by (cases "s \<le> length bs - k") (simp_all add: min_def)

lemma slice_fits: "(k::nat) < n \<Longrightarrow> \<not> n < k + min s (n - k)"
  by arith

lemma SendBasicType_plan:
  fixes op :: "'a SliceSendOp_scheme"
  assumes fresh: "fresh_instance p (op_key_prefix op) fi r"
    and S: "1 \<le> sint (op_slice_size op)"
    and t: "buf t = Bytes bs" and N: "length bs < 2 ^ 62"
    and big: "unat (op_slice_size op) < length bs"
    and live: "\<not> is_input_dead ctx"
  shows "SendBasicType p op ctx fi t (deposit r msgs) =
           Inr (deposit r (msgs @ BasicPlan (op_key_prefix op) fi (\<lambda>ph. False)
                                    (unat (op_slice_size op)) bs))"
proof -
  let ?S = "op_slice_size op" and ?N = "length bs" and ?pre = "op_key_prefix op"
  let ?msg = "\<lambda>i. message ?pre fi (\<lambda>ph. False) (DataPhase (of_nat i))
                     (int8_tensor (take (unat ?S) (drop (i * unat ?S) bs)))"
  have tb: "TotalBytes (sizeof_tstring p) t = of_nat ?N" by (simp add: TotalBytes_def t)
  have dt: "data t = Inr bs" by (simp add: data_def t)
  obtain n where n: "SendBasicType_slice_num (of_nat ?N) ?S = Inr n"
    "loop_indices n = [0..<ceil_div ?N (unat ?S)]"
    using basic_loop_indices [OF S N big] by blast
  have step: "(let (start, copy_size) = SendBasicType_slice (of_nat ?N) ?S i
               in if sint copy_size < 0 then Inl CheckFailed
                  else TF_RETURN_IF_ERROR (read_bytes bs start copy_size)
                         (\<lambda>copied. send_under p (deposit r (msgs @ map ?msg [0..<i]))
                            (phase_key ?pre fi (DataPhase (of_nat i))) (int8_tensor copied) False)) =
              Inr (deposit r (msgs @ map ?msg [0..<Suc i]))"
    if i: "i < ceil_div ?N (unat ?S)" for i
  proof -
    obtain start len where sl: "SendBasicType_slice (of_nat ?N) ?S i = (start, len)"
      "0 \<le> sint start" "0 \<le> sint len" "nat (sint start) = i * unat ?S"
      "nat (sint len) = min (unat ?S) (?N - i * unat ?S)"
      using basic_slice_nat [OF S N big i] by blast
    have lt: "i * unat ?S < ?N" using i ceil_div_less [OF slice_size_nat(2) [OF S]] by simp
    have rd: "read_bytes bs start len = Inr (take (unat ?S) (drop (i * unat ?S) bs))"
    proof -
      have "\<not> ?N < i * unat ?S + min (unat ?S) (?N - i * unat ?S)"
        using lt by (rule slice_fits)
      then show ?thesis
        using sl(2,3) by (simp add: read_bytes_def sl(4,5) take_slice)
    qed
    show ?thesis
      using sl(3) by (simp add: sl(1) rd TF_RETURN_IF_ERROR_def send_under_message [OF fresh])
  qed
  have d: "is_input_dead ctx = False" using live by simp
  show ?thesis
    unfolding SendBasicType_def Let_def tb n dt suffix_keys d
    apply (simp add: TF_RETURN_IF_ERROR_def n)
    apply (rule for_loop_to [where f = "\<lambda>i. deposit r (msgs @ map ?msg [0..<i])"])
    subgoal for i using step [of i] by (simp add: TF_RETURN_IF_ERROR_def)
    subgoal by simp
    subgoal by (simp add: BasicPlan_def)
    done
qed

lemma for_loop_cases_to:
  assumes "\<And>i. i < n \<Longrightarrow> body i (f i) = (if bad i then Inl e else Inr (f (Suc i)))"
    and "f 0 = s"
  shows "for_loop [0..<n] body s = (if \<exists>i<n. bad i then Inl e else Inr (f n))"
  using for_loop_cases [of n body f bad e, OF assms(1)] assms(2) by simp

lemma TF_simps:
  "TF_RETURN_IF_ERROR (Inr v) f = f v"
  "TF_RETURN_IF_ERROR (Inl e) f = Inl e"
  by (simp_all add: TF_RETURN_IF_ERROR_def)

lemma write_slice:
  assumes "length out0 = length bs" "k < length bs"
  shows "take k (take k bs @ drop k out0) @ take (min s (length bs - k)) (take s (drop k bs)) @
           drop (k + min s (length bs - k)) (take k bs @ drop k out0) =
         take (k + s) bs @ drop (k + s) out0"
proof (cases "s \<le> length bs - k")
  case True
  then show ?thesis using assms by (simp add: min_def take_add add.commute)
next
  case False
  then show ?thesis using assms by (simp add: min_def)
qed

lemma RecvBasicType_plan:
  assumes fresh: "fresh_instance p (op_key_prefix op) fi r"
    and S: "1 \<le> sint (op_slice_size op)"
    and N: "length bs < 2 ^ 62"
    and big: "unat (op_slice_size op) < length bs"
    and out: "buf out_t = Bytes out0" "length out0 = length bs"
  shows "RecvBasicType p op fi (of_nat (length bs)) out_t
           (deposit r (BasicPlan (op_key_prefix op) fi dead (unat (op_slice_size op)) bs @ rest)) =
         (if dead_in (BasicPlan (op_key_prefix op) fi dead (unat (op_slice_size op)) bs)
          then Inl CheckFailed else Inr (out_t\<lparr>buf := Bytes bs\<rparr>, deposit r rest))"
proof -
  let ?S = "op_slice_size op" and ?N = "length bs" and ?pre = "op_key_prefix op"
  let ?n = "ceil_div ?N (unat ?S)"
  let ?msg = "\<lambda>i. message ?pre fi dead (DataPhase (of_nat i))
                     (int8_tensor (take (unat ?S) (drop (i * unat ?S) bs)))"
  let ?f = "\<lambda>i. (take (i * unat ?S) bs @ drop (i * unat ?S) out0,
                  deposit r (map ?msg [i..<?n] @ rest))"
  have dt: "data out_t = Inr out0" by (simp add: data_def out)
  obtain n where n: "RecvBasicType_slice_num (of_nat ?N) ?S = Inr n"
    "loop_indices n = [0..<?n]"
    using basic_loop_indices [OF S N big] by blast
  have step: "(let (start, copy_size) = RecvBasicType_slice (of_nat ?N) ?S i
               in TF_RETURN_IF_ERROR (recv_live p (snd (?f i)) (phase_key ?pre fi (DataPhase (of_nat i))))
                    (\<lambda>(data_t, r).
                       TF_RETURN_IF_ERROR (data data_t)
                         (\<lambda>data_base.
                            TF_RETURN_IF_ERROR (write_bytes (fst (?f i)) start data_base copy_size)
                              (\<lambda>output_base. Inr (output_base, r))))) =
              (if dead (DataPhase (of_nat i)) then Inl CheckFailed else Inr (?f (Suc i)))"
    if i: "i < ?n" for i
  proof -
    obtain start len where sl: "RecvBasicType_slice (of_nat ?N) ?S i = (start, len)"
      "0 \<le> sint start" "0 \<le> sint len" "nat (sint start) = i * unat ?S"
      "nat (sint len) = min (unat ?S) (?N - i * unat ?S)"
      using basic_slice_nat [OF S N big i] by blast
    have lt: "i * unat ?S < ?N" using i ceil_div_less [OF slice_size_nat(2) [OF S]] by simp
    have up: "[i..<?n] = i # [Suc i..<?n]" using i by (rule upt_conv_Cons)
    have fits: "\<not> ?N < i * unat ?S + min (unat ?S) (?N - i * unat ?S)"
      using lt by (rule slice_fits)
    have wr: "write_bytes (fst (?f i)) start (take (unat ?S) (drop (i * unat ?S) bs)) len =
                Inr (fst (?f (Suc i)))"
      using sl(2,3) lt fits write_slice [OF out(2) lt, of "unat ?S"]
      by (simp add: write_bytes_def sl(4,5) out(2) add.commute)
    show ?thesis
      by (simp add: sl(1) up recv_live_message [OF fresh] TF_RETURN_IF_ERROR_def
          data_int8_tensor wr [simplified])
  qed
  have fin: "?f ?n = (bs, deposit r rest)"
  proof -
    have "\<not> ?n * unat ?S < ?N" using ceil_div_less [OF slice_size_nat(2) [OF S], of ?n ?N] by simp
    then show ?thesis by (simp add: out(2))
  qed
  show ?thesis
    unfolding RecvBasicType_def Let_def n dt suffix_keys TF_simps BasicPlan_def
    apply (subst for_loop_cases_to [where f = ?f and bad = "\<lambda>i. dead (DataPhase (of_nat i))"
          and e = CheckFailed])
    subgoal for i using step [of i] by (simp add: TF_RETURN_IF_ERROR_def)
    subgoal by simp
    subgoal unfolding fin by (simp add: dead_in_map TF_simps)
    done
qed


subsection \<open>String elements\<close>

lemma string_loop_indices:
  fixes S :: int64
  assumes S: "1 \<le> sint S" and L: "L < 2 ^ 62" and big: "unat S < L"
  shows "\<exists>n. SendStringSlice_slice_num (of_nat L) S = Inr n \<and>
             loop_indices n = [0..<ceil_div L (unat S)]"
proof -
  note s = slice_size_nat [OF S]
  let ?w = "of_nat L + S - 1 :: int64"
  have S0: "S \<noteq> 0" using S by auto
  have "?w = of_nat (L + unat S - 1)" using s(2) by simp
  moreover have "L + unat S - 1 < 2 ^ 64" using L big by simp
  ultimately have w: "unat ?w = L + unat S - 1" by (simp add: unat_of_nat)
  have q: "unat (?w div S) = ceil_div L (unat S)"
    unfolding unat_div w ceil_div_def ..
  have "ceil_div L (unat S) \<le> L + unat S - 1" unfolding ceil_div_def by (rule div_le_dividend)
  then have "ceil_div L (unat S) < 2 ^ 63" using L big by simp
  then have "sint (of_nat (ceil_div L (unat S)) :: int64) = int (ceil_div L (unat S))"
    by (rule sint64_of_nat)
  moreover have "?w div S = of_nat (unat (?w div S))" by simp
  then have "?w div S = of_nat (ceil_div L (unat S))" unfolding q .
  ultimately have "nat (sint (?w div S)) = ceil_div L (unat S)" by simp
  then show ?thesis
    using S0 by (simp add: SendStringSlice_slice_num_def size_t_div_def loop_indices_def)
qed

lemma string_slice_nat:
  fixes S :: int64
  assumes S: "1 \<le> sint S" and L: "L < 2 ^ 62" and big: "unat S < L"
    and i: "i < ceil_div L (unat S)"
  shows "\<exists>start len. SendStringSlice_slice (of_nat L) S i = (start, len) \<and>
           unat start = i * unat S \<and> unat len = min (unat S) (L - i * unat S)"
proof -
  note s = slice_size_nat [OF S] and w = of_nat_small [OF L]
  have lt: "i * unat S < L" using i ceil_div_less [OF s(2)] by simp
  have SN: "unat S \<le> unat (of_nat L :: int64)" using big w(2) by simp
  have i': "i * unat S < unat (of_nat L :: int64)" using lt w(2) by simp
  note v = string_slice_value [OF SN i'] str_slice_unat [OF SN i']
  show ?thesis
  proof (cases "L < i * unat S + unat S")
    case True
    then have "min (unat S) (L - i * unat S) = L - i * unat S" by simp
    then show ?thesis using True v w(2) by simp
  next
    case False
    then have "min (unat S) (L - i * unat S) = unat S" by simp
    then show ?thesis using False v w(2) by simp
  qed
qed

lemma SendStringSlice_plan:
  fixes op :: "'a SliceSendOp_scheme"
  assumes fresh: "fresh_instance p (op_key_prefix op) fi r"
    and S: "1 \<le> sint (op_slice_size op)"
    and L: "length x < 2 ^ 62"
    and big: "unat (op_slice_size op) < length x"
    and live: "\<not> is_input_dead ctx"
  shows "SendStringSlice p op ctx fi x (of_nat k) (deposit r msgs) =
           Inr (deposit r (msgs @ ElementPlan (op_key_prefix op) fi (\<lambda>ph. False)
                                    (unat (op_slice_size op)) k x))"
proof -
  let ?S = "op_slice_size op" and ?L = "length x" and ?pre = "op_key_prefix op"
  let ?msg = "\<lambda>j. message ?pre fi (\<lambda>ph. False) (DataSlicePhase (of_nat k) (of_nat j))
                     (tstring_scalar_tensor (take (unat ?S) (drop (j * unat ?S) x)))"
  obtain n where n: "SendStringSlice_slice_num (of_nat ?L) ?S = Inr n"
    "loop_indices n = [0..<ceil_div ?L (unat ?S)]"
    using string_loop_indices [OF S L big] by blast
  have step: "(let (start, copy_size) = SendStringSlice_slice (of_nat ?L) ?S j
               in TF_RETURN_IF_ERROR (substr x start copy_size)
                    (\<lambda>piece. send_under p (deposit r (msgs @ map ?msg [0..<j]))
                       (phase_key ?pre fi (DataSlicePhase (of_nat k) (of_nat j)))
                       (tstring_scalar_tensor piece) False)) =
              Inr (deposit r (msgs @ map ?msg [0..<Suc j]))"
    if j: "j < ceil_div ?L (unat ?S)" for j
  proof -
    obtain start len where sl: "SendStringSlice_slice (of_nat ?L) ?S j = (start, len)"
      "unat start = j * unat ?S" "unat len = min (unat ?S) (?L - j * unat ?S)"
      using string_slice_nat [OF S L big j] by blast
    have lt: "j * unat ?S < ?L" using j ceil_div_less [OF slice_size_nat(2) [OF S]] by simp
    have rd: "substr x start len = Inr (take (unat ?S) (drop (j * unat ?S) x))"
      using lt by (simp add: substr_def sl(2,3) take_slice)
    show ?thesis
      by (simp add: sl(1) rd TF_simps send_under_message [OF fresh])
  qed
  have d: "is_input_dead ctx = False" using live by simp
  have e: "ElementPlan ?pre fi (\<lambda>ph. False) (unat ?S) k x = map ?msg [0..<ceil_div ?L (unat ?S)]"
    using big by (simp add: ElementPlan_def)
  show ?thesis
    unfolding SendStringSlice_def Let_def n suffix_keys d TF_simps e
    apply (rule for_loop_to [where f = "\<lambda>j. deposit r (msgs @ map ?msg [0..<j])"])
    subgoal for j using step [of j] by (simp add: TF_RETURN_IF_ERROR_def)
    subgoal by simp
    subgoal by simp
    done
qed

lemma take_next: "take a x @ take b (drop a x) = take (b + a) x"
  by (metis take_add add.commute)

lemma update_at_nat:
  assumes "k < length out" "k < 2 ^ 63"
  shows "update_at out (of_nat k) g = Inr (out[k := g (out ! k)])"
  using assms sint64_of_nat [OF assms(2)] by (simp add: update_at_def)

lemma RecvStringSlice_plan:
  assumes fresh: "fresh_instance p (op_key_prefix op) fi r"
    and S: "1 \<le> sint (op_slice_size op)"
    and L: "length x < 2 ^ 62"
    and big: "unat (op_slice_size op) < length x"
    and k: "k < length out" "k < 2 ^ 63" "out ! k = []"
  shows "RecvStringSlice p op fi (of_nat k) (of_nat (length x))
           (out, deposit r (ElementPlan (op_key_prefix op) fi dead (unat (op_slice_size op)) k x @ rest)) =
         (if dead_in (ElementPlan (op_key_prefix op) fi dead (unat (op_slice_size op)) k x)
          then Inl CheckFailed else Inr (out[k := x], deposit r rest))"
proof -
  let ?S = "op_slice_size op" and ?L = "length x" and ?pre = "op_key_prefix op"
  let ?n = "ceil_div ?L (unat ?S)"
  let ?msg = "\<lambda>j. message ?pre fi dead (DataSlicePhase (of_nat k) (of_nat j))
                     (tstring_scalar_tensor (take (unat ?S) (drop (j * unat ?S) x)))"
  let ?f = "\<lambda>j. (out[k := take (j * unat ?S) x], deposit r (map ?msg [j..<?n] @ rest))"
  obtain n where n: "RecvStringSlice_slice_num (of_nat ?L) ?S = Inr n"
    "loop_indices n = [0..<?n]"
    using basic_loop_indices [OF S L big] by blast
  have step: "TF_RETURN_IF_ERROR
                (recv_live p (snd (?f j)) (phase_key ?pre fi (DataSlicePhase (of_nat k) (of_nat j))))
                (\<lambda>(data_t, r).
                   TF_RETURN_IF_ERROR (scalar_tstring data_t)
                     (\<lambda>piece.
                        TF_RETURN_IF_ERROR (update_at (fst (?f j)) (of_nat k) (\<lambda>x. x @ piece))
                          (\<lambda>output_flat. Inr (output_flat, r)))) =
              (if dead (DataSlicePhase (of_nat k) (of_nat j)) then Inl CheckFailed
               else Inr (?f (Suc j)))"
    if j: "j < ?n" for j
  proof -
    have up: "[j..<?n] = j # [Suc j..<?n]" using j by (rule upt_conv_Cons)
    have ua: "update_at (out[k := take (j * unat ?S) x]) (of_nat k) (\<lambda>x. x @ piece) =
                Inr (out[k := take (j * unat ?S) x @ piece])" for piece
      using update_at_nat [of k "out[k := take (j * unat ?S) x]"] k by simp
    show ?thesis
      by (simp add: up recv_live_message [OF fresh] TF_simps scalar_tstring_tensor ua
          take_next)
  qed
  have fin: "?f ?n = (out[k := x], deposit r rest)"
  proof -
    have "\<not> ?n * unat ?S < ?L" using ceil_div_less [OF slice_size_nat(2) [OF S], of ?n ?L] by simp
    then show ?thesis by simp
  qed
  have e: "ElementPlan ?pre fi dead (unat ?S) k x = map ?msg [0..<?n]"
    using big by (simp add: ElementPlan_def)
  have init: "?f 0 = (out, deposit r (map ?msg [0..<?n] @ rest))"
    using k(3) by (simp add: list_update_same_conv k(1))
  show ?thesis
    unfolding RecvStringSlice_def Let_def n suffix_keys TF_simps e
    apply (subst for_loop_cases_to [where f = ?f
          and bad = "\<lambda>j. dead (DataSlicePhase (of_nat k) (of_nat j))" and e = CheckFailed])
    subgoal for j using step [of j] by simp
    subgoal by (rule init)
    subgoal unfolding fin by (simp add: dead_in_map)
    done
qed

lemma word_le_of_nat:
  fixes S :: int64
  assumes "1 \<le> sint S" "L < 2 ^ 62"
  shows "(of_nat L :: int64) \<le> S \<longleftrightarrow> L \<le> unat S"
    and "sint (of_nat L :: int64) \<le> sint S \<longleftrightarrow> L \<le> unat S"
proof -
  note s = slice_size_nat [OF assms(1)] and w = of_nat_small [OF assms(2)]
  show "(of_nat L :: int64) \<le> S \<longleftrightarrow> L \<le> unat S"
    by (simp add: word_le_nat_alt w(2))
  have "int L \<le> int (unat S) \<longleftrightarrow> L \<le> unat S" by (rule of_nat_le_iff)
  then show "sint (of_nat L :: int64) \<le> sint S \<longleftrightarrow> L \<le> unat S"
    unfolding w(1) s(1) .
qed

lemma loop_indices_of_nat: "n < 2 ^ 63 \<Longrightarrow> loop_indices (of_nat n) = [0..<n]"
  using sint64_of_nat [of n] by (simp add: loop_indices_def)

lemma map_nth_upt: "map (\<lambda>i. g (xs ! i)) [0..<length xs] = map g xs"
  by (rule nth_equalityI) simp_all

lemma SendString_plan:
  fixes op :: "'a SliceSendOp_scheme"
  assumes fresh: "fresh_instance p (op_key_prefix op) fi r"
    and S: "1 \<le> sint (op_slice_size op)"
    and t: "buf t = Strings xs" "dtype t = DT_STRING" "length xs = NumElements t"
    and n: "NumElements t < 2 ^ 63"
    and L: "\<And>x. x \<in> set xs \<Longrightarrow> length x < 2 ^ 62"
    and live: "\<not> is_input_dead ctx"
  shows "SendString p op ctx fi t (deposit r msgs) =
           Inr (deposit r (msgs @ StringPlan (op_key_prefix op) fi (\<lambda>ph. False)
                                    (unat (op_slice_size op)) (shape t) xs))"
proof -
  let ?S = "op_slice_size op" and ?pre = "op_key_prefix op" and ?n = "length xs"
  let ?live = "\<lambda>ph::phase. False"
  let ?m0 = "message ?pre fi ?live ElementsSizePhase
               (int64_tensor (shape t) (map (\<lambda>x. of_nat (length x)) xs))"
  let ?ep = "\<lambda>i. ElementPlan ?pre fi ?live (unat ?S) i (xs ! i)"
  let ?f = "\<lambda>i. deposit r ((msgs @ [?m0]) @ concat (map ?ep [0..<i]))"
  have d: "is_input_dead ctx = False" using live by simp
  have ft: "flat_tstring t = Inr xs" by (simp add: flat_tstring_def t)
  have li: "loop_indices (of_nat (NumElements t)) = [0..<?n]"
    using loop_indices_of_nat [OF n] t(3) by simp
  have step: "TF_RETURN_IF_ERROR (element_at xs i)
                (\<lambda>elem.
                   if (of_nat (length elem) :: size_t) \<le> ?S
                   then send_under p (?f i) (phase_key ?pre fi (DataPhase (of_nat i)))
                          (tstring_scalar_tensor elem) False
                   else SendStringSlice p op ctx fi elem (of_nat i) (?f i)) =
              Inr (?f (Suc i))"
    if i: "i < ?n" for i
  proof -
    have Li: "length (xs ! i) < 2 ^ 62" using i by (intro L) simp
    note c = word_le_of_nat(1) [OF S Li]
    show ?thesis
    proof (cases "length (xs ! i) \<le> unat ?S")
      case True
      then show ?thesis
        using i c send_under_message [OF fresh, of "(msgs @ [?m0]) @ concat (map ?ep [0..<i])"]
        by (simp add: element_at_def TF_simps ElementPlan_def)
    next
      case False
      then have big: "unat ?S < length (xs ! i)" by simp
      show ?thesis
        using i c False
          SendStringSlice_plan [OF fresh S Li big live, of i "(msgs @ [?m0]) @ concat (map ?ep [0..<i])"]
        by (simp add: element_at_def TF_simps)
    qed
  qed
  have loop: "for_loop [0..<?n]
                (\<lambda>i r. TF_RETURN_IF_ERROR (element_at xs i)
                   (\<lambda>elem.
                      if (of_nat (length elem) :: size_t) \<le> ?S
                      then send_under p r (phase_key ?pre fi (DataPhase (of_nat i)))
                             (tstring_scalar_tensor elem) False
                      else SendStringSlice p op ctx fi elem (of_nat i) r))
                (deposit r (msgs @ [?m0])) =
              Inr (deposit r (msgs @ StringPlan ?pre fi ?live (unat ?S) (shape t) xs))"
    apply (rule for_loop_to [where f = ?f])
    subgoal for i using step [of i] by simp
    subgoal by simp
    subgoal by (simp add: StringPlan_def)
    done
  have mn: "map (\<lambda>i. of_nat (length (xs ! i)) :: int64) [0..<length xs] =
              map (\<lambda>x. of_nat (length x)) xs"
    by (rule map_nth_upt)
  show ?thesis
    unfolding SendString_def Let_def ft TF_simps li suffix_keys d mn
      send_under_message [OF fresh]
    by (rule loop)
qed

lemma fill_next:
  fixes xs :: "'a list list"
  assumes "k < length xs"
  shows "(take k xs @ replicate (length xs - k) [])[k := xs ! k] =
           take (Suc k) xs @ replicate (length xs - Suc k) []"
proof -
  have "replicate (length xs - k) ([] :: 'a list) = [] # replicate (length xs - Suc k) []"
    using assms by (metis Suc_diff_Suc replicate_Suc)
  then show ?thesis
    using assms by (simp add: list_update_append take_Suc_conv_app_nth)
qed

lemma RecvString_plan:
  assumes fresh: "fresh_instance p (op_key_prefix op) fi r"
    and S: "1 \<le> sint (op_slice_size op)"
    and xs: "length xs = prod_list dims" "length xs < 2 ^ 63"
    and L: "\<And>x. x \<in> set xs \<Longrightarrow> length x < 2 ^ 62"
    and out: "buf out_t = Strings (replicate (length xs) [])" "dtype out_t = DT_STRING"
             "shape out_t = dims"
  shows "RecvString p op fi dims out_t
           (deposit r (StringPlan (op_key_prefix op) fi dead (unat (op_slice_size op)) dims xs @ rest)) =
         (if dead_in (StringPlan (op_key_prefix op) fi dead (unat (op_slice_size op)) dims xs)
          then Inl CheckFailed else Inr (out_t\<lparr>buf := Strings xs\<rparr>, deposit r rest))"
proof -
  let ?S = "op_slice_size op" and ?pre = "op_key_prefix op" and ?n = "length xs"
  let ?sizes = "map (\<lambda>x. of_nat (length x) :: int64) xs"
  let ?ep = "\<lambda>i. ElementPlan ?pre fi dead (unat ?S) i (xs ! i)"
  let ?f = "\<lambda>k. (take k xs @ replicate (?n - k) [], deposit r (concat (map ?ep [k..<?n]) @ rest))"
  have sp: "StringPlan ?pre fi dead (unat ?S) dims xs =
              message ?pre fi dead ElementsSizePhase (int64_tensor dims ?sizes) #
              concat (map ?ep [0..<?n])"
    by (simp add: StringPlan_def)
  have fl: "flat_int64 (int64_tensor dims ?sizes) = Inr ?sizes"
    by (rule flat_int64_tensor) (simp add: xs(1))
  have ft: "flat_tstring out_t = Inr (replicate ?n [])"
    by (simp add: flat_tstring_def out NumElements_def xs(1))
  have li: "loop_indices (of_nat (prod_list dims)) = [0..<?n]"
    using loop_indices_of_nat [OF xs(2)] xs(1) by simp
  have step: "TF_RETURN_IF_ERROR (element_at ?sizes k)
                (\<lambda>element_size.
                   if sint element_size \<le> sint ?S
                   then TF_RETURN_IF_ERROR
                          (recv_live p (snd (?f k)) (phase_key ?pre fi (DataPhase (of_nat k))))
                          (\<lambda>(data_t, r).
                             TF_RETURN_IF_ERROR (scalar_tstring data_t)
                               (\<lambda>x. TF_RETURN_IF_ERROR (update_at (fst (?f k)) (of_nat k) (\<lambda>_. x))
                                       (\<lambda>output_flat. Inr (output_flat, r))))
                   else RecvStringSlice p op fi (of_nat k) element_size (?f k)) =
              (if dead_in (?ep k) then Inl CheckFailed else Inr (?f (Suc k)))"
    if k: "k < ?n" for k
  proof -
    have Lk: "length (xs ! k) < 2 ^ 62" using k by (intro L) simp
    note c = word_le_of_nat(2) [OF S Lk]
    have up: "[k..<?n] = k # [Suc k..<?n]" using k by (rule upt_conv_Cons)
    have k63: "k < 2 ^ 63" using k xs(2) by simp
    have len: "k < length (take k xs @ replicate (?n - k) ([] :: string))" using k by simp
    have el: "element_at ?sizes k = Inr (of_nat (length (xs ! k)))"
      using k by (simp add: element_at_def)
    show ?thesis
    proof (cases "length (xs ! k) \<le> unat ?S")
      case True
      then have ep: "?ep k = [message ?pre fi dead (DataPhase (of_nat k)) (tstring_scalar_tensor (xs ! k))]"
        by (simp add: ElementPlan_def)
      show ?thesis
        using True c fill_next [OF k] k
        by (simp add: el TF_simps up ep recv_live_message [OF fresh] scalar_tstring_tensor
            update_at_nat [OF len k63])
    next
      case False
      then have big: "unat ?S < length (xs ! k)" by simp
      have e: "(take k xs @ replicate (?n - k) []) ! k = ([] :: string)"
        using k by (simp add: nth_append)
      show ?thesis
        using False c fill_next [OF k]
          RecvStringSlice_plan [OF fresh S Lk big len k63 e, of dead "concat (map ?ep [Suc k..<?n]) @ rest"]
        by (simp add: el TF_simps up)
    qed
  qed
  have loop: "for_loop [0..<?n]
                (\<lambda>i (output_flat, r).
                   TF_RETURN_IF_ERROR (element_at ?sizes i)
                     (\<lambda>element_size.
                        if sint element_size \<le> sint ?S
                        then TF_RETURN_IF_ERROR
                               (recv_live p r (phase_key ?pre fi (DataPhase (of_nat i))))
                               (\<lambda>(data_t, r).
                                  TF_RETURN_IF_ERROR (scalar_tstring data_t)
                                    (\<lambda>x. TF_RETURN_IF_ERROR (update_at output_flat (of_nat i) (\<lambda>_. x))
                                            (\<lambda>output_flat. Inr (output_flat, r))))
                        else RecvStringSlice p op fi (of_nat i) element_size (output_flat, r)))
                (replicate ?n [], deposit r (concat (map ?ep [0..<?n]) @ rest)) =
              (if \<exists>k<?n. dead_in (?ep k) then Inl CheckFailed else Inr (xs, deposit r rest))"
    apply (subst for_loop_cases_to [where f = ?f and bad = "\<lambda>k. dead_in (?ep k)" and e = CheckFailed])
    subgoal for k unfolding prod.case by (rule step [unfolded fst_conv snd_conv])
    subgoal by simp
    subgoal by simp
    done
  show ?thesis
  proof (cases "dead ElementsSizePhase")
    case True
    then show ?thesis
      unfolding RecvString_def Let_def suffix_keys sp
      by (simp add: recv_live_message [OF fresh] TF_simps)
  next
    case False
    then have rl: "recv_live p (deposit r (message ?pre fi dead ElementsSizePhase (int64_tensor dims ?sizes) #
                      concat (map ?ep [0..<?n]) @ rest)) (phase_key ?pre fi ElementsSizePhase) =
                   Inr (int64_tensor dims ?sizes, deposit r (concat (map ?ep [0..<?n]) @ rest))"
      by (simp add: recv_live_message [OF fresh])
    have di: "dead_in (StringPlan ?pre fi dead (unat ?S) dims xs) = (\<exists>k<?n. dead_in (?ep k))"
      using False by (simp add: sp dead_in_concat)
    show ?thesis
      unfolding RecvString_def Let_def suffix_keys di
      unfolding sp append_Cons rl TF_simps prod.case fl ft li loop
      by (simp add: TF_simps)
  qed
qed


subsection \<open>The two kernels\<close>

lemma AddDims_of_nat:
  assumes "0 \<notin> set acc" "0 \<notin> set ds" "prod_list acc * prod_list ds < 2 ^ 63"
  shows "AddDims acc (map of_nat ds) = Inr (acc @ ds)"
  using assms
proof (induction ds arbitrary: acc)
  case Nil
  then show ?case by simp
next
  case (Cons d ds)
  have "d \<noteq> 0" "prod_list ds \<noteq> 0" "prod_list acc \<noteq> 0"
    using Cons.prems(1,2) by (auto simp add: prod_list_zero_iff)
  then have d0: "0 < d" and ds0: "0 < prod_list ds" and acc0: "0 < prod_list acc"
    by simp_all
  have eq: "prod_list acc * prod_list (d # ds) = prod_list acc * d * prod_list ds"
    by (simp add: mult.assoc)
  have "prod_list acc * d \<le> prod_list acc * d * prod_list ds" using ds0 by simp
  then have b: "prod_list acc * d < 2 ^ 63"
    using Cons.prems(3) [unfolded eq] by (rule le_less_trans)
  have "d \<le> prod_list acc * d" using acc0 by simp
  then have "d < 2 ^ 63" using b by (rule le_less_trans)
  then have sd: "sint (of_nat d :: int64) = int d" by (rule sint64_of_nat)
  have ad: "AddDim acc (of_nat d) = Inr (acc @ [d])"
    using b by (simp add: AddDim_def sd)
  have "AddDims (acc @ [d]) (map of_nat ds) = Inr ((acc @ [d]) @ ds)"
    using Cons.prems by (intro Cons.IH) (simp_all add: mult.assoc)
  then show ?case by (simp add: ad TF_simps)
qed

lemma RecvShape_plan:
  assumes fresh: "fresh_instance p (op_key_prefix op) fi r"
    and sh: "0 \<notin> set dims" "prod_list dims < 2 ^ 63"
  shows "RecvShape p op fi
           (deposit r (message (op_key_prefix op) fi dead ShapePhase
                         (int64_tensor [length dims] (map of_nat dims)) # rest)) =
         (if dead ShapePhase then Inl CheckFailed else Inr (dims, deposit r rest))"
proof -
  have v: "vec_int64 (int64_tensor [length dims] (map of_nat dims)) = Inr (map of_nat dims)"
    using vec_int64_tensor [of "map of_nat dims"] by simp
  have a: "AddDims [] (map of_nat dims) = Inr dims"
    using AddDims_of_nat [of "[]" dims] sh by simp
  show ?thesis
    unfolding RecvShape_def Let_def suffix_keys
    by (simp add: recv_live_message [OF fresh] TF_simps v a)
qed

lemma RecvTotalBytes_plan:
  assumes fresh: "fresh_instance p (op_key_prefix op) fi r"
  shows "RecvTotalBytes p op fi
           (deposit r (message (op_key_prefix op) fi dead TotalBytesPhase (int64_scalar_tensor n) # rest)) =
         Inr ((dead TotalBytesPhase, if dead TotalBytesPhase then 0 else n), deposit r rest)"
proof -
  have a: "key_accepted p (phase_key (op_key_prefix op) fi TotalBytesPhase)" "aborted r = None"
    "table r (phase_key (op_key_prefix op) fi TotalBytesPhase) = []"
    using fresh by (simp_all add: fresh_instance_def)
  show ?thesis
    unfolding RecvTotalBytes_def Let_def suffix_keys
    using recv_under_deposit [OF a, of "(int64_scalar_tensor n, dead TotalBytesPhase)" rest]
    by (simp add: message_def TF_simps scalar_int64_tensor)
qed

lemma send_first_message:
  assumes "fresh_instance p pre fi r"
  shows "send_under p r (phase_key pre fi ph) t False = Inr (deposit r [message pre fi (\<lambda>ph. False) ph t])"
  using send_under_message [OF assms, of "[]"] by simp

lemma valid_tensor_elements:
  assumes "valid_tensor tsize t" "buf t = Strings xs" "x \<in> set xs"
  shows "length x < 2 ^ 62"
proof -
  have "length x \<le> sum_list (map length xs)"
    using assms(3) by (intro member_le_sum_list) simp_all
  moreover have "tsize * length xs + sum_list (map length xs) < 2 ^ 62"
    using assms(1,2) by (auto simp add: valid_tensor_def)
  ultimately show ?thesis by simp
qed

lemma sliced_tensor:
  assumes v: "valid_tensor tsize t" and big: "s < unat (TotalBytes tsize t)"
  shows "0 \<notin> set (shape t)" and "prod_list (shape t) < 2 ^ 63"
proof -
  have n: "NumElements t \<noteq> 0"
  proof (cases "buf t")
    case (Bytes bs)
    then have l: "length bs = NumElements t * DataTypeSize (dtype t)" "length bs < 2 ^ 62"
      using v by (simp_all add: valid_tensor_def)
    have "unat (TotalBytes tsize t) = length bs"
      using of_nat_small(2) [OF l(2)] Bytes by (simp add: TotalBytes_def)
    then have "0 < length bs" using big by linarith
    then show ?thesis unfolding l(1) by simp
  next
    case (Strings xs)
    then show ?thesis using big by (cases "NumElements t = 0") (simp_all add: TotalBytes_def)
  qed
  then show "0 \<notin> set (shape t)" by (simp add: NumElements_def prod_list_zero_iff)
  show "prod_list (shape t) < 2 ^ 63" using v by (simp add: valid_tensor_def NumElements_def)
qed

lemma total_bytes_nat:
  assumes "valid_tensor tsize t"
  shows "\<exists>T. T < 2 ^ 62 \<and> TotalBytes tsize t = of_nat T \<and>
           (case buf t of
              Bytes bs \<Rightarrow> T = length bs
            | Strings xs \<Rightarrow> T = (if NumElements t = 0 then 0
                                else tsize * length xs + sum_list (map length xs)))"
proof (cases "buf t")
  case (Bytes bs)
  then show ?thesis
    using assms by (intro exI [of _ "length bs"]) (simp add: valid_tensor_def TotalBytes_def)
next
  case (Strings xs)
  then show ?thesis
    using assms
    by (intro exI [of _ "if NumElements t = 0 then 0
                         else tsize * length xs + sum_list (map length xs)"])
       (auto simp add: valid_tensor_def TotalBytes_def)
qed

lemma rebuild_output:
  "buf t = b \<Longrightarrow> (allocate_output (dtype t) (shape t))\<lparr>buf := b\<rparr> = t"
  by (cases t) (simp add: allocate_output_def)

lemma SliceSendOp_Compute_plan:
  fixes sop :: "'a SliceSendOp_scheme"
  assumes r: "ctx_rendezvous ctx = Some r"
    and fresh: "fresh_instance p (op_key_prefix sop) (GetFrameAndIter ctx (op_hostmem_sendrecv sop)) r"
    and S: "1 \<le> sint (op_slice_size sop)"
    and v: "valid_tensor (sizeof_tstring p) (ctx_input ctx)"
    and dt: "op_dtype sop = dtype (ctx_input ctx)"
    and live: "\<not> is_input_dead ctx"
  shows "SliceSendOp_Compute p sop ctx =
           Inr (deposit r (TransferPlan (sizeof_tstring p) (op_key_prefix sop)
                  (GetFrameAndIter ctx (op_hostmem_sendrecv sop)) (\<lambda>ph. False)
                  (unat (op_slice_size sop)) (ctx_input ctx)))"
proof -
  let ?t = "ctx_input ctx" and ?S = "op_slice_size sop" and ?pre = "op_key_prefix sop"
  let ?fi = "GetFrameAndIter ctx (op_hostmem_sendrecv sop)" and ?live = "\<lambda>ph::phase. False"
  let ?tb = "message ?pre ?fi ?live TotalBytesPhase
               (int64_scalar_tensor (TotalBytes (sizeof_tstring p) ?t))"
  let ?sh = "message ?pre ?fi ?live ShapePhase
               (int64_tensor [length (shape ?t)] (map of_nat (shape ?t)))"
  obtain T where T: "T < 2 ^ 62" "TotalBytes (sizeof_tstring p) ?t = of_nat T"
    "case buf ?t of Bytes bs \<Rightarrow> T = length bs
     | Strings xs \<Rightarrow> T = (if NumElements ?t = 0 then 0
                          else sizeof_tstring p * length xs + sum_list (map length xs))"
    using total_bytes_nat [OF v] by blast
  have d: "is_input_dead ctx = False" using live by simp
  have uT: "unat (TotalBytes (sizeof_tstring p) ?t) = T"
    unfolding T(2) by (rule of_nat_small(2) [OF T(1)])
  have cmp: "TotalBytes (sizeof_tstring p) ?t \<le> ?S \<longleftrightarrow> T \<le> unat ?S"
    unfolding T(2) by (rule word_le_of_nat(1) [OF S T(1)])
  have s1: "SendTotalBytes p sop ctx ?fi ?t r = Inr (deposit r [?tb])"
    unfolding SendTotalBytes_def Let_def suffix_keys d by (rule send_first_message [OF fresh])
  have s2: "SendShape p sop ctx ?fi ?t (deposit r [?tb]) = Inr (deposit r ([?tb] @ [?sh]))"
    unfolding SendShape_def Let_def suffix_keys d by (rule send_under_message [OF fresh])
  show ?thesis
  proof (cases "T \<le> unat ?S")
    case True
    have "send_under p (deposit r [?tb]) (phase_key ?pre ?fi TransferData) ?t False =
            Inr (deposit r ([?tb] @ [message ?pre ?fi ?live TransferData ?t]))"
      by (rule send_under_message [OF fresh])
    then show ?thesis
      unfolding SliceSendOp_Compute_def r option.case Let_def s1 TF_simps suffix_keys d
      using True cmp uT by (simp add: TransferPlan_def)
  next
    case False
    then have big: "unat ?S < T" by simp
    show ?thesis
    proof (cases "buf ?t")
      case (Bytes bs)
      then have b: "T = length bs" "dtype ?t \<noteq> DT_STRING"
        using T(3) v by (simp_all add: valid_tensor_def)
      have "SendBasicType p sop ctx ?fi ?t (deposit r ([?tb] @ [?sh])) =
              Inr (deposit r (([?tb] @ [?sh]) @ BasicPlan ?pre ?fi ?live (unat ?S) bs))"
        using T(1) big unfolding b(1) by (intro SendBasicType_plan [OF fresh S Bytes _ _ live])
      then show ?thesis
        unfolding SliceSendOp_Compute_def r option.case Let_def s1 TF_simps suffix_keys d s2
        using False cmp uT b(2) dt Bytes by (simp add: TransferPlan_def)
    next
      case (Strings xs)
      then have b: "dtype ?t = DT_STRING" "length xs = NumElements ?t" "NumElements ?t < 2 ^ 63"
        using v by (simp_all add: valid_tensor_def)
      have "SendString p sop ctx ?fi ?t (deposit r ([?tb] @ [?sh])) =
              Inr (deposit r (([?tb] @ [?sh]) @ StringPlan ?pre ?fi ?live (unat ?S) (shape ?t) xs))"
        using valid_tensor_elements [OF v Strings]
        by (intro SendString_plan [OF fresh S Strings b(1,2,3) _ live])
      then show ?thesis
        unfolding SliceSendOp_Compute_def r option.case Let_def s1 TF_simps suffix_keys d s2
        using False cmp uT b(1) dt Strings by (simp add: TransferPlan_def)
    qed
  qed
qed

lemma SliceRecvOp_Compute_plan:
  assumes r: "ctx_rendezvous ctx =
                Some (deposit r (TransferPlan (sizeof_tstring p) (op_key_prefix rop)
                        (GetFrameAndIter ctx (op_hostmem_sendrecv rop)) dead
                        (unat (op_slice_size rop)) t))"
    and fresh: "fresh_instance p (op_key_prefix rop) (GetFrameAndIter ctx (op_hostmem_sendrecv rop)) r"
    and S: "1 \<le> sint (op_slice_size rop)"
    and v: "valid_tensor (sizeof_tstring p) t"
    and dt: "op_dtype rop = dtype t"
    and tb: "\<not> dead TotalBytesPhase"
  shows "SliceRecvOp_Compute p rop ctx =
           (if dead_in (TransferPlan (sizeof_tstring p) (op_key_prefix rop)
                          (GetFrameAndIter ctx (op_hostmem_sendrecv rop)) dead
                          (unat (op_slice_size rop)) t)
            then Inl CheckFailed else Inr (Some t, r))"
proof -
  let ?S = "op_slice_size rop" and ?pre = "op_key_prefix rop"
  let ?fi = "GetFrameAndIter ctx (op_hostmem_sendrecv rop)"
  let ?total = "TotalBytes (sizeof_tstring p) t"
  let ?sh = "message ?pre ?fi dead ShapePhase
               (int64_tensor [length (shape t)] (map of_nat (shape t)))"
  obtain T where T: "T < 2 ^ 62" "?total = of_nat T"
    "case buf t of Bytes bs \<Rightarrow> T = length bs
     | Strings xs \<Rightarrow> T = (if NumElements t = 0 then 0
                          else sizeof_tstring p * length xs + sum_list (map length xs))"
    using total_bytes_nat [OF v] by blast
  have uT: "unat ?total = T"
    unfolding T(2) by (rule of_nat_small(2) [OF T(1)])
  have cmp: "sint ?total \<le> sint ?S \<longleftrightarrow> T \<le> unat ?S"
    unfolding T(2) by (rule word_le_of_nat(2) [OF S T(1)])
  have r1: "RecvTotalBytes p rop ?fi
              (deposit r (message ?pre ?fi dead TotalBytesPhase (int64_scalar_tensor ?total) # rest)) =
            Inr ((False, ?total), deposit r rest)" for rest
    using RecvTotalBytes_plan [OF fresh, of dead ?total rest] tb by simp
  show ?thesis
  proof (cases "T \<le> unat ?S")
    case True
    have pl: "TransferPlan (sizeof_tstring p) ?pre ?fi dead (unat ?S) t =
                message ?pre ?fi dead TotalBytesPhase (int64_scalar_tensor ?total) #
                [message ?pre ?fi dead TransferData t]"
      using True uT by (simp add: TransferPlan_def)
    show ?thesis
      unfolding SliceRecvOp_Compute_def r option.case Let_def pl r1 TF_simps prod.case suffix_keys
      using True cmp tb recv_live_message [OF fresh, of dead TransferData t "[]"]
      by (simp add: TF_simps)
  next
    case False
    then have big: "unat ?S < unat ?total" using uT by simp
    note shp = sliced_tensor [OF v big]
    have r2: "RecvShape p rop ?fi (deposit r (?sh # rest)) =
                (if dead ShapePhase then Inl CheckFailed else Inr (shape t, deposit r rest))" for rest
      by (rule RecvShape_plan [OF fresh shp])
    show ?thesis
    proof (cases "buf t")
      case (Bytes bs)
      then have b: "T = length bs" "dtype t \<noteq> DT_STRING"
        "length bs = NumElements t * DataTypeSize (dtype t)"
        using T(3) v by (simp_all add: valid_tensor_def)
      have pl: "TransferPlan (sizeof_tstring p) ?pre ?fi dead (unat ?S) t =
                  message ?pre ?fi dead TotalBytesPhase (int64_scalar_tensor ?total) #
                  ?sh # BasicPlan ?pre ?fi dead (unat ?S) bs @ []"
        using False uT Bytes by (simp add: TransferPlan_def)
      let ?out = "allocate_output (dtype t) (shape t)"
      have o: "buf ?out = Bytes (replicate (length bs) 0)"
        using b(2,3) by (simp add: allocate_output_def NumElements_def)
      have r3: "RecvBasicType p rop ?fi (of_nat (length bs)) ?out
                  (deposit r (BasicPlan ?pre ?fi dead (unat ?S) bs @ [])) =
                (if dead_in (BasicPlan ?pre ?fi dead (unat ?S) bs) then Inl CheckFailed
                 else Inr (t, deposit r []))"
        using RecvBasicType_plan [where dead = dead and rest = "[]", OF fresh S _ _ o] T(1) False
          rebuild_output [OF Bytes]
        unfolding b(1) by simp
      show ?thesis
        unfolding SliceRecvOp_Compute_def r option.case Let_def pl r1 TF_simps prod.case dt
        using False cmp tb b(2) r3 [folded b(1), folded T(2)]
        by (simp add: r2 TF_simps)
    next
      case (Strings xs)
      then have b: "dtype t = DT_STRING" "length xs = NumElements t" "NumElements t < 2 ^ 63"
        using v by (simp_all add: valid_tensor_def)
      have pl: "TransferPlan (sizeof_tstring p) ?pre ?fi dead (unat ?S) t =
                  message ?pre ?fi dead TotalBytesPhase (int64_scalar_tensor ?total) #
                  ?sh # StringPlan ?pre ?fi dead (unat ?S) (shape t) xs @ []"
        using False uT Strings by (simp add: TransferPlan_def)
      let ?out = "allocate_output (dtype t) (shape t)"
      have o: "buf ?out = Strings (replicate (length xs) [])" "dtype ?out = DT_STRING"
        "shape ?out = shape t"
        using b(1,2) by (simp_all add: allocate_output_def NumElements_def)
      have r3: "RecvString p rop ?fi (shape t) ?out
                  (deposit r (StringPlan ?pre ?fi dead (unat ?S) (shape t) xs @ [])) =
                (if dead_in (StringPlan ?pre ?fi dead (unat ?S) (shape t) xs) then Inl CheckFailed
                 else Inr (t, deposit r []))"
        using RecvString_plan [where dead = dead and rest = "[]", OF fresh S _ _ _ o]
          valid_tensor_elements [OF v Strings] b(2,3) rebuild_output [OF Strings]
        by (simp add: NumElements_def)
      show ?thesis
        unfolding SliceRecvOp_Compute_def r option.case Let_def pl r1 TF_simps prod.case dt
        using False cmp tb b(1) r3
        by (simp add: r2 TF_simps)
    qed
  qed
qed


subsection \<open>The plan of the example\<close>

lemma example_strings_dtype: "dtype example_strings = DT_STRING"
  by (simp add: example_strings_def)

lemma example_fresh:
  "fresh_instance example_platform pre fi NewLocalRendezvous"
  by (simp add: fresh_instance_def example_facts)

lemma example_strings_valid: "valid_tensor 24 example_strings"
  by (simp add: valid_tensor_def example_strings_def NumElements_def)

lemma example_strings_total: "TotalBytes 24 example_strings = 51"
  by (simp add: TotalBytes_def example_strings_def NumElements_def)

lemma upt_two: "[0..<2] = [0, Suc 0]"
  by (simp add: upt_rec)

lemma example_plan:
  "TransferPlan 24 (op_key_prefix (example_send_op S T)) \<lparr>frame_id = 0, iter_id = 0\<rparr> dead 1
     example_strings = example_messages dead"
proof -
  have b: "buf example_strings = Strings [''ab'', ''c'']" "shape example_strings = [2]"
    by (simp_all add: example_strings_def)
  show ?thesis
    by (simp add: TransferPlan_def example_strings_total b StringPlan_def ElementPlan_def
        ceil_div_def upt_two message_def example_messages_def example_dead_facts)
qed

lemma negative_slice_size_send:
  "SliceSendOp_Compute example_platform (example_send_op (- 1) DT_INT8)
     (example_ctx NewLocalRendezvous example_bytes False) = Inr example_after_send"
  by (simp add: SliceSendOp_Compute_def Let_def example_facts example_more_facts
      example_total_bytes SendTotalBytes_def send_under_ok TF_simps suffix_keys
      example_dead_facts example_after_send_def example_key_distinct
      example_key_distinct [symmetric])

lemma example_shape_empty:
  "table (example_after_send\<lparr>table := (table example_after_send)(example_key TotalBytesPhase := [])\<rparr>)
     (example_key ShapePhase) = []"
proof -
  have "example_key ShapePhase \<noteq> example_key TransferData"
    using phase_key_eq [of _ _ ShapePhase _ _ TransferData] by (auto simp add: example_key_def)
  then show ?thesis
    using example_key_distinct_shape by (simp add: example_after_send_def example_facts)
qed

lemma negative_slice_size_recv:
  "SliceRecvOp_Compute example_platform (example_recv_op (- 1) DT_INT8)
     (example_ctx example_after_send example_bytes False) = Inl DeadlineExceeded"
proof -
  let ?fi = "\<lparr>frame_id = 0, iter_id = 0\<rparr>"
  let ?r1 = "example_after_send\<lparr>table := (table example_after_send)(example_key TotalBytesPhase := [])\<rparr>"
  have ab: "aborted example_after_send = None"
    by (simp add: example_after_send_def example_facts)
  have t1: "RecvTotalBytes example_platform (example_recv_op (- 1) DT_INT8) ?fi example_after_send =
              Inr ((False, 3), ?r1)"
    unfolding RecvTotalBytes_def Let_def suffix_keys example_dead_facts
    using recv_under_ok [of example_platform "example_key TotalBytesPhase" example_after_send,
        OF _ ab example_after_send_table(2)]
    by (simp add: example_facts TF_simps scalar_int64_tensor)
  have t2: "RecvShape example_platform (example_recv_op (- 1) DT_INT8) ?fi ?r1 = Inl DeadlineExceeded"
    unfolding RecvShape_def Let_def suffix_keys example_dead_facts
    using example_shape_empty ab
    by (simp add: recv_live_def recv_under_def ParseKey_def Recv_def TF_RETURN_IF_ERROR_def
        example_facts)
  show ?thesis
    using t1 t2
    by (simp add: SliceRecvOp_Compute_def Let_def example_facts example_more_facts TF_simps)
qed

lemma example_bytes_valid: "valid_tensor 24 example_bytes"
  by (simp add: valid_tensor_def example_bytes_def NumElements_def)

lemma example_bytes_dtype: "dtype example_bytes = DT_INT8"
  by (simp add: example_bytes_def)

lemma example_byte_plan:
  "TransferPlan 24 (op_key_prefix (example_send_op S T)) \<lparr>frame_id = 0, iter_id = 0\<rparr> dead 2
     example_bytes = example_byte_messages dead"
proof -
  have b: "buf example_bytes = Bytes [1, 2, 3]" "shape example_bytes = [3]"
    by (simp_all add: example_bytes_def)
  show ?thesis
    by (simp add: TransferPlan_def example_total_bytes b BasicPlan_def
        ceil_div_def upt_two message_def example_byte_messages_def example_dead_facts)
qed

lemma example_direct_plan:
  "TransferPlan 24 (op_key_prefix (example_send_op S T)) \<lparr>frame_id = 0, iter_id = 0\<rparr> dead 3
     example_bytes = example_direct_messages dead"
  by (simp add: TransferPlan_def example_total_bytes message_def example_direct_messages_def
      example_dead_facts)

lemma live_plan:
  "\<not> dead_in (TransferPlan tsize pre fi (\<lambda>ph. False) s t)"
  by (simp add: TransferPlan_def BasicPlan_def StringPlan_def ElementPlan_def dead_in_map
      dead_in_concat split: buffer.split)

subsection \<open>A slice size of zero\<close>

lemma zero_slice_size_send:
  "SliceSendOp_Compute example_platform (example_send_op 0 DT_INT8)
     (example_ctx NewLocalRendezvous example_bytes False) = Inl ArithmeticTrap"
proof -
  let ?ctx = "example_ctx NewLocalRendezvous example_bytes False"
  let ?op = "example_send_op 0 DT_INT8"
  let ?fi = "\<lparr>frame_id = 0, iter_id = 0\<rparr>"
  obtain r1 where r1: "SendTotalBytes example_platform ?op ?ctx ?fi example_bytes NewLocalRendezvous = Inr r1"
    "aborted r1 = None"
    by (simp add: SendTotalBytes_def Let_def send_under_ok example_facts)
  obtain r2 where r2: "SendShape example_platform ?op ?ctx ?fi example_bytes r1 = Inr r2"
    using r1(2) by (simp add: SendShape_def Let_def send_under_ok example_facts)
  have "SendBasicType_slice_num 3 0 = Inl ArithmeticTrap"
    by (simp add: SendBasicType_slice_num_def int64_div_def)
  then have "SendBasicType example_platform ?op ?ctx ?fi example_bytes r2 = Inl ArithmeticTrap"
    by (simp add: SendBasicType_def Let_def example_facts example_total_bytes
        TF_RETURN_IF_ERROR_def)
  then show ?thesis
    using r1(1) r2
    by (simp add: SliceSendOp_Compute_def Let_def example_facts example_more_facts
        example_total_bytes TF_RETURN_IF_ERROR_def)
qed

lemma zero_slice_size_recv:
  "SliceRecvOp_Compute example_platform (example_recv_op 0 DT_INT8)
     (example_ctx example_after_shape example_bytes False) = Inl ArithmeticTrap"
proof -
  let ?op = "example_recv_op 0 DT_INT8"
  let ?fi = "\<lparr>frame_id = 0, iter_id = 0\<rparr>"
  let ?r1 = "example_after_shape\<lparr>table := (table example_after_shape)(example_key TotalBytesPhase := [])\<rparr>"
  let ?r2 = "?r1\<lparr>table := (table ?r1)(example_key ShapePhase := [])\<rparr>"
  have tb: "table example_after_shape (example_key TotalBytesPhase) = [(int64_scalar_tensor 3, False)]"
    and sh: "table ?r1 (example_key ShapePhase) = [(int64_tensor [1] [3], False)]"
    and ab: "aborted example_after_shape = None"
    using example_key_distinct_shape by (simp_all add: example_after_shape_def example_facts)
  have k: "GetSliceRendezvousKey (op_key_prefix ?op) ''_slice_transfer_totalbytes'' ?fi = example_key TotalBytesPhase"
    "GetSliceRendezvousKey (op_key_prefix ?op) ''_slice_transfer_shape'' ?fi = example_key ShapePhase"
    using example_dead_facts(3) [of 0 DT_INT8 TotalBytesPhase]
      example_dead_facts(3) [of 0 DT_INT8 ShapePhase]
    by (simp_all add: phase_key_def)
  have t1: "RecvTotalBytes example_platform ?op ?fi example_after_shape = Inr ((False, 3), ?r1)"
    unfolding RecvTotalBytes_def Let_def k
    using recv_under_ok [of example_platform "example_key TotalBytesPhase" example_after_shape, OF _ ab tb]
    by (simp add: example_facts TF_RETURN_IF_ERROR_def scalar_int64_tensor)
  have "vec_int64 (int64_tensor [1] [3]) = Inr [3]"
    using vec_int64_tensor [of "[3]"] by simp
  then have t2: "RecvShape example_platform ?op ?fi ?r1 = Inr ([3], ?r2)"
    unfolding RecvShape_def Let_def k
    using recv_live_ok [of example_platform "example_key ShapePhase" ?r1, OF _ _ sh] ab
    by (simp add: example_facts TF_RETURN_IF_ERROR_def AddDim_def)
  have "RecvBasicType_slice_num 3 0 = Inl ArithmeticTrap"
    by (simp add: RecvBasicType_slice_num_def int64_div_def)
  then have t3: "RecvBasicType example_platform ?op ?fi 3 (allocate_output DT_INT8 [3]) ?r2 = Inl ArithmeticTrap"
    by (simp add: RecvBasicType_def example_facts TF_RETURN_IF_ERROR_def)
  show ?thesis
    using t1 t2 t3
    by (simp add: SliceRecvOp_Compute_def Let_def example_facts example_more_facts
        TF_RETURN_IF_ERROR_def)
qed

lemma zero_slice_size_send_strings:
  "SliceSendOp_Compute example_platform (example_send_op 0 DT_STRING)
     (example_ctx NewLocalRendezvous example_strings False) = Inl ArithmeticTrap"
proof -
  let ?ctx = "example_ctx NewLocalRendezvous example_strings False"
  let ?op = "example_send_op 0 DT_STRING"
  let ?fi = "\<lparr>frame_id = 0, iter_id = 0\<rparr>"
  let ?pre = "op_key_prefix ?op"
  let ?live = "\<lambda>ph::phase. False"
  let ?tb = "message ?pre ?fi ?live TotalBytesPhase (int64_scalar_tensor 51)"
  let ?sh = "message ?pre ?fi ?live ShapePhase (int64_tensor [1] [2])"
  note fresh = example_fresh [of ?pre ?fi]
  have b: "buf example_strings = Strings [''ab'', ''c'']" "shape example_strings = [2]"
    by (simp_all add: example_strings_def)
  have s1: "SendTotalBytes example_platform ?op ?ctx ?fi example_strings NewLocalRendezvous =
              Inr (deposit NewLocalRendezvous [?tb])"
    unfolding SendTotalBytes_def Let_def suffix_keys
    using send_first_message [OF fresh]
    by (simp add: example_facts example_strings_total)
  have s2: "SendShape example_platform ?op ?ctx ?fi example_strings (deposit NewLocalRendezvous [?tb]) =
              Inr (deposit NewLocalRendezvous ([?tb] @ [?sh]))"
    unfolding SendShape_def Let_def suffix_keys
    using send_under_message [OF fresh, of "[?tb]"]
    by (simp add: example_facts b)
  have n: "SendStringSlice_slice_num 2 0 = Inl ArithmeticTrap"
    by (simp add: SendStringSlice_slice_num_def size_t_div_def)
  have s3: "SendString example_platform ?op ?ctx ?fi example_strings
              (deposit NewLocalRendezvous ([?tb] @ [?sh])) = Inl ArithmeticTrap"
    unfolding SendString_def Let_def suffix_keys
    using send_under_message [OF fresh, of "[?tb] @ [?sh]"]
    by (simp add: example_facts flat_tstring_def example_strings_dtype b NumElements_def
        TF_simps loop_indices_def upt_two element_at_def SendStringSlice_def n)
  show ?thesis
    using s1 s2 s3
    by (simp add: SliceSendOp_Compute_def Let_def example_facts example_more_facts
        example_strings_total TF_simps)
qed

lemma zero_slice_size_recv_strings:
  "SliceRecvOp_Compute example_platform (example_recv_op 0 DT_STRING)
     (example_ctx (deposit NewLocalRendezvous (take 3 (example_messages (\<lambda>ph. False))))
        example_strings False) = Inl ArithmeticTrap"
proof -
  let ?op = "example_recv_op 0 DT_STRING"
  let ?fi = "\<lparr>frame_id = 0, iter_id = 0\<rparr>"
  let ?pre = "op_key_prefix ?op"
  let ?live = "\<lambda>ph::phase. False"
  let ?tb = "message ?pre ?fi ?live TotalBytesPhase (int64_scalar_tensor 51)"
  let ?sh = "message ?pre ?fi ?live ShapePhase (int64_tensor [length [2::nat]] (map of_nat [2::nat]))"
  let ?el = "message ?pre ?fi ?live ElementsSizePhase (int64_tensor [2] [2, 1])"
  note fresh = example_fresh [of ?pre ?fi]
  have st: "take 3 (example_messages ?live) = [?tb, ?sh, ?el]"
    by (simp add: example_messages_def message_def example_dead_facts)
  have t1: "RecvTotalBytes example_platform ?op ?fi (deposit NewLocalRendezvous [?tb, ?sh, ?el]) =
              Inr ((False, 51), deposit NewLocalRendezvous [?sh, ?el])"
    using RecvTotalBytes_plan [OF fresh, of ?live 51 "[?sh, ?el]"] by simp
  have t2: "RecvShape example_platform ?op ?fi (deposit NewLocalRendezvous [?sh, ?el]) =
              Inr ([2], deposit NewLocalRendezvous [?el])"
    using RecvShape_plan [OF fresh, of "[2]" ?live "[?el]"] by simp
  have n: "RecvStringSlice_slice_num 2 0 = Inl ArithmeticTrap"
    by (simp add: RecvStringSlice_slice_num_def int64_div_def)
  have fl: "flat_int64 (int64_tensor [2] [2, 1]) = Inr [2, 1]"
    by (rule flat_int64_tensor) simp
  have t3: "RecvString example_platform ?op ?fi [2] (allocate_output DT_STRING [2])
              (deposit NewLocalRendezvous [?el]) = Inl ArithmeticTrap"
    unfolding RecvString_def Let_def suffix_keys
    using recv_live_message [OF fresh, of ?live ElementsSizePhase "int64_tensor [2] [2, 1]" "[]"]
    by (simp add: TF_simps fl flat_tstring_def allocate_output_def NumElements_def
        loop_indices_def upt_two element_at_def example_facts RecvStringSlice_def n)
  show ?thesis
    unfolding st
    using t1 t2 t3
    by (simp add: SliceRecvOp_Compute_def Let_def example_facts example_more_facts TF_simps)
qed


section \<open>The claim about the round trip\<close>

text \<open>
  C1. For a slice size of at least 1, a live and well-formed input (a fixed-width buffer
  or a list of strings, below \<open>2 ^ 62\<close> bytes) and a rendezvous whose channels for this
  transfer are empty, \<^verbatim>\<open>SliceSendOp::Compute\<close> deposits the messages of the transfer
  plan, and \<^verbatim>\<open>SliceRecvOp::Compute\<close> of the mirrored receiver, run on the rendezvous
  the sender leaves, outputs the input tensor itself (element type, shape and buffer) and
  leaves the rendezvous as it was before the sender ran. Without the bound on the slice
  size the claim fails: with a slice size of \<open>-1\<close> the sender compares unsigned and sends
  the tensor whole, the receiver compares signed and waits for the shape message.
\<close>

theorem round_trip:
  fixes sop :: SliceSendOp and rop :: SliceRecvOp
  assumes "ctx_rendezvous ctx = Some r"
    and "fresh_instance p (op_key_prefix sop) (GetFrameAndIter ctx (op_hostmem_sendrecv sop)) r"
    and "1 \<le> sint (op_slice_size sop)"
    and "valid_tensor (sizeof_tstring p) (ctx_input ctx)"
    and "op_dtype sop = dtype (ctx_input ctx)"
    and "\<not> is_input_dead ctx"
    and "op_key_prefix rop = op_key_prefix sop" "op_slice_size rop = op_slice_size sop"
        "op_hostmem_sendrecv rop = op_hostmem_sendrecv sop" "op_dtype rop = op_dtype sop"
  shows "SliceSendOp_Compute p sop ctx =
           Inr (deposit r (TransferPlan (sizeof_tstring p) (op_key_prefix sop)
                  (GetFrameAndIter ctx (op_hostmem_sendrecv sop)) (\<lambda>ph. False)
                  (unat (op_slice_size sop)) (ctx_input ctx))) \<and>
         SliceRecvOp_Compute p rop
           (ctx\<lparr>ctx_rendezvous :=
                   Some (deposit r (TransferPlan (sizeof_tstring p) (op_key_prefix sop)
                     (GetFrameAndIter ctx (op_hostmem_sendrecv sop)) (\<lambda>ph. False)
                     (unat (op_slice_size sop)) (ctx_input ctx)))\<rparr>) =
           Inr (Some (ctx_input ctx), r)"
proof -
  let ?fi = "GetFrameAndIter ctx (op_hostmem_sendrecv sop)"
  let ?plan = "TransferPlan (sizeof_tstring p) (op_key_prefix sop) ?fi (\<lambda>ph. False)
                 (unat (op_slice_size sop)) (ctx_input ctx)"
  let ?rctx = "ctx\<lparr>ctx_rendezvous := Some (deposit r ?plan)\<rparr>"
  have send: "SliceSendOp_Compute p sop ctx = Inr (deposit r ?plan)"
    using assms(1-6) by (rule SliceSendOp_Compute_plan)
  have live: "\<not> dead_in ?plan"
    by (simp add: TransferPlan_def BasicPlan_def StringPlan_def ElementPlan_def dead_in_map
        dead_in_concat split: buffer.split)
  have "SliceRecvOp_Compute p rop ?rctx =
          (if dead_in ?plan then Inl CheckFailed else Inr (Some (ctx_input ctx), r))"
    using SliceRecvOp_Compute_plan [of ?rctx r p rop "\<lambda>ph. False" "ctx_input ctx"] assms(2-5)
    by (simp add: assms(7-10))
  then have "SliceRecvOp_Compute p rop ?rctx = Inr (Some (ctx_input ctx), r)"
    using live by simp
  then show ?thesis using send by simp
qed

theorem round_trip_witness:
  "ctx_rendezvous (example_ctx NewLocalRendezvous example_strings False) = Some NewLocalRendezvous \<and>
   fresh_instance example_platform (op_key_prefix (example_send_op 1 DT_STRING))
     \<lparr>frame_id = 0, iter_id = 0\<rparr> NewLocalRendezvous \<and>
   1 \<le> sint (op_slice_size (example_send_op 1 DT_STRING)) \<and>
   valid_tensor (sizeof_tstring example_platform) example_strings \<and>
   op_dtype (example_send_op 1 DT_STRING) = dtype example_strings \<and>
   SliceSendOp_Compute example_platform (example_send_op 1 DT_STRING)
     (example_ctx NewLocalRendezvous example_strings False) =
     Inr (deposit NewLocalRendezvous (example_messages (\<lambda>ph. False))) \<and>
   SliceRecvOp_Compute example_platform (example_recv_op 1 DT_STRING)
     (example_ctx (deposit NewLocalRendezvous (example_messages (\<lambda>ph. False))) example_strings False) =
     Inr (Some example_strings, NewLocalRendezvous)"
  using round_trip [of "example_ctx NewLocalRendezvous example_strings False" NewLocalRendezvous
      example_platform "example_send_op 1 DT_STRING" "example_recv_op 1 DT_STRING"]
  by (simp add: example_facts example_more_facts example_fresh example_strings_valid
      example_plan [unfolded One_nat_def] example_strings_dtype)

theorem round_trip_counterexample:
  "SliceSendOp_Compute example_platform (example_send_op (- 1) DT_INT8)
     (example_ctx NewLocalRendezvous example_bytes False) = Inr example_after_send \<and>
   SliceRecvOp_Compute example_platform (example_recv_op (- 1) DT_INT8)
     (example_ctx example_after_send example_bytes False) = Inl DeadlineExceeded"
  using negative_slice_size_send negative_slice_size_recv by simp


section \<open>The claim about dead messages after the first phase\<close>

text \<open>
  C6. A receive of any phase after the first is followed by the check that the message
  is not dead: on a dead message the step, and with it \<^verbatim>\<open>RecvShape\<close> and
  \<^verbatim>\<open>RecvStringSlice\<close>, ends in the failed check. A run of
  \<^verbatim>\<open>SliceRecvOp::Compute\<close> that returns has consumed, after the total-bytes
  message, only messages that were not dead. And every message that
  \<^verbatim>\<open>SliceSendOp::Compute\<close> sends under another key than the total-bytes key is
  not dead. Every phase is checked: when the rendezvous holds the messages of a transfer
  plan, with any flags \<open>dead\<close> on the phases after the first, then
  \<^verbatim>\<open>SliceRecvOp::Compute\<close> ends in the failed check as soon as one of these flags
  is set (the direct transfer, the shape, the element sizes, a data slice, a string
  element, a slice of a string element), and returns the tensor when none is. A live
  sender deposits the plan whose flags are all unset, so the mirrored receiver run after
  it returns.
\<close>

theorem later_phases_never_dead:
  fixes sop :: SliceSendOp
  shows
  "((key_accepted p key \<and> aborted q = None \<and> table q key = (t, True) # ms \<longrightarrow>
      recv_live p q key = Inl CheckFailed) \<and>
   (key_accepted p (phase_key (op_key_prefix rop) fi ShapePhase) \<and> aborted q = None \<and>
    table q (phase_key (op_key_prefix rop) fi ShapePhase) = (t, True) # ms \<longrightarrow>
      RecvShape p rop fi q = Inl CheckFailed) \<and>
   (RecvStringSlice_slice_num element_size (op_slice_size rop) = Inr n \<and> 0 < sint n \<and>
    key_accepted p (phase_key (op_key_prefix rop) fi (DataSlicePhase index 0)) \<and>
    aborted q = None \<and>
    table q (phase_key (op_key_prefix rop) fi (DataSlicePhase index 0)) = (t, True) # ms \<longrightarrow>
      RecvStringSlice p rop fi index element_size (output_flat, q) = Inl CheckFailed) \<and>
   (ctx_rendezvous rctx = Some q \<and> SliceRecvOp_Compute p rop rctx = Inr (out, q') \<longrightarrow>
      (\<exists>first is_dead q1.
         recv_under p q (phase_key (op_key_prefix rop)
                           (GetFrameAndIter rctx (op_hostmem_sendrecv rop)) TotalBytesPhase) =
           Inr ((first, is_dead), q1) \<and>
         (is_dead \<longrightarrow> out = None \<and> q' = q1) \<and>
         (\<not> is_dead \<longrightarrow>
            consumes_from (is_phase_key (op_key_prefix rop)
                             (GetFrameAndIter rctx (op_hostmem_sendrecv rop))) q1 q'))) \<and>
   (ctx_rendezvous ctx = Some r \<and> SliceSendOp_Compute p sop ctx = Inr r' \<longrightarrow>
      (\<forall>k. k \<noteq> phase_key (op_key_prefix sop)
                   (GetFrameAndIter ctx (op_hostmem_sendrecv sop)) TotalBytesPhase \<longrightarrow>
           (\<exists>new. table r' k = table r k @ new \<and> (\<forall>m \<in> set new. \<not> snd m))))) \<and>
   (ctx_rendezvous dctx =
      Some (deposit base (TransferPlan (sizeof_tstring p) (op_key_prefix rop)
              (GetFrameAndIter dctx (op_hostmem_sendrecv rop)) dead
              (unat (op_slice_size rop)) payload)) \<and>
    fresh_instance p (op_key_prefix rop) (GetFrameAndIter dctx (op_hostmem_sendrecv rop)) base \<and>
    1 \<le> sint (op_slice_size rop) \<and> valid_tensor (sizeof_tstring p) payload \<and>
    op_dtype rop = dtype payload \<and> \<not> dead TotalBytesPhase \<longrightarrow>
      SliceRecvOp_Compute p rop dctx =
        (if dead_in (TransferPlan (sizeof_tstring p) (op_key_prefix rop)
                       (GetFrameAndIter dctx (op_hostmem_sendrecv rop)) dead
                       (unat (op_slice_size rop)) payload)
         then Inl CheckFailed else Inr (Some payload, base))) \<and>
   (ctx_rendezvous ctx = Some r \<and>
    fresh_instance p (op_key_prefix sop) (GetFrameAndIter ctx (op_hostmem_sendrecv sop)) r \<and>
    1 \<le> sint (op_slice_size sop) \<and> valid_tensor (sizeof_tstring p) (ctx_input ctx) \<and>
    op_dtype sop = dtype (ctx_input ctx) \<and> \<not> is_input_dead ctx \<longrightarrow>
      SliceSendOp_Compute p sop ctx =
        Inr (deposit r (TransferPlan (sizeof_tstring p) (op_key_prefix sop)
               (GetFrameAndIter ctx (op_hostmem_sendrecv sop)) (\<lambda>ph. False)
               (unat (op_slice_size sop)) (ctx_input ctx))) \<and>
      \<not> dead_in (TransferPlan (sizeof_tstring p) (op_key_prefix sop)
                   (GetFrameAndIter ctx (op_hostmem_sendrecv sop)) (\<lambda>ph. False)
                   (unat (op_slice_size sop)) (ctx_input ctx)) \<and>
      (op_key_prefix mop = op_key_prefix sop \<and> op_slice_size mop = op_slice_size sop \<and>
       op_hostmem_sendrecv mop = op_hostmem_sendrecv sop \<and> op_dtype mop = op_dtype sop \<longrightarrow>
         SliceRecvOp_Compute p mop
           (ctx\<lparr>ctx_rendezvous :=
                   Some (deposit r (TransferPlan (sizeof_tstring p) (op_key_prefix sop)
                     (GetFrameAndIter ctx (op_hostmem_sendrecv sop)) (\<lambda>ph. False)
                     (unat (op_slice_size sop)) (ctx_input ctx)))\<rparr>) =
           Inr (Some (ctx_input ctx), r)))"
    (is "?old \<and> ?recv \<and> ?send")
proof -
  have old: ?old
    using recv_live_dead [of p key q t ms] RecvShape_dead [of p rop fi q t ms]
      RecvStringSlice_dead [of element_size rop n p fi index q t ms output_flat]
      SliceRecvOp_Compute_consumes [of rctx q p rop out q']
      sender_later_messages_live [of ctx r p sop r']
    by blast
  have recv: ?recv
    using SliceRecvOp_Compute_plan [of dctx base p rop dead payload] by blast
  have send: ?send
  proof (intro impI, elim conjE)
    let ?plan = "TransferPlan (sizeof_tstring p) (op_key_prefix sop)
                   (GetFrameAndIter ctx (op_hostmem_sendrecv sop)) (\<lambda>ph. False)
                   (unat (op_slice_size sop)) (ctx_input ctx)"
    let ?rctx = "ctx\<lparr>ctx_rendezvous := Some (deposit r ?plan)\<rparr>"
    assume a: "ctx_rendezvous ctx = Some r"
      "fresh_instance p (op_key_prefix sop) (GetFrameAndIter ctx (op_hostmem_sendrecv sop)) r"
      "1 \<le> sint (op_slice_size sop)" "valid_tensor (sizeof_tstring p) (ctx_input ctx)"
      "op_dtype sop = dtype (ctx_input ctx)" "\<not> is_input_dead ctx"
    have s: "SliceSendOp_Compute p sop ctx = Inr (deposit r ?plan)"
      using a by (rule SliceSendOp_Compute_plan)
    have l: "\<not> dead_in ?plan" by (rule live_plan)
    have m: "SliceRecvOp_Compute p mop ?rctx = Inr (Some (ctx_input ctx), r)"
      if mirror: "op_key_prefix mop = op_key_prefix sop" "op_slice_size mop = op_slice_size sop"
        "op_hostmem_sendrecv mop = op_hostmem_sendrecv sop" "op_dtype mop = op_dtype sop"
    proof -
      have "SliceRecvOp_Compute p mop ?rctx =
              (if dead_in ?plan then Inl CheckFailed else Inr (Some (ctx_input ctx), r))"
        using SliceRecvOp_Compute_plan [of ?rctx r p mop "\<lambda>ph. False" "ctx_input ctx"] a(2-5)
        by (simp add: mirror)
      then show ?thesis using l by simp
    qed
    show "SliceSendOp_Compute p sop ctx = Inr (deposit r ?plan) \<and> \<not> dead_in ?plan \<and>
          (op_key_prefix mop = op_key_prefix sop \<and> op_slice_size mop = op_slice_size sop \<and>
           op_hostmem_sendrecv mop = op_hostmem_sendrecv sop \<and> op_dtype mop = op_dtype sop \<longrightarrow>
             SliceRecvOp_Compute p mop ?rctx = Inr (Some (ctx_input ctx), r))"
      using s l m by blast
  qed
  show ?thesis by (rule conjI [OF old conjI [OF recv send]])
qed

theorem later_phases_never_dead_witness:
  "key_accepted example_platform (example_key ShapePhase) \<and>
   aborted (example_dead_at ShapePhase) = None \<and>
   table (example_dead_at ShapePhase) (example_key ShapePhase) = (int64_scalar_tensor 3, True) # [] \<and>
   recv_live example_platform (example_dead_at ShapePhase) (example_key ShapePhase) = Inl CheckFailed \<and>
   RecvShape example_platform (example_recv_op 3 DT_INT8) \<lparr>frame_id = 0, iter_id = 0\<rparr>
     (example_dead_at ShapePhase) = Inl CheckFailed \<and>
   RecvStringSlice_slice_num 5 (op_slice_size (example_recv_op 3 DT_STRING)) = Inr 2 \<and>
   0 < sint (2 :: int64) \<and>
   table (example_dead_at (DataSlicePhase 0 0)) (example_key (DataSlicePhase 0 0)) =
     (int64_scalar_tensor 3, True) # [] \<and>
   RecvStringSlice example_platform (example_recv_op 3 DT_STRING) \<lparr>frame_id = 0, iter_id = 0\<rparr> 0 5
     ([[]], example_dead_at (DataSlicePhase 0 0)) = Inl CheckFailed \<and>
   ctx_rendezvous (example_ctx example_after_send example_bytes False) = Some example_after_send \<and>
   SliceRecvOp_Compute example_platform (example_recv_op 3 DT_INT8)
     (example_ctx example_after_send example_bytes False) =
     Inr (Some example_bytes, NewLocalRendezvous) \<and>
   consumes_from
     (is_phase_key (op_key_prefix (example_recv_op 3 DT_INT8)) \<lparr>frame_id = 0, iter_id = 0\<rparr>)
     (example_after_send\<lparr>table := (table example_after_send)(example_key TotalBytesPhase := [])\<rparr>)
     NewLocalRendezvous \<and>
   ctx_rendezvous (example_ctx NewLocalRendezvous example_bytes False) = Some NewLocalRendezvous \<and>
   SliceSendOp_Compute example_platform (example_send_op 3 DT_INT8)
     (example_ctx NewLocalRendezvous example_bytes False) = Inr example_after_send \<and>
   example_key TransferData \<noteq> example_key TotalBytesPhase \<and>
   table example_after_send (example_key TransferData) =
     table NewLocalRendezvous (example_key TransferData) @ [(example_bytes, False)] \<and>
   fresh_instance example_platform (op_key_prefix (example_recv_op 1 DT_STRING))
     \<lparr>frame_id = 0, iter_id = 0\<rparr> NewLocalRendezvous \<and>
   valid_tensor (sizeof_tstring example_platform) example_bytes \<and>
   valid_tensor (sizeof_tstring example_platform) example_strings \<and>
   dead_in (example_direct_messages (\<lambda>ph. ph = TransferData)) \<and>
   SliceRecvOp_Compute example_platform (example_recv_op 3 DT_INT8)
     (example_ctx (deposit NewLocalRendezvous (example_direct_messages (\<lambda>ph. ph = TransferData))) example_bytes False) = Inl CheckFailed \<and>
   dead_in (example_byte_messages (\<lambda>ph. ph = ShapePhase)) \<and>
   SliceRecvOp_Compute example_platform (example_recv_op 2 DT_INT8)
     (example_ctx (deposit NewLocalRendezvous (example_byte_messages (\<lambda>ph. ph = ShapePhase))) example_bytes False) = Inl CheckFailed \<and>
   dead_in (example_byte_messages (\<lambda>ph. ph = DataPhase 1)) \<and>
   SliceRecvOp_Compute example_platform (example_recv_op 2 DT_INT8)
     (example_ctx (deposit NewLocalRendezvous (example_byte_messages (\<lambda>ph. ph = DataPhase 1))) example_bytes False) = Inl CheckFailed \<and>
   dead_in (example_messages (\<lambda>ph. ph = ElementsSizePhase)) \<and>
   SliceRecvOp_Compute example_platform (example_recv_op 1 DT_STRING)
     (example_ctx (deposit NewLocalRendezvous (example_messages (\<lambda>ph. ph = ElementsSizePhase))) example_strings False) = Inl CheckFailed \<and>
   dead_in (example_messages (\<lambda>ph. ph = DataSlicePhase 0 1)) \<and>
   SliceRecvOp_Compute example_platform (example_recv_op 1 DT_STRING)
     (example_ctx (deposit NewLocalRendezvous (example_messages (\<lambda>ph. ph = DataSlicePhase 0 1))) example_strings False) = Inl CheckFailed \<and>
   dead_in (example_messages (\<lambda>ph. ph = DataPhase 1)) \<and>
   SliceRecvOp_Compute example_platform (example_recv_op 1 DT_STRING)
     (example_ctx (deposit NewLocalRendezvous (example_messages (\<lambda>ph. ph = DataPhase 1))) example_strings False) = Inl CheckFailed \<and>
   \<not> dead_in (example_messages (\<lambda>ph. False)) \<and>
   SliceSendOp_Compute example_platform (example_send_op 1 DT_STRING)
     (example_ctx NewLocalRendezvous example_strings False) =
     Inr (deposit NewLocalRendezvous (example_messages (\<lambda>ph. False))) \<and>
   SliceRecvOp_Compute example_platform (example_recv_op 1 DT_STRING)
     (example_ctx (deposit NewLocalRendezvous (example_messages (\<lambda>ph. False)))
        example_strings False) =
     Inr (Some example_strings, NewLocalRendezvous)"
proof -
  note w = later_phases_never_dead [of example_platform "example_key ShapePhase"
      "example_dead_at ShapePhase" "int64_scalar_tensor 3" "[]"
      "example_recv_op 3 DT_INT8" "\<lparr>frame_id = 0, iter_id = 0\<rparr>"]
  note w3 = later_phases_never_dead [of example_platform _ "example_dead_at (DataSlicePhase 0 0)"
      "int64_scalar_tensor 3" "[]" "example_recv_op 3 DT_STRING" "\<lparr>frame_id = 0, iter_id = 0\<rparr>"
      5 2 0 "[[]]"]
  note w4 = later_phases_never_dead [of example_platform _ example_after_send _ _
      "example_recv_op 3 DT_INT8" _ _ _ _ _
      "example_ctx example_after_send example_bytes False" "Some example_bytes" NewLocalRendezvous
      "example_ctx NewLocalRendezvous example_bytes False" NewLocalRendezvous
      "example_send_op 3 DT_INT8" example_after_send]
  have a: "recv_live example_platform (example_dead_at ShapePhase) (example_key ShapePhase) = Inl CheckFailed"
    using w [THEN conjunct1, THEN conjunct1] by (simp add: example_facts example_dead_facts)
  have b: "RecvShape example_platform (example_recv_op 3 DT_INT8) \<lparr>frame_id = 0, iter_id = 0\<rparr>
     (example_dead_at ShapePhase) = Inl CheckFailed"
    using w [THEN conjunct1, THEN conjunct2, THEN conjunct1] by (simp add: example_facts example_dead_facts)
  have c: "RecvStringSlice example_platform (example_recv_op 3 DT_STRING) \<lparr>frame_id = 0, iter_id = 0\<rparr> 0 5
     ([[]], example_dead_at (DataSlicePhase 0 0)) = Inl CheckFailed"
    using w3 [THEN conjunct1, THEN conjunct2, THEN conjunct2, THEN conjunct1] example_slice_num
    by (simp add: example_dead_facts example_facts)
  have d: "consumes_from
     (is_phase_key (op_key_prefix (example_recv_op 3 DT_INT8)) \<lparr>frame_id = 0, iter_id = 0\<rparr>)
     (example_after_send\<lparr>table := (table example_after_send)(example_key TotalBytesPhase := [])\<rparr>)
     NewLocalRendezvous"
    using w4 [THEN conjunct1, THEN conjunct2, THEN conjunct2, THEN conjunct2, THEN conjunct1]
      example_fast_run(2) example_first_recv
    by (auto simp add: example_dead_facts example_facts example_more_facts)
  have e0: "SliceRecvOp_Compute example_platform (example_recv_op 3 DT_INT8)
     (example_ctx (deposit NewLocalRendezvous (example_direct_messages (\<lambda>ph. ph = TransferData))) example_bytes False) = Inl CheckFailed"
    using later_phases_never_dead [where p = example_platform and rop = "example_recv_op 3 DT_INT8"
        and dctx = "example_ctx (deposit NewLocalRendezvous (example_direct_messages (\<lambda>ph. ph = TransferData))) example_bytes False"
        and base = NewLocalRendezvous and dead = "\<lambda>ph. ph = TransferData" and payload = example_bytes,
        THEN conjunct2, THEN conjunct1]
    by (simp add: example_facts example_more_facts example_fresh example_bytes_valid example_strings_valid
        example_bytes_dtype example_strings_dtype
        example_direct_plan) (simp add: example_direct_messages_def)
  have e1: "SliceRecvOp_Compute example_platform (example_recv_op 2 DT_INT8)
     (example_ctx (deposit NewLocalRendezvous (example_byte_messages (\<lambda>ph. ph = ShapePhase))) example_bytes False) = Inl CheckFailed"
    using later_phases_never_dead [where p = example_platform and rop = "example_recv_op 2 DT_INT8"
        and dctx = "example_ctx (deposit NewLocalRendezvous (example_byte_messages (\<lambda>ph. ph = ShapePhase))) example_bytes False"
        and base = NewLocalRendezvous and dead = "\<lambda>ph. ph = ShapePhase" and payload = example_bytes,
        THEN conjunct2, THEN conjunct1]
    by (simp add: example_facts example_more_facts example_fresh example_bytes_valid example_strings_valid
        example_bytes_dtype example_strings_dtype
        example_byte_plan) (simp add: example_byte_messages_def)
  have e2: "SliceRecvOp_Compute example_platform (example_recv_op 2 DT_INT8)
     (example_ctx (deposit NewLocalRendezvous (example_byte_messages (\<lambda>ph. ph = DataPhase 1))) example_bytes False) = Inl CheckFailed"
    using later_phases_never_dead [where p = example_platform and rop = "example_recv_op 2 DT_INT8"
        and dctx = "example_ctx (deposit NewLocalRendezvous (example_byte_messages (\<lambda>ph. ph = DataPhase 1))) example_bytes False"
        and base = NewLocalRendezvous and dead = "\<lambda>ph. ph = DataPhase 1" and payload = example_bytes,
        THEN conjunct2, THEN conjunct1]
    by (simp add: example_facts example_more_facts example_fresh example_bytes_valid example_strings_valid
        example_bytes_dtype example_strings_dtype
        example_byte_plan) (simp add: example_byte_messages_def)
  have e3: "SliceRecvOp_Compute example_platform (example_recv_op 1 DT_STRING)
     (example_ctx (deposit NewLocalRendezvous (example_messages (\<lambda>ph. ph = ElementsSizePhase))) example_strings False) = Inl CheckFailed"
    using later_phases_never_dead [where p = example_platform and rop = "example_recv_op 1 DT_STRING"
        and dctx = "example_ctx (deposit NewLocalRendezvous (example_messages (\<lambda>ph. ph = ElementsSizePhase))) example_strings False"
        and base = NewLocalRendezvous and dead = "\<lambda>ph. ph = ElementsSizePhase" and payload = example_strings,
        THEN conjunct2, THEN conjunct1]
    by (simp add: example_facts example_more_facts example_fresh example_bytes_valid example_strings_valid
        example_bytes_dtype example_strings_dtype
        example_plan [unfolded One_nat_def]) (simp add: example_messages_def)
  have e4: "SliceRecvOp_Compute example_platform (example_recv_op 1 DT_STRING)
     (example_ctx (deposit NewLocalRendezvous (example_messages (\<lambda>ph. ph = DataSlicePhase 0 1))) example_strings False) = Inl CheckFailed"
    using later_phases_never_dead [where p = example_platform and rop = "example_recv_op 1 DT_STRING"
        and dctx = "example_ctx (deposit NewLocalRendezvous (example_messages (\<lambda>ph. ph = DataSlicePhase 0 1))) example_strings False"
        and base = NewLocalRendezvous and dead = "\<lambda>ph. ph = DataSlicePhase 0 1" and payload = example_strings,
        THEN conjunct2, THEN conjunct1]
    by (simp add: example_facts example_more_facts example_fresh example_bytes_valid example_strings_valid
        example_bytes_dtype example_strings_dtype
        example_plan [unfolded One_nat_def]) (simp add: example_messages_def)
  have e5: "SliceRecvOp_Compute example_platform (example_recv_op 1 DT_STRING)
     (example_ctx (deposit NewLocalRendezvous (example_messages (\<lambda>ph. ph = DataPhase 1))) example_strings False) = Inl CheckFailed"
    using later_phases_never_dead [where p = example_platform and rop = "example_recv_op 1 DT_STRING"
        and dctx = "example_ctx (deposit NewLocalRendezvous (example_messages (\<lambda>ph. ph = DataPhase 1))) example_strings False"
        and base = NewLocalRendezvous and dead = "\<lambda>ph. ph = DataPhase 1" and payload = example_strings,
        THEN conjunct2, THEN conjunct1]
    by (simp add: example_facts example_more_facts example_fresh example_bytes_valid example_strings_valid
        example_bytes_dtype example_strings_dtype
        example_plan [unfolded One_nat_def]) (simp add: example_messages_def)
  have live: "SliceSendOp_Compute example_platform (example_send_op 1 DT_STRING)
     (example_ctx NewLocalRendezvous example_strings False) =
     Inr (deposit NewLocalRendezvous (example_messages (\<lambda>ph. False))) \<and>
   SliceRecvOp_Compute example_platform (example_recv_op 1 DT_STRING)
     (example_ctx (deposit NewLocalRendezvous (example_messages (\<lambda>ph. False)))
        example_strings False) =
     Inr (Some example_strings, NewLocalRendezvous)"
    using later_phases_never_dead [where p = example_platform
        and sop = "example_send_op 1 DT_STRING" and mop = "example_recv_op 1 DT_STRING"
        and ctx = "example_ctx NewLocalRendezvous example_strings False"
        and r = NewLocalRendezvous, THEN conjunct2, THEN conjunct2]
    by (simp add: example_facts example_more_facts example_fresh example_bytes_valid example_strings_valid
        example_bytes_dtype example_strings_dtype
        example_plan [unfolded One_nat_def])
  have flags: "dead_in (example_direct_messages (\<lambda>ph. ph = TransferData))"
    "dead_in (example_byte_messages (\<lambda>ph. ph = ShapePhase))"
    "dead_in (example_byte_messages (\<lambda>ph. ph = DataPhase 1))"
    "dead_in (example_messages (\<lambda>ph. ph = ElementsSizePhase))"
    "dead_in (example_messages (\<lambda>ph. ph = DataSlicePhase 0 1))"
    "dead_in (example_messages (\<lambda>ph. ph = DataPhase 1))"
    "\<not> dead_in (example_messages (\<lambda>ph. False))"
    by (simp_all add: example_direct_messages_def example_byte_messages_def example_messages_def)
  have old: "key_accepted example_platform (example_key ShapePhase) \<and>
   aborted (example_dead_at ShapePhase) = None \<and>
   table (example_dead_at ShapePhase) (example_key ShapePhase) = (int64_scalar_tensor 3, True) # [] \<and>
   recv_live example_platform (example_dead_at ShapePhase) (example_key ShapePhase) = Inl CheckFailed \<and>
   RecvShape example_platform (example_recv_op 3 DT_INT8) \<lparr>frame_id = 0, iter_id = 0\<rparr>
     (example_dead_at ShapePhase) = Inl CheckFailed \<and>
   RecvStringSlice_slice_num 5 (op_slice_size (example_recv_op 3 DT_STRING)) = Inr 2 \<and>
   0 < sint (2 :: int64) \<and>
   table (example_dead_at (DataSlicePhase 0 0)) (example_key (DataSlicePhase 0 0)) =
     (int64_scalar_tensor 3, True) # [] \<and>
   RecvStringSlice example_platform (example_recv_op 3 DT_STRING) \<lparr>frame_id = 0, iter_id = 0\<rparr> 0 5
     ([[]], example_dead_at (DataSlicePhase 0 0)) = Inl CheckFailed \<and>
   ctx_rendezvous (example_ctx example_after_send example_bytes False) = Some example_after_send \<and>
   SliceRecvOp_Compute example_platform (example_recv_op 3 DT_INT8)
     (example_ctx example_after_send example_bytes False) =
     Inr (Some example_bytes, NewLocalRendezvous) \<and>
   consumes_from
     (is_phase_key (op_key_prefix (example_recv_op 3 DT_INT8)) \<lparr>frame_id = 0, iter_id = 0\<rparr>)
     (example_after_send\<lparr>table := (table example_after_send)(example_key TotalBytesPhase := [])\<rparr>)
     NewLocalRendezvous \<and>
   ctx_rendezvous (example_ctx NewLocalRendezvous example_bytes False) = Some NewLocalRendezvous \<and>
   SliceSendOp_Compute example_platform (example_send_op 3 DT_INT8)
     (example_ctx NewLocalRendezvous example_bytes False) = Inr example_after_send \<and>
   example_key TransferData \<noteq> example_key TotalBytesPhase \<and>
   table example_after_send (example_key TransferData) =
     table NewLocalRendezvous (example_key TransferData) @ [(example_bytes, False)]"
    using a b c d example_fast_run example_slice_num example_key_distinct
    by (simp add: example_dead_facts example_facts example_after_send_table)
  show ?thesis
    using old e0 e1 e2 e3 e4 e5 live flags
    by (simp add: example_fresh example_bytes_valid example_strings_valid example_facts)
qed


lemma deposit_changed:
  "table (deposit r msgs) key \<noteq> table r key \<longleftrightarrow> key \<in> fst ` set msgs"
  by (auto simp add: deposit_table filter_empty_conv image_iff)

section \<open>The claim about the form of the keys\<close>

text \<open>
  C5. The key of a phase is
  \<^verbatim>\<open><send_device>;<incarnation>;<recv_device>;<tensor_name><suffix>;<frame_id>:<iter_id>\<close>
  with the incarnation, the frame id and the iteration id in decimal and the suffix one
  of the six of \<open>phase_suffix\<close>; it is the prefix the constructors store; and every
  channel that a run of \<^verbatim>\<open>SliceSendOp::Compute\<close> or \<^verbatim>\<open>SliceRecvOp::Compute\<close>
  changes has such a key. The suffixes are used as the transfer plan says: a live sender
  with a slice size of at least 1 changes exactly the channels of the keys of its plan
  (the total bytes; then the direct transfer, or the shape and the data slices, and for
  a string tensor the element sizes, the whole elements and the slices of the long ones),
  and the mirrored receiver takes every one of these messages again.
\<close>

theorem key_wire_form:
  fixes frame_iter :: FrameAndIter and sop :: SliceSendOp
  shows "(phase_key (GetSliceRendezvousKeyPrefix send_device recv_device incarnation tensor_name)
           frame_iter ph =
         send_device @ '';'' @ decimal (unat incarnation) @ '';'' @ recv_device @ '';'' @
         tensor_name @ phase_suffix ph @ '';'' @
         decimal (unat (frame_id frame_iter)) @ '':'' @ int64_to_string (iter_id frame_iter) \<and>
         op_key_prefix (SliceSendOp_init send_device recv_device incarnation tensor_name
                          hostmem slice_size T) =
           GetSliceRendezvousKeyPrefix send_device recv_device incarnation tensor_name \<and>
         op_key_prefix (SliceRecvOp_init send_device recv_device incarnation tensor_name
                          hostmem slice_size T timeout_ms) =
           GetSliceRendezvousKeyPrefix send_device recv_device incarnation tensor_name \<and>
         (ctx_rendezvous ctx = Some r \<and> SliceSendOp_Compute p sop ctx = Inr r' \<longrightarrow>
            (\<forall>key. table r' key \<noteq> table r key \<longrightarrow>
               is_phase_key (op_key_prefix sop)
                 (GetFrameAndIter ctx (op_hostmem_sendrecv sop)) key)) \<and>
         (ctx_rendezvous rctx = Some q \<and> SliceRecvOp_Compute p rop rctx = Inr (out, q') \<longrightarrow>
            (\<forall>key. table q' key \<noteq> table q key \<longrightarrow>
               is_phase_key (op_key_prefix rop)
                 (GetFrameAndIter rctx (op_hostmem_sendrecv rop)) key))) \<and>
         (ctx_rendezvous ctx = Some r \<and>
          fresh_instance p (op_key_prefix sop) (GetFrameAndIter ctx (op_hostmem_sendrecv sop)) r \<and>
          1 \<le> sint (op_slice_size sop) \<and> valid_tensor (sizeof_tstring p) (ctx_input ctx) \<and>
          op_dtype sop = dtype (ctx_input ctx) \<and> \<not> is_input_dead ctx \<longrightarrow>
            SliceSendOp_Compute p sop ctx =
              Inr (deposit r (TransferPlan (sizeof_tstring p) (op_key_prefix sop)
                     (GetFrameAndIter ctx (op_hostmem_sendrecv sop)) (\<lambda>ph. False)
                     (unat (op_slice_size sop)) (ctx_input ctx))) \<and>
            (\<forall>key. table (deposit r (TransferPlan (sizeof_tstring p) (op_key_prefix sop)
                            (GetFrameAndIter ctx (op_hostmem_sendrecv sop)) (\<lambda>ph. False)
                            (unat (op_slice_size sop)) (ctx_input ctx))) key \<noteq> table r key \<longleftrightarrow>
                   key \<in> fst ` set (TransferPlan (sizeof_tstring p) (op_key_prefix sop)
                                      (GetFrameAndIter ctx (op_hostmem_sendrecv sop)) (\<lambda>ph. False)
                                      (unat (op_slice_size sop)) (ctx_input ctx))) \<and>
            (op_key_prefix mop = op_key_prefix sop \<and> op_slice_size mop = op_slice_size sop \<and>
             op_hostmem_sendrecv mop = op_hostmem_sendrecv sop \<and> op_dtype mop = op_dtype sop \<longrightarrow>
               SliceRecvOp_Compute p mop
                 (ctx\<lparr>ctx_rendezvous :=
                         Some (deposit r (TransferPlan (sizeof_tstring p) (op_key_prefix sop)
                           (GetFrameAndIter ctx (op_hostmem_sendrecv sop)) (\<lambda>ph. False)
                           (unat (op_slice_size sop)) (ctx_input ctx)))\<rparr>) =
                 Inr (Some (ctx_input ctx), r)))"
    (is "?old \<and> ?plan")
proof -
  have "phase_key (GetSliceRendezvousKeyPrefix send_device recv_device incarnation tensor_name)
           frame_iter ph =
         send_device @ '';'' @ decimal (unat incarnation) @ '';'' @ recv_device @ '';'' @
         tensor_name @ phase_suffix ph @ '';'' @
         decimal (unat (frame_id frame_iter)) @ '':'' @ int64_to_string (iter_id frame_iter)"
    by (simp add: phase_key_def GetSliceRendezvousKey_def GetSliceRendezvousKeyPrefix_def
        FpToString_def uint64_to_string_def del: phase_suffix.simps)
  moreover have "op_key_prefix (SliceSendOp_init send_device recv_device incarnation tensor_name
                          hostmem slice_size T) =
           GetSliceRendezvousKeyPrefix send_device recv_device incarnation tensor_name"
    by (simp add: SliceSendOp_init_def)
  moreover have "op_key_prefix (SliceRecvOp_init send_device recv_device incarnation tensor_name
                          hostmem slice_size T timeout_ms) =
           GetSliceRendezvousKeyPrefix send_device recv_device incarnation tensor_name"
    by (simp add: SliceRecvOp_init_def)
  ultimately have old: ?old
    using sender_keys [of ctx r p sop r'] receiver_keys [of rctx q p rop out q'] by blast
  have plan: ?plan
  proof (intro impI, elim conjE)
    let ?plan = "TransferPlan (sizeof_tstring p) (op_key_prefix sop)
                   (GetFrameAndIter ctx (op_hostmem_sendrecv sop)) (\<lambda>ph. False)
                   (unat (op_slice_size sop)) (ctx_input ctx)"
    let ?rctx = "ctx\<lparr>ctx_rendezvous := Some (deposit r ?plan)\<rparr>"
    assume a: "ctx_rendezvous ctx = Some r"
      "fresh_instance p (op_key_prefix sop) (GetFrameAndIter ctx (op_hostmem_sendrecv sop)) r"
      "1 \<le> sint (op_slice_size sop)" "valid_tensor (sizeof_tstring p) (ctx_input ctx)"
      "op_dtype sop = dtype (ctx_input ctx)" "\<not> is_input_dead ctx"
    have s: "SliceSendOp_Compute p sop ctx = Inr (deposit r ?plan)"
      using a by (rule SliceSendOp_Compute_plan)
    have k: "\<forall>key. table (deposit r ?plan) key \<noteq> table r key \<longleftrightarrow> key \<in> fst ` set ?plan"
      by (simp add: deposit_changed)
    have m: "SliceRecvOp_Compute p mop ?rctx = Inr (Some (ctx_input ctx), r)"
      if mirror: "op_key_prefix mop = op_key_prefix sop" "op_slice_size mop = op_slice_size sop"
        "op_hostmem_sendrecv mop = op_hostmem_sendrecv sop" "op_dtype mop = op_dtype sop"
    proof -
      have "SliceRecvOp_Compute p mop ?rctx =
              (if dead_in ?plan then Inl CheckFailed else Inr (Some (ctx_input ctx), r))"
        using SliceRecvOp_Compute_plan [of ?rctx r p mop "\<lambda>ph. False" "ctx_input ctx"] a(2-5)
        by (simp add: mirror)
      then show ?thesis using live_plan by simp
    qed
    show "SliceSendOp_Compute p sop ctx = Inr (deposit r ?plan) \<and>
          (\<forall>key. table (deposit r ?plan) key \<noteq> table r key \<longleftrightarrow> key \<in> fst ` set ?plan) \<and>
          (op_key_prefix mop = op_key_prefix sop \<and> op_slice_size mop = op_slice_size sop \<and>
           op_hostmem_sendrecv mop = op_hostmem_sendrecv sop \<and> op_dtype mop = op_dtype sop \<longrightarrow>
             SliceRecvOp_Compute p mop ?rctx = Inr (Some (ctx_input ctx), r))"
      using s k m by blast
  qed
  show ?thesis by (rule conjI [OF old plan])
qed


lemma example_key_string:
  "example_key ph =
     ''/job:ps/replica:0/task:0/device:CPU:0;1;/job:worker/replica:0/task:0/device:CPU:0;edge_5_x'' @
     phase_suffix ph @ '';0:0''"
  by (simp add: example_key_def example_send_op_def SliceSendOp_init_def phase_key_def
      GetSliceRendezvousKey_def GetSliceRendezvousKeyPrefix_def FpToString_def number_strings
      uint64_to_string_def decimal_digits del: phase_suffix.simps)

lemma example_plan_keys:
  "map fst (example_messages dead) =
     [''/job:ps/replica:0/task:0/device:CPU:0;1;/job:worker/replica:0/task:0/device:CPU:0;edge_5_x_slice_transfer_totalbytes;0:0'',
      ''/job:ps/replica:0/task:0/device:CPU:0;1;/job:worker/replica:0/task:0/device:CPU:0;edge_5_x_slice_transfer_shape;0:0'',
      ''/job:ps/replica:0/task:0/device:CPU:0;1;/job:worker/replica:0/task:0/device:CPU:0;edge_5_x_slice_transfer_elements_size;0:0'',
      ''/job:ps/replica:0/task:0/device:CPU:0;1;/job:worker/replica:0/task:0/device:CPU:0;edge_5_x_slice_transfer_data_0_0;0:0'',
      ''/job:ps/replica:0/task:0/device:CPU:0;1;/job:worker/replica:0/task:0/device:CPU:0;edge_5_x_slice_transfer_data_0_1;0:0'',
      ''/job:ps/replica:0/task:0/device:CPU:0;1;/job:worker/replica:0/task:0/device:CPU:0;edge_5_x_slice_transfer_data_1;0:0'']"
  "map fst (example_direct_messages dead) =
     [''/job:ps/replica:0/task:0/device:CPU:0;1;/job:worker/replica:0/task:0/device:CPU:0;edge_5_x_slice_transfer_totalbytes;0:0'',
      ''/job:ps/replica:0/task:0/device:CPU:0;1;/job:worker/replica:0/task:0/device:CPU:0;edge_5_x_transfer_data;0:0'']"
  by (simp_all add: example_messages_def example_direct_messages_def example_key_string
      number_strings)

theorem key_wire_form_witness:
  "phase_key (GetSliceRendezvousKeyPrefix ''/job:ps/replica:0/task:0/device:CPU:0''
       ''/job:worker/replica:0/task:0/device:CPU:0'' 1 ''edge_5_x'')
     \<lparr>frame_id = 7, iter_id = 2\<rparr> (DataSlicePhase 2 11) =
   ''/job:ps/replica:0/task:0/device:CPU:0;1;/job:worker/replica:0/task:0/device:CPU:0;edge_5_x_slice_transfer_data_2_11;7:2'' \<and>
   ctx_rendezvous (example_ctx NewLocalRendezvous example_bytes False) = Some NewLocalRendezvous \<and>
   SliceSendOp_Compute example_platform (example_send_op 3 DT_INT8)
     (example_ctx NewLocalRendezvous example_bytes False) = Inr example_after_send \<and>
   table example_after_send (example_key TransferData) \<noteq>
     table NewLocalRendezvous (example_key TransferData) \<and>
   is_phase_key (op_key_prefix (example_send_op 3 DT_INT8))
     (GetFrameAndIter (example_ctx NewLocalRendezvous example_bytes False)
        (op_hostmem_sendrecv (example_send_op 3 DT_INT8)))
     (example_key TransferData) \<and>
   ctx_rendezvous (example_ctx example_after_send example_bytes False) = Some example_after_send \<and>
   SliceRecvOp_Compute example_platform (example_recv_op 3 DT_INT8)
     (example_ctx example_after_send example_bytes False) =
     Inr (Some example_bytes, NewLocalRendezvous) \<and>
   table NewLocalRendezvous (example_key TransferData) \<noteq>
     table example_after_send (example_key TransferData) \<and>
   is_phase_key (op_key_prefix (example_recv_op 3 DT_INT8))
     (GetFrameAndIter (example_ctx example_after_send example_bytes False)
        (op_hostmem_sendrecv (example_recv_op 3 DT_INT8)))
     (example_key TransferData) \<and>
   fresh_instance example_platform (op_key_prefix (example_send_op 1 DT_STRING))
     \<lparr>frame_id = 0, iter_id = 0\<rparr> NewLocalRendezvous \<and>
   valid_tensor (sizeof_tstring example_platform) example_strings \<and>
   valid_tensor (sizeof_tstring example_platform) example_bytes \<and>
   SliceSendOp_Compute example_platform (example_send_op 1 DT_STRING)
     (example_ctx NewLocalRendezvous example_strings False) =
     Inr (deposit NewLocalRendezvous (example_messages (\<lambda>ph. False))) \<and>
   map fst (example_messages (\<lambda>ph. False)) =
     [''/job:ps/replica:0/task:0/device:CPU:0;1;/job:worker/replica:0/task:0/device:CPU:0;edge_5_x_slice_transfer_totalbytes;0:0'',
      ''/job:ps/replica:0/task:0/device:CPU:0;1;/job:worker/replica:0/task:0/device:CPU:0;edge_5_x_slice_transfer_shape;0:0'',
      ''/job:ps/replica:0/task:0/device:CPU:0;1;/job:worker/replica:0/task:0/device:CPU:0;edge_5_x_slice_transfer_elements_size;0:0'',
      ''/job:ps/replica:0/task:0/device:CPU:0;1;/job:worker/replica:0/task:0/device:CPU:0;edge_5_x_slice_transfer_data_0_0;0:0'',
      ''/job:ps/replica:0/task:0/device:CPU:0;1;/job:worker/replica:0/task:0/device:CPU:0;edge_5_x_slice_transfer_data_0_1;0:0'',
      ''/job:ps/replica:0/task:0/device:CPU:0;1;/job:worker/replica:0/task:0/device:CPU:0;edge_5_x_slice_transfer_data_1;0:0''] \<and>
   table (deposit NewLocalRendezvous (example_messages (\<lambda>ph. False)))
     (example_key (DataSlicePhase 0 1)) \<noteq>
   table NewLocalRendezvous (example_key (DataSlicePhase 0 1)) \<and>
   SliceRecvOp_Compute example_platform (example_recv_op 1 DT_STRING)
     (example_ctx (deposit NewLocalRendezvous (example_messages (\<lambda>ph. False)))
        example_strings False) =
     Inr (Some example_strings, NewLocalRendezvous) \<and>
   SliceSendOp_Compute example_platform (example_send_op 3 DT_INT8)
     (example_ctx NewLocalRendezvous example_bytes False) =
     Inr (deposit NewLocalRendezvous (example_direct_messages (\<lambda>ph. False))) \<and>
   map fst (example_direct_messages (\<lambda>ph. False)) =
     [''/job:ps/replica:0/task:0/device:CPU:0;1;/job:worker/replica:0/task:0/device:CPU:0;edge_5_x_slice_transfer_totalbytes;0:0'',
      ''/job:ps/replica:0/task:0/device:CPU:0;1;/job:worker/replica:0/task:0/device:CPU:0;edge_5_x_transfer_data;0:0'']"
proof -
  note w = key_wire_form [of _ _ _ _ _ _ _ _ _ _
      "example_ctx NewLocalRendezvous example_bytes False" NewLocalRendezvous
      example_platform "example_send_op 3 DT_INT8" example_after_send
      "example_ctx example_after_send example_bytes False" example_after_send
      "example_recv_op 3 DT_INT8" "Some example_bytes" NewLocalRendezvous]
  have changed: "table example_after_send (example_key TransferData) \<noteq>
     table NewLocalRendezvous (example_key TransferData)"
    by (simp add: example_after_send_table example_facts)
  have "is_phase_key (op_key_prefix (example_send_op 3 DT_INT8))
     (GetFrameAndIter (example_ctx NewLocalRendezvous example_bytes False)
        (op_hostmem_sendrecv (example_send_op 3 DT_INT8)))
     (example_key TransferData)"
    using w [THEN conjunct1] example_fast_run(1) changed by (simp add: example_facts)
  moreover have "is_phase_key (op_key_prefix (example_recv_op 3 DT_INT8))
     (GetFrameAndIter (example_ctx example_after_send example_bytes False)
        (op_hostmem_sendrecv (example_recv_op 3 DT_INT8)))
     (example_key TransferData)"
    using w [THEN conjunct1] example_fast_run(2) changed by (simp add: example_facts)
  ultimately have old: "phase_key (GetSliceRendezvousKeyPrefix ''/job:ps/replica:0/task:0/device:CPU:0''
       ''/job:worker/replica:0/task:0/device:CPU:0'' 1 ''edge_5_x'')
     \<lparr>frame_id = 7, iter_id = 2\<rparr> (DataSlicePhase 2 11) =
   ''/job:ps/replica:0/task:0/device:CPU:0;1;/job:worker/replica:0/task:0/device:CPU:0;edge_5_x_slice_transfer_data_2_11;7:2'' \<and>
   ctx_rendezvous (example_ctx NewLocalRendezvous example_bytes False) = Some NewLocalRendezvous \<and>
   SliceSendOp_Compute example_platform (example_send_op 3 DT_INT8)
     (example_ctx NewLocalRendezvous example_bytes False) = Inr example_after_send \<and>
   table example_after_send (example_key TransferData) \<noteq>
     table NewLocalRendezvous (example_key TransferData) \<and>
   is_phase_key (op_key_prefix (example_send_op 3 DT_INT8))
     (GetFrameAndIter (example_ctx NewLocalRendezvous example_bytes False)
        (op_hostmem_sendrecv (example_send_op 3 DT_INT8)))
     (example_key TransferData) \<and>
   ctx_rendezvous (example_ctx example_after_send example_bytes False) = Some example_after_send \<and>
   SliceRecvOp_Compute example_platform (example_recv_op 3 DT_INT8)
     (example_ctx example_after_send example_bytes False) =
     Inr (Some example_bytes, NewLocalRendezvous) \<and>
   table NewLocalRendezvous (example_key TransferData) \<noteq>
     table example_after_send (example_key TransferData) \<and>
   is_phase_key (op_key_prefix (example_recv_op 3 DT_INT8))
     (GetFrameAndIter (example_ctx example_after_send example_bytes False)
        (op_hostmem_sendrecv (example_recv_op 3 DT_INT8)))
     (example_key TransferData)"
    using example_slice_key example_fast_run changed by (simp add: example_facts)
  note s = key_wire_form [where p = example_platform
        and sop = "example_send_op 1 DT_STRING" and mop = "example_recv_op 1 DT_STRING"
        and ctx = "example_ctx NewLocalRendezvous example_strings False"
        and r = NewLocalRendezvous, THEN conjunct2]
  have strings: "SliceSendOp_Compute example_platform (example_send_op 1 DT_STRING)
     (example_ctx NewLocalRendezvous example_strings False) =
     Inr (deposit NewLocalRendezvous (example_messages (\<lambda>ph. False))) \<and>
   SliceRecvOp_Compute example_platform (example_recv_op 1 DT_STRING)
     (example_ctx (deposit NewLocalRendezvous (example_messages (\<lambda>ph. False)))
        example_strings False) =
     Inr (Some example_strings, NewLocalRendezvous)"
    using s
    by (simp add: example_facts example_more_facts example_fresh example_bytes_valid example_strings_valid
        example_bytes_dtype example_strings_dtype
        example_plan [unfolded One_nat_def])
  have touched: "table (deposit NewLocalRendezvous (example_messages (\<lambda>ph. False)))
     (example_key (DataSlicePhase 0 1)) \<noteq>
   table NewLocalRendezvous (example_key (DataSlicePhase 0 1))"
    by (simp add: deposit_changed example_messages_def)
  have bytes: "SliceSendOp_Compute example_platform (example_send_op 3 DT_INT8)
     (example_ctx NewLocalRendezvous example_bytes False) =
     Inr (deposit NewLocalRendezvous (example_direct_messages (\<lambda>ph. False)))"
    using key_wire_form [where p = example_platform
        and sop = "example_send_op 3 DT_INT8" and mop = "example_recv_op 3 DT_INT8"
        and ctx = "example_ctx NewLocalRendezvous example_bytes False"
        and r = NewLocalRendezvous, THEN conjunct2]
    by (simp add: example_facts example_more_facts example_fresh example_bytes_valid example_strings_valid
        example_bytes_dtype example_strings_dtype
        example_direct_plan)
  show ?thesis
    using old strings touched bytes example_plan_keys
    by (simp add: example_fresh example_bytes_valid example_strings_valid example_facts)
qed


section \<open>The claim about the slice size\<close>

text \<open>
  C10. The four slicing paths compute the slice count as
  \<^verbatim>\<open>(N + slice_size - 1) / slice_size\<close>. With a slice size of at least 1 each of the
  four divisions returns this quotient (signed in \<^verbatim>\<open>SendBasicType\<close>,
  \<^verbatim>\<open>RecvBasicType\<close> and \<^verbatim>\<open>RecvStringSlice\<close>, unsigned in
  \<^verbatim>\<open>SendStringSlice\<close>). With a slice size of 0 each of them traps, for every
  \<open>N\<close>: none of the four has a guard. Nothing before them checks the slice size: the
  constructors store a slice size of 0 as it is, and a sender and a receiver constructed
  with it reach the division and trap there, for a fixed-width tensor as for a string
  tensor.
\<close>

theorem slice_size_precondition:
  fixes N S M :: "64 word"
  shows "(1 \<le> sint S \<longrightarrow>
           SendBasicType_slice_num N S = Inr (word_of_int (sint (N + S - 1) sdiv sint S)) \<and>
           SendStringSlice_slice_num N S = Inr ((N + S - 1) div S) \<and>
           RecvBasicType_slice_num N S = Inr (word_of_int (sint (N + S - 1) sdiv sint S)) \<and>
           RecvStringSlice_slice_num N S = Inr (word_of_int (sint (N + S - 1) sdiv sint S))) \<and>
         SendBasicType_slice_num M 0 = Inl ArithmeticTrap \<and>
         SendStringSlice_slice_num M 0 = Inl ArithmeticTrap \<and>
         RecvBasicType_slice_num M 0 = Inl ArithmeticTrap \<and>
         RecvStringSlice_slice_num M 0 = Inl ArithmeticTrap \<and>
         op_slice_size (SliceSendOp_init send_device recv_device incarnation tensor_name
                          hostmem 0 T) = 0 \<and>
         op_slice_size (SliceRecvOp_init send_device recv_device incarnation tensor_name
                          hostmem 0 T timeout_ms) = 0 \<and>
         SliceSendOp_Compute example_platform (example_send_op 0 DT_INT8)
           (example_ctx NewLocalRendezvous example_bytes False) = Inl ArithmeticTrap \<and>
         SliceRecvOp_Compute example_platform (example_recv_op 0 DT_INT8)
           (example_ctx example_after_shape example_bytes False) = Inl ArithmeticTrap \<and>
         SliceSendOp_Compute example_platform (example_send_op 0 DT_STRING)
           (example_ctx NewLocalRendezvous example_strings False) = Inl ArithmeticTrap \<and>
         SliceRecvOp_Compute example_platform (example_recv_op 0 DT_STRING)
           (example_ctx (deposit NewLocalRendezvous (take 3 (example_messages (\<lambda>ph. False))))
              example_strings False) = Inl ArithmeticTrap"
    (is "?positive \<and> ?zero")
proof -
  have ?positive
  proof
    assume "1 \<le> sint S"
    then have "S \<noteq> 0" "sint S \<noteq> - 1" by auto
    then show "SendBasicType_slice_num N S = Inr (word_of_int (sint (N + S - 1) sdiv sint S)) \<and>
           SendStringSlice_slice_num N S = Inr ((N + S - 1) div S) \<and>
           RecvBasicType_slice_num N S = Inr (word_of_int (sint (N + S - 1) sdiv sint S)) \<and>
           RecvStringSlice_slice_num N S = Inr (word_of_int (sint (N + S - 1) sdiv sint S))"
      by (simp add: SendBasicType_slice_num_def SendStringSlice_slice_num_def
          RecvBasicType_slice_num_def RecvStringSlice_slice_num_def int64_div_def size_t_div_def)
  qed
  moreover have ?zero
    using zero_slice_size_send zero_slice_size_recv zero_slice_size_send_strings
      zero_slice_size_recv_strings
    by (simp add: SendBasicType_slice_num_def SendStringSlice_slice_num_def
        RecvBasicType_slice_num_def RecvStringSlice_slice_num_def int64_div_def size_t_div_def
        SliceSendOp_init_def SliceRecvOp_init_def)
  ultimately show ?thesis by (rule conjI)
qed

theorem slice_size_precondition_witness:
  "1 \<le> sint (3 :: int64) \<and>
   SendBasicType_slice_num 10 3 = Inr 4 \<and> SendStringSlice_slice_num 10 3 = Inr 4 \<and>
   RecvBasicType_slice_num 10 3 = Inr 4 \<and> RecvStringSlice_slice_num 10 3 = Inr 4"
  using slice_size_precondition [where S = 3 and N = 10, THEN conjunct1]
  by (simp add: SendBasicType_slice_num_def SendStringSlice_slice_num_def
      RecvBasicType_slice_num_def RecvStringSlice_slice_num_def int64_div_small)

end
